(* ===== verification/Prelude.thy ===== *)
theory Prelude
  imports Main "HOL-Library.Word"
begin

text \<open>
  Shared ground of the NetworkService development.

  \<^item> machine types of the C++ sources (\<open>u8\<close> .. \<open>u64\<close>) and the \<open><cctype>\<close> classifiers
    in the "C" locale;
  \<^item> decimal printing as \<open>std::ostream\<close> and \<open>std::to_string\<close> do it, and
    \<open>std::string::find\<close>;
  \<^item> fallible, state-changing C++ functions as \<^emph>\<open>actions\<close> \<open>'s \<Rightarrow> bool \<times> 's\<close> (the
    returned bool and the state after the call) with a small total-correctness calculus:
    \<open>valid P f Q E\<close> says that from a state in \<open>P\<close> the call ends in \<open>Q\<close> when it returns
    true and in \<open>E\<close> when it returns false. Its rules are collected in \<open>valid_rules\<close>;
  \<^item> the locale \<open>invariant_machine\<close>: what a component that is driven by a sequence of
    calls promises its clients, proved once and interpreted by each component.
\<close>

named_theorems valid_rules
named_theorems chr_defs
named_theorems json_skip

type_synonym u8 = "8 word"
type_synonym u16 = "16 word"
type_synonym u32 = "32 word"
type_synonym u64 = "64 word"

text \<open>\<open>std::numeric_limits<std::uint64_t>::max()\<close>.\<close>

definition u64_max :: u64 where
  "u64_max = - 1"

lemma unat_u64: "unat (w :: u64) < 2 ^ 64"
  using unsigned_less [of w] by simp

lemma one_le_u64: "(w :: u64) \<noteq> 0 \<Longrightarrow> 1 \<le> w"
  by (simp add: word_le_nat_alt Suc_le_eq unat_gt_0)

lemma unat_u64_max: "unat u64_max = 2 ^ 64 - 1"
  by (simp add: u64_max_def unsigned_minus_1_eq_mask mask_eq_exp_minus_1)

section \<open>Characters\<close>

text \<open>A \<open>char\<close> of a \<open>std::string\<close>, read as \<open>unsigned char\<close>.\<close>

definition ord :: "char \<Rightarrow> nat" where
  [chr_defs]: "ord c = of_char c"

definition isspace :: "char \<Rightarrow> bool" where
  [chr_defs]: "isspace c \<longleftrightarrow> ord c = 32 \<or> (9 \<le> ord c \<and> ord c \<le> 13)"

definition isdigit :: "char \<Rightarrow> bool" where
  [chr_defs]: "isdigit c \<longleftrightarrow> 48 \<le> ord c \<and> ord c \<le> 57"

definition isxdigit :: "char \<Rightarrow> bool" where
  [chr_defs]: "isxdigit c \<longleftrightarrow> isdigit c \<or> (65 \<le> ord c \<and> ord c \<le> 70) \<or> (97 \<le> ord c \<and> ord c \<le> 102)"

definition digit_char :: "nat \<Rightarrow> char" where
  [chr_defs]: "digit_char d = char_of (48 + d)"

lemma ord_less_256 [simp]: "ord c < 256"
  by (simp add: ord_def)

lemma char_of_ord [simp]: "char_of (ord c) = c"
  by (simp add: ord_def)

lemma ord_char_of [simp]: "n < 256 \<Longrightarrow> ord (char_of n) = n"
  by (simp add: ord_def)

lemma ord_inject [simp]: "ord a = ord b \<longleftrightarrow> a = b"
  by (metis char_of_ord)

lemma ord_digit_char [simp]: "d < 10 \<Longrightarrow> ord (digit_char d) = 48 + d"
  by (simp add: digit_char_def)

lemma isdigit_digit_char [simp]: "d < 10 \<Longrightarrow> isdigit (digit_char d)"
  by (simp add: isdigit_def)

lemma eq_char_ord: "c = d \<longleftrightarrow> ord c = ord d"
  by simp

section \<open>Decimal printing\<close>

fun show_nat :: "nat \<Rightarrow> string" where
  "show_nat n = (if n < 10 then [digit_char n] else show_nat (n div 10) @ [digit_char (n mod 10)])"

declare show_nat.simps [simp del]

definition show_int :: "int \<Rightarrow> string" where
  "show_int i = (if i < 0 then CHR ''-'' # show_nat (nat (- i)) else show_nat (nat i))"

definition show_u64 :: "u64 \<Rightarrow> string" where
  "show_u64 w = show_nat (unat w)"

definition show_u32 :: "u32 \<Rightarrow> string" where
  "show_u32 w = show_nat (unat w)"

definition show_bool :: "bool \<Rightarrow> string" where
  "show_bool b = (if b then ''true'' else ''false'')"

text \<open>The value a run of decimal digits denotes, and its agreement with printing.\<close>

fun digits_value :: "nat \<Rightarrow> string \<Rightarrow> nat" where
  "digits_value acc [] = acc"
| "digits_value acc (c # cs) = digits_value (acc * 10 + (ord c - 48)) cs"

lemma digits_value_append: "digits_value acc (xs @ ys) = digits_value (digits_value acc xs) ys"
  by (induction xs arbitrary: acc) auto

lemma show_nat_digits: "list_all isdigit (show_nat n)"
proof (induction n rule: show_nat.induct)
  case (1 n)
  then show ?case by (subst show_nat.simps) simp
qed

lemma show_nat_nonempty [simp]: "show_nat n \<noteq> []"
  by (subst show_nat.simps) simp

lemma digits_value_show_nat [simp]: "digits_value 0 (show_nat n) = n"
proof (induction n rule: show_nat.induct)
  case (1 n)
  then show ?case by (subst show_nat.simps) (simp add: digits_value_append)
qed

lemma length_show_nat: "n < 10 ^ Suc k \<Longrightarrow> length (show_nat n) \<le> Suc k"
proof (induction k arbitrary: n)
  case 0
  then show ?case by (subst show_nat.simps) simp
next
  case (Suc k)
  then have "n div 10 < 10 ^ Suc k" by (simp add: less_mult_imp_div_less)
  with Suc.IH have "length (show_nat (n div 10)) \<le> Suc k" by blast
  then show ?case by (subst show_nat.simps) simp
qed

lemma length_show_u64: "length (show_u64 w) \<le> 20"
proof -
  have "unat w < 2 ^ 64" using unsigned_less [of w] by simp
  also have "(2::nat) ^ 64 < 10 ^ Suc 19" by simp
  finally have "length (show_nat (unat w)) \<le> Suc 19" by (rule length_show_nat)
  then show ?thesis by (simp add: show_u64_def)
qed

section \<open>Substring search (\<open>std::string::find\<close>)\<close>

fun starts_with :: "string \<Rightarrow> string \<Rightarrow> bool" where
  "starts_with [] s = True"
| "starts_with (n # ns) [] = False"
| "starts_with (n # ns) (c # cs) = (n = c \<and> starts_with ns cs)"

text \<open>\<open>str_find needle s\<close> is the suffix of \<open>s\<close> at the first occurrence of \<open>needle\<close>.\<close>

fun str_find :: "string \<Rightarrow> string \<Rightarrow> string option" where
  "str_find needle [] = (if needle = [] then Some [] else None)"
| "str_find needle (c # cs) =
     (if starts_with needle (c # cs) then Some (c # cs) else str_find needle cs)"

definition contains :: "string \<Rightarrow> string \<Rightarrow> bool" where
  "contains needle s = (str_find needle s \<noteq> None)"

lemma starts_with_iff: "starts_with n s \<longleftrightarrow> (\<exists>r. s = n @ r)"
  by (induction n s rule: starts_with.induct) auto

lemma contains_iff: "contains n s \<longleftrightarrow> (\<exists>p r. s = p @ n @ r)"
proof (induction s)
  case Nil
  then show ?case by (simp add: contains_def)
next
  case (Cons c s)
  show ?case
  proof (cases "starts_with n (c # s)")
    case True
    then show ?thesis by (auto simp: contains_def starts_with_iff intro: exI [of _ "[]"])
  next
    case False
    then have "contains n (c # s) = contains n s" by (simp add: contains_def)
    moreover have "(\<exists>p r. c # s = p @ n @ r) \<longleftrightarrow> (\<exists>p r. s = p @ n @ r)"
      using False by (auto simp: starts_with_iff Cons_eq_append_conv)
    ultimately show ?thesis using Cons by simp
  qed
qed

section \<open>Actions\<close>

text \<open>
  \<open>if (!f(...)) return false; rest\<close> is \<open>act_seq f rest\<close>; \<open>(void)f(...); rest\<close> is
  \<open>act_ignore f rest\<close>; \<open>return true\<close> is \<open>act_true\<close>.
\<close>

type_synonym 's act = "'s \<Rightarrow> bool \<times> 's"

definition act_true :: "'s act" where
  "act_true s = (True, s)"

definition act_seq :: "'s act \<Rightarrow> 's act \<Rightarrow> 's act" where
  "act_seq f g s = (case f s of (ok, s') \<Rightarrow> if ok then g s' else (False, s'))"

definition act_ignore :: "'s act \<Rightarrow> 's act \<Rightarrow> 's act" where
  "act_ignore f g s = g (snd (f s))"

definition valid :: "('s \<Rightarrow> bool) \<Rightarrow> 's act \<Rightarrow> ('s \<Rightarrow> bool) \<Rightarrow> ('s \<Rightarrow> bool) \<Rightarrow> bool" where
  "valid P f Q E \<longleftrightarrow> (\<forall>s. P s \<longrightarrow> (if fst (f s) then Q (snd (f s)) else E (snd (f s))))"

lemma validI: "(\<And>s. P s \<Longrightarrow> if fst (f s) then Q (snd (f s)) else E (snd (f s))) \<Longrightarrow> valid P f Q E"
  by (simp add: valid_def)

lemma validD_true: "valid P f Q E \<Longrightarrow> P s \<Longrightarrow> f s = (True, s') \<Longrightarrow> Q s'"
  by (auto simp: valid_def dest: spec [of _ s])

lemma validD_false: "valid P f Q E \<Longrightarrow> P s \<Longrightarrow> f s = (False, s') \<Longrightarrow> E s'"
  by (auto simp: valid_def dest: spec [of _ s])

lemma valid_snd: "valid P f P P \<Longrightarrow> P s \<Longrightarrow> P (snd (f s))"
  by (auto simp: valid_def split: if_splits)

lemma valid_weaken:
  "valid P f Q E \<Longrightarrow> (\<And>s. P' s \<Longrightarrow> P s) \<Longrightarrow> (\<And>s. Q s \<Longrightarrow> Q' s) \<Longrightarrow> (\<And>s. E s \<Longrightarrow> E' s)
   \<Longrightarrow> valid P' f Q' E'"
  by (auto simp: valid_def split: if_splits)

lemma valid_true [valid_rules]: "(\<And>s. P s \<Longrightarrow> Q s) \<Longrightarrow> valid P act_true Q E"
  by (simp add: valid_def act_true_def)

lemma valid_seq [valid_rules]:
  "valid P f R E \<Longrightarrow> valid R g Q E \<Longrightarrow> valid P (act_seq f g) Q E"
  by (fastforce simp: valid_def act_seq_def split: prod.splits if_splits)

lemma valid_ignore [valid_rules]:
  "valid P f R R \<Longrightarrow> valid R g Q E \<Longrightarrow> valid P (act_ignore f g) Q E"
  by (auto simp: valid_def act_ignore_def split: prod.splits if_splits)

lemma act_seq_true_iff:
  "act_seq f g s = (True, s'') \<longleftrightarrow> (\<exists>s'. f s = (True, s') \<and> g s' = (True, s''))"
  by (auto simp: act_seq_def split: prod.splits if_splits)

section \<open>Components driven by calls\<close>

text \<open>
  A component offers operations \<open>step e\<close> and promises that each keeps \<open>inv\<close>. Then every
  state it passes through in a sequence of calls satisfies \<open>inv\<close>.
\<close>

locale invariant_machine =
  fixes step :: "'e \<Rightarrow> 's \<Rightarrow> 's"
    and inv :: "'s \<Rightarrow> bool"
  assumes step_inv: "inv s \<Longrightarrow> inv (step e s)"
begin

lemma run_inv: "inv s \<Longrightarrow> inv (fold step es s)"
  by (induction es arbitrary: s) (auto intro: step_inv)

lemma run_prefix_inv: "inv s \<Longrightarrow> inv (fold step (take n es) s)"
  by (rule run_inv)

end

text \<open>The same for calls that may fail to return: every call on a good state returns, in a good state. A total machine is
  such a machine.\<close>

primrec run_all :: "('e \<Rightarrow> 's \<Rightarrow> 's option) \<Rightarrow> 'e list \<Rightarrow> 's \<Rightarrow> 's option" where
  "run_all step [] s = Some s"
| "run_all step (e # es) s = (case step e s of None \<Rightarrow> None | Some s1 \<Rightarrow> run_all step es s1)"

lemma run_all_append: "run_all step (es @ fs) s = (case run_all step es s of None \<Rightarrow> None | Some s1 \<Rightarrow> run_all step fs s1)"
  by (induction es arbitrary: s) (auto split: option.splits)

locale returning_machine =
  fixes step :: "'e \<Rightarrow> 's \<Rightarrow> 's option" and good :: "'s \<Rightarrow> bool"
  assumes step_returns: "good s \<Longrightarrow> \<exists>s1. step e s = Some s1 \<and> good s1"
begin

lemma run_returns: "good s \<Longrightarrow> \<exists>s1. run_all step es s = Some s1 \<and> good s1"
proof (induction es arbitrary: s)
  case (Cons e es)
  then show ?case using step_returns [of s e] by fastforce
qed simp

end

sublocale invariant_machine \<subseteq> total: returning_machine "\<lambda>e s. Some (step e s)" inv
  by unfold_locales (simp add: step_inv)

end
