(* ===== verification/Contracts.thy ===== *)
theory Contracts
  imports Prelude
begin

text \<open>
  The data contracts shared by Service, IPC and Platform
  (\<^verbatim>\<open>include/network_service_types.h\<close>, \<^verbatim>\<open>include/network_service_contracts.h\<close>,
  \<^verbatim>\<open>service/network_operation_result.h\<close>): enums as datatypes, structs as records
  with a constant for the value their default member initialisers give. C++ \<open>int\<close> fields
  carry no arithmetic in the sources and are \<open>int\<close>; \<open>std::string\<close> is a byte string.

  The lemma of this theory is that the fingerprint by which the control plane recognises an
  unchanged lease determines the lease.
\<close>

section \<open>Enumerations and snapshots\<close>

datatype RoutePolicy = EthernetPreferred | WifiPreferred | WifiOnly | ManualMetric

datatype DnsPolicy = Overwrite

datatype WifiL2State =
  L2_Unknown | L2_Disabled | L2_Disconnected | L2_Associating | L2_Associated
| L2_Handshake | L2_Connected | L2_Failed

datatype IpState = Ip_None | Ip_Configuring | Ip_Ready

datatype DhcpClientState = Dhcp_Idle | Dhcp_Starting | Dhcp_Running | Dhcp_Failed

record InterfaceSnapshot =
  if_iface :: string
  if_exists :: bool
  if_carrier_up :: bool
  if_has_ip :: bool
  if_ip4 :: string
  if_netmask4 :: string
  if_has_default_route :: bool
  if_gateway4 :: string
  if_route_metric :: int
  if_enabled :: bool
  if_connected :: bool
  if_ip_state :: IpState
  if_wifi_l2_state :: WifiL2State
  if_ssid :: string
  if_signal_dbm :: int
  if_signal_bars :: int

definition InterfaceSnapshot_default :: InterfaceSnapshot where
  "InterfaceSnapshot_default =
    \<lparr> if_iface = [], if_exists = False, if_carrier_up = False, if_has_ip = False,
      if_ip4 = [], if_netmask4 = [], if_has_default_route = False, if_gateway4 = [],
      if_route_metric = -1, if_enabled = False, if_connected = False,
      if_ip_state = Ip_None, if_wifi_l2_state = L2_Unknown,
      if_ssid = [], if_signal_dbm = 0, if_signal_bars = 0 \<rparr>"

record NetworkSnapshot =
  ns_eth :: InterfaceSnapshot
  ns_wifi :: InterfaceSnapshot
  ns_route_policy :: RoutePolicy
  ns_dns_policy :: DnsPolicy
  ns_primary_iface :: string
  ns_dns_available :: bool
  ns_dns_managed_by_network_service :: bool
  ns_network_ready :: bool
  ns_online :: bool
  ns_dns4 :: string

definition NetworkSnapshot_default :: NetworkSnapshot where
  "NetworkSnapshot_default =
    \<lparr> ns_eth = InterfaceSnapshot_default, ns_wifi = InterfaceSnapshot_default,
      ns_route_policy = EthernetPreferred, ns_dns_policy = Overwrite,
      ns_primary_iface = [], ns_dns_available = False,
      ns_dns_managed_by_network_service = False,
      ns_network_ready = False, ns_online = False, ns_dns4 = [] \<rparr>"

section \<open>Configuration and Wi-Fi records\<close>

record EthernetConfig =
  ec_iface :: string
  ec_method :: string
  ec_ip4 :: string
  ec_netmask4 :: string
  ec_gateway4 :: string
  ec_dns4 :: string
  ec_route_metric :: int
  ec_dns_enabled :: bool

definition EthernetConfig_default :: EthernetConfig where
  "EthernetConfig_default =
    \<lparr> ec_iface = ''eth0'', ec_method = ''dhcp'', ec_ip4 = [], ec_netmask4 = [],
      ec_gateway4 = [], ec_dns4 = [], ec_route_metric = 10, ec_dns_enabled = True \<rparr>"

record WifiApRecord =
  ap_bssid :: string
  ap_frequency :: int
  ap_signal_dbm :: int
  ap_flags :: string
  ap_ssid :: string

record WifiSavedNetwork =
  sn_network_id :: int
  sn_ssid :: string
  sn_bssid :: string
  sn_flags :: string
  sn_is_current :: bool
  sn_is_disabled :: bool
  sn_is_temp_disabled :: bool
  sn_autoconnect :: bool

section \<open>DHCP lease facts\<close>

datatype DhcpLeaseEvent = Lease_None | Lease_Bound | Lease_Renew | Lease_Deconfig

record DhcpLeaseFact =
  lf_event :: DhcpLeaseEvent
  lf_iface :: string
  lf_generation :: string
  lf_ip4 :: string
  lf_netmask4 :: string
  lf_gateway4 :: string
  lf_dns4 :: string

definition DhcpLeaseFact_default :: DhcpLeaseFact where
  "DhcpLeaseFact_default =
    \<lparr> lf_event = Lease_None, lf_iface = [], lf_generation = [], lf_ip4 = [],
      lf_netmask4 = [], lf_gateway4 = [], lf_dns4 = [] \<rparr>"

definition configured :: "DhcpLeaseFact \<Rightarrow> bool" where
  "configured f \<longleftrightarrow> lf_event f = Lease_Bound \<or> lf_event f = Lease_Renew"

fun lease_event_code :: "DhcpLeaseEvent \<Rightarrow> nat" where
  "lease_event_code Lease_None = 0"
| "lease_event_code Lease_Bound = 1"
| "lease_event_code Lease_Renew = 2"
| "lease_event_code Lease_Deconfig = 3"

definition fingerprint :: "DhcpLeaseFact \<Rightarrow> string" where
  "fingerprint f =
     show_nat (lease_event_code (lf_event f)) @ [CHR 0x1F] @
     lf_iface f @ [CHR 0x1F] @
     lf_generation f @ [CHR 0x1F] @
     lf_ip4 f @ [CHR 0x1F] @
     lf_netmask4 f @ [CHR 0x1F] @
     lf_gateway4 f @ [CHR 0x1F] @
     lf_dns4 f"

section \<open>Operation results\<close>

record 'a NetworkOperationResult =
  or_status :: int
  or_value :: 'a
  or_error :: string

definition op_ok :: "'a NetworkOperationResult \<Rightarrow> bool" where
  "op_ok r \<longleftrightarrow> 200 \<le> or_status r \<and> or_status r < 300"

definition op_success :: "'a \<Rightarrow> int \<Rightarrow> 'a NetworkOperationResult" where
  "op_success v status = \<lparr> or_status = status, or_value = v, or_error = [] \<rparr>"

text \<open>A failed result carries the value-initialised \<open>T{}\<close>, passed as \<open>dflt\<close>.\<close>

definition op_failure :: "'a \<Rightarrow> int \<Rightarrow> string \<Rightarrow> 'a NetworkOperationResult" where
  "op_failure dflt status msg = \<lparr> or_status = status, or_value = dflt, or_error = msg \<rparr>"

record PingInfo =
  pi_service :: string
  pi_version :: string
  pi_mode :: string

record RoutePolicyInfo =
  rp_policy :: RoutePolicy
  rp_persistent :: bool

record WifiEnabledResult =
  we_enabled :: bool

record WifiCommandResult =
  wc_requested :: string
  wc_has_enabled :: bool
  wc_enabled :: bool

text \<open>The compatibility projection of \<^verbatim>\<open>service/wpa_events_view.h\<close>.\<close>

record WpaEventsView =
  ev_attached :: bool
  ev_connected :: bool
  ev_disconnected :: bool
  ev_dhcp_requested :: bool
  ev_has_ip :: bool
  ev_has_default_route :: bool
  ev_dns_available :: bool
  ev_ip4 :: string
  ev_gateway4 :: string
  ev_dns4 :: string
  ev_connect_events :: u32
  ev_disconnect_events :: u32
  ev_dhcp_requests :: u32
  ev_scan_started_events :: u32
  ev_scan_result_events :: u32
  ev_scan_failed_events :: u32
  ev_event_sequence :: u64
  ev_last_scan_started_sequence :: u64
  ev_last_scan_result_sequence :: u64
  ev_last_scan_failed_sequence :: u64
  ev_wifi_state :: string
  ev_failure_reason :: string
  ev_last_event :: string
  ev_last_ssid :: string
  ev_last_bssid :: string

section \<open>Fingerprints determine leases\<close>

definition sep_free :: "string \<Rightarrow> bool" where
  "sep_free s \<longleftrightarrow> CHR 0x1F \<notin> set s"

definition lease_fields_sep_free :: "DhcpLeaseFact \<Rightarrow> bool" where
  "lease_fields_sep_free f \<longleftrightarrow> list_all sep_free
     [lf_iface f, lf_generation f, lf_ip4 f, lf_netmask4 f, lf_gateway4 f, lf_dns4 f]"

lemma append_sep_cancel:
  "x \<notin> set xs \<Longrightarrow> x \<notin> set ys \<Longrightarrow> xs @ x # r = ys @ x # r' \<longleftrightarrow> xs = ys \<and> r = r'"
  by (induction xs ys rule: list_induct2') auto

lemma lease_event_code_inject [simp]: "lease_event_code a = lease_event_code b \<longleftrightarrow> a = b"
  by (cases a; cases b) auto

lemma show_nat_inject [simp]: "show_nat a = show_nat b \<longleftrightarrow> a = b"
  by (metis digits_value_show_nat)

lemma show_nat_sep_free: "CHR 0x1F \<notin> set (show_nat n)"
proof
  assume "CHR 0x1F \<in> set (show_nat n)"
  with show_nat_digits [of n] have "isdigit (CHR 0x1F)" by (auto simp: list_all_iff)
  then show False by (simp add: chr_defs)
qed

lemma fingerprint_inject:
  assumes "lease_fields_sep_free f" and "lease_fields_sep_free g"
  shows "fingerprint f = fingerprint g \<longleftrightarrow> f = g"
  using assms
  by (auto simp: fingerprint_def lease_fields_sep_free_def sep_free_def append_sep_cancel
        show_nat_sep_free intro: DhcpLeaseFact.equality)

end
