(* ===== verification/Framing.thy ===== *)
theory Framing
  imports Prelude
begin

text \<open>
  The interface of an incremental deframer. A provider offers one step \<open>chop\<close> on a receive
  buffer: it needs more input, it rejects the buffer, or it cuts one message off the front.
  The laws of \<open>framing\<close> are what makes the result independent of how the transport splits
  the stream: a chop shrinks the buffer, and a verdict never changes when more input arrives.
  The client lemmas (fuel independence, compositionality over appended input) are proved
  once in the locale; the IPC v1 codec interprets it.
\<close>

datatype ('m, 'b, 'e) cut_result = Need | Bad 'e | Cut 'm "'b list"

text \<open>Repeated cutting: the messages, the rejection if any, and the bytes left over.\<close>

fun deframe :: "('b list \<Rightarrow> ('m, 'b, 'e) cut_result) \<Rightarrow> nat \<Rightarrow> 'b list \<Rightarrow> 'm list \<times> 'e option \<times> 'b list"
where
  "deframe chop 0 b = ([], None, b)"
| "deframe chop (Suc n) b =
     (case chop b of
        Need \<Rightarrow> ([], None, b)
      | Bad e \<Rightarrow> ([], Some e, b)
      | Cut m r \<Rightarrow> (case deframe chop n r of (ms, e, r') \<Rightarrow> (m # ms, e, r')))"

locale framing =
  fixes chop :: "'b list \<Rightarrow> ('m, 'b, 'e) cut_result"
  assumes chop_shrinks: "chop b = Cut m r \<Longrightarrow> length r < length b"
    and chop_stable: "chop b = Cut m r \<Longrightarrow> chop (b @ x) = Cut m (r @ x)"
    and bad_stable: "chop b = Bad e \<Longrightarrow> chop (b @ x) = Bad e"
    and chop_Nil: "chop [] = Need"
begin

lemma deframe_fuel:
  "length b \<le> n \<Longrightarrow> length b \<le> k \<Longrightarrow> deframe chop n b = deframe chop k b"
proof (induction n arbitrary: b k)
  case 0
  then show ?case by (cases k) (simp_all add: chop_Nil)
next
  case (Suc n)
  show ?case
  proof (cases k)
    case 0
    with Suc.prems show ?thesis by (simp add: chop_Nil)
  next
    case (Suc k')
    show ?thesis
    proof (cases "chop b")
      case (Cut m r)
      then have "length r \<le> n" and "length r \<le> k'"
        using chop_shrinks [OF Cut] Suc.prems Suc by simp_all
      then have "deframe chop n r = deframe chop k' r" by (rule Suc.IH)
      with Cut Suc show ?thesis by simp
    qed (simp_all add: Suc)
  qed
qed

lemma deframe_rest:
  "deframe chop n b = (ms, None, r) \<Longrightarrow> length b \<le> n \<Longrightarrow> chop r = Need"
proof (induction n arbitrary: b ms)
  case 0
  then show ?case by (simp add: chop_Nil)
next
  case (Suc n)
  then show ?case
    by (fastforce split: cut_result.splits prod.splits dest: chop_shrinks)
qed

lemma deframe_length: "deframe chop n b = (ms, e, r) \<Longrightarrow> length r \<le> length b"
proof (induction n arbitrary: b ms)
  case 0
  then show ?case by simp
next
  case (Suc n)
  then show ?case
    by (fastforce split: cut_result.splits prod.splits dest: chop_shrinks)
qed

lemma deframe_append:
  assumes "length b \<le> n" and "length (b @ x) \<le> k"
    and "deframe chop n b = (ms, e, r)"
  shows "case e of
           Some e' \<Rightarrow> \<exists>r'. deframe chop k (b @ x) = (ms, Some e', r')
         | None \<Rightarrow> deframe chop k (b @ x) =
             (case deframe chop k (r @ x) of (ms', e'', r'') \<Rightarrow> (ms @ ms', e'', r''))"
  using assms
proof (induction n arbitrary: b ms k)
  case 0
  then show ?case by simp
next
  case (Suc n)
  show ?case
  proof (cases "chop b")
    case Need
    with Suc.prems show ?thesis by (auto split: prod.splits)
  next
    case (Bad e0)
    with Suc.prems have "e = Some e0" and "ms = []" and "b \<noteq> []" by (auto simp: chop_Nil)
    moreover from \<open>b \<noteq> []\<close> Suc.prems(2) obtain k' where "k = Suc k'" by (cases k) auto
    ultimately show ?thesis using bad_stable [OF Bad] by auto
  next
    case (Cut m r0)
    obtain ms0 where ms0: "deframe chop n r0 = (ms0, e, r)" "ms = m # ms0"
      using Suc.prems(3) Cut by (auto split: prod.splits)
    from chop_shrinks [OF Cut] have lt: "length r0 < length b" .
    then obtain k' where k': "k = Suc k'" using Suc.prems(2) by (cases k) auto
    have "length r0 \<le> n" and len: "length (r0 @ x) \<le> k'" using lt Suc.prems k' by auto
    note ih = Suc.IH [OF this ms0(1)]
    have unfold: "deframe chop k (b @ x) =
        (case deframe chop k' (r0 @ x) of (ms, e, r') \<Rightarrow> (m # ms, e, r'))"
      using chop_stable [OF Cut] by (simp add: k')
    show ?thesis
    proof (cases e)
      case None
      have "length r \<le> length r0"
        using deframe_length [OF ms0(1)] by simp
      then have "deframe chop k' (r @ x) = deframe chop k (r @ x)"
        using len k' by (intro deframe_fuel) auto
      with ih unfold None ms0(2) show ?thesis by (auto split: prod.splits)
    next
      case (Some e')
      with ih unfold ms0(2) show ?thesis by auto
    qed
  qed
qed

end

end
