(* ===== verification/Ipc_Codec.thy ===== *)
theory Ipc_Codec
  imports Framing
begin

unbundle bit_operations_syntax

text \<open>
  The IPC v1 frame codec (\<^verbatim>\<open>src/ipc/network_ipc_v1_codec.cpp\<close>): the 12-byte header,
  \<open>encode_frame\<close>, \<open>decode_header\<close> and the incremental \<open>FrameDecoder\<close>.
  Wire bytes are \<open>u8\<close>, a \<open>std::string\<close> payload is a \<open>string\<close>; \<open>std::size_t\<close> is \<open>nat\<close>
  (no size here exceeds what memory holds, and no subtraction underflows).
  The theorems: encoding and decoding agree, the decoder's result does not depend on how
  the byte stream is split into reads, it accepts no malformed frame, keeps a bounded
  buffer and latches its first error.
\<close>

section \<open>Constants and types\<close>

definition kHeaderSize :: nat where "kHeaderSize = 12"
definition kMaxPayloadBytes :: nat where "kMaxPayloadBytes = 64 * 1024"
definition kProtocolVersion :: u8 where "kProtocolVersion = 1"
definition kMagic :: "u8 list" where "kMagic = [0x4E, 0x53, 0x50, 0x31]"

datatype MessageType = Msg_Hello | Msg_Ready | Msg_Request | Msg_Response | Msg_Event | Msg_Error

fun msg_code :: "MessageType \<Rightarrow> u8" where
  "msg_code Msg_Hello = 1"
| "msg_code Msg_Ready = 2"
| "msg_code Msg_Request = 3"
| "msg_code Msg_Response = 4"
| "msg_code Msg_Event = 5"
| "msg_code Msg_Error = 6"

text \<open>\<open>static_cast<MessageType>\<close>; only reached for codes that \<open>is_valid_message_type\<close> accepts.\<close>

definition msg_of_code :: "u8 \<Rightarrow> MessageType" where
  "msg_of_code v =
     (if v = 1 then Msg_Hello else if v = 2 then Msg_Ready else if v = 3 then Msg_Request
      else if v = 4 then Msg_Response else if v = 5 then Msg_Event else Msg_Error)"

datatype CodecError =
  CE_None | CE_InvalidMagic | CE_UnsupportedVersion | CE_InvalidMessageType
| CE_NonZeroFlags | CE_PayloadTooLarge

datatype DecodeStatus = DS_NeedMore | DS_FrameReady | DS_Error

record FrameHeader =
  fh_version :: u8
  fh_type :: MessageType
  fh_flags :: u16
  fh_payload_length :: u32

record Frame =
  fr_header :: FrameHeader
  fr_payload :: string

definition byte_of_char :: "char \<Rightarrow> u8" where
  "byte_of_char c = of_nat (ord c)"

definition char_of_byte :: "u8 \<Rightarrow> char" where
  "char_of_byte b = char_of (unat b)"

section \<open>Big-endian fields\<close>

definition read_be16 :: "u8 list \<Rightarrow> u16" where
  "read_be16 p = push_bit 8 (ucast (p ! 0)) OR ucast (p ! 1)"

definition read_be32 :: "u8 list \<Rightarrow> u32" where
  "read_be32 p = push_bit 24 (ucast (p ! 0)) OR push_bit 16 (ucast (p ! 1))
     OR push_bit 8 (ucast (p ! 2)) OR ucast (p ! 3)"

definition write_be16 :: "u16 \<Rightarrow> u8 list" where
  "write_be16 v = [ucast (drop_bit 8 v AND 0xff), ucast (v AND 0xff)]"

definition write_be32 :: "u32 \<Rightarrow> u8 list" where
  "write_be32 v = [ucast (drop_bit 24 v AND 0xff), ucast (drop_bit 16 v AND 0xff),
     ucast (drop_bit 8 v AND 0xff), ucast (v AND 0xff)]"

section \<open>Codec operations\<close>

fun codec_error_string :: "CodecError \<Rightarrow> string" where
  "codec_error_string CE_None = ''none''"
| "codec_error_string CE_InvalidMagic = ''invalid magic''"
| "codec_error_string CE_UnsupportedVersion = ''unsupported version''"
| "codec_error_string CE_InvalidMessageType = ''invalid message type''"
| "codec_error_string CE_NonZeroFlags = ''non-zero reserved flags''"
| "codec_error_string CE_PayloadTooLarge = ''payload too large''"

definition is_valid_message_type :: "u8 \<Rightarrow> bool" where
  "is_valid_message_type v \<longleftrightarrow> msg_code Msg_Hello \<le> v \<and> v \<le> msg_code Msg_Error"

text \<open>\<open>Inr h\<close>: returned true with header \<open>h\<close>; \<open>Inl e\<close>: returned false with \<open>error = e\<close>.\<close>

definition decode_header :: "u8 list \<Rightarrow> CodecError + FrameHeader" where
  "decode_header data =
     (if length data < kHeaderSize then Inl CE_None
      else if take 4 data \<noteq> kMagic then Inl CE_InvalidMagic
      else if data ! 4 \<noteq> kProtocolVersion then Inl CE_UnsupportedVersion
      else if \<not> is_valid_message_type (data ! 5) then Inl CE_InvalidMessageType
      else let flags = read_be16 (drop 6 data) in
        if flags \<noteq> 0 then Inl CE_NonZeroFlags
        else let payload_length = read_be32 (drop 8 data) in
          if unat payload_length > kMaxPayloadBytes then Inl CE_PayloadTooLarge
          else Inr \<lparr> fh_version = data ! 4, fh_type = msg_of_code (data ! 5),
                     fh_flags = flags, fh_payload_length = payload_length \<rparr>)"

definition encode_frame :: "MessageType \<Rightarrow> string \<Rightarrow> CodecError \<times> u8 list" where
  "encode_frame type payload =
     (if \<not> is_valid_message_type (msg_code type) then (CE_InvalidMessageType, [])
      else if length payload > kMaxPayloadBytes then (CE_PayloadTooLarge, [])
      else (CE_None, kMagic @ [kProtocolVersion, msg_code type] @ write_be16 0
              @ write_be32 (of_nat (length payload)) @ map byte_of_char payload))"

section \<open>FrameDecoder\<close>

record FrameDecoder =
  fd_buffer :: "u8 list"
  fd_frames :: "Frame list"
  fd_error :: CodecError

definition FrameDecoder_default :: FrameDecoder where
  "FrameDecoder_default = \<lparr> fd_buffer = [], fd_frames = [], fd_error = CE_None \<rparr>"

definition ready_status :: "FrameDecoder \<Rightarrow> DecodeStatus" where
  "ready_status d = (if fd_frames d = [] then DS_NeedMore else DS_FrameReady)"

function parse_available :: "FrameDecoder \<Rightarrow> DecodeStatus \<times> FrameDecoder" where
  "parse_available d =
     (if length (fd_buffer d) < kHeaderSize then (ready_status d, d)
      else case decode_header (fd_buffer d) of
        Inl parse_error \<Rightarrow>
          (if parse_error = CE_None then (ready_status d, d)
           else (DS_Error, d\<lparr>fd_error := parse_error\<rparr>))
      | Inr header \<Rightarrow>
          (let frame_size = kHeaderSize + unat (fh_payload_length header) in
           if length (fd_buffer d) < frame_size then (ready_status d, d)
           else parse_available
             (d\<lparr>fd_frames := fd_frames d @
                  [\<lparr>fr_header = header,
                    fr_payload = map char_of_byte
                      (take (unat (fh_payload_length header)) (drop kHeaderSize (fd_buffer d)))\<rparr>],
                fd_buffer := drop frame_size (fd_buffer d)\<rparr>)))"
  by pat_completeness auto
termination
  by (relation "measure (\<lambda>d. length (fd_buffer d))") (auto simp: kHeaderSize_def)

declare parse_available.simps [simp del]

text \<open>\<open>feed(const uint8_t *data, size_t size)\<close>; \<open>None\<close> is a null pointer.\<close>

definition feed_ptr :: "u8 list option \<Rightarrow> nat \<Rightarrow> FrameDecoder \<Rightarrow> DecodeStatus \<times> FrameDecoder" where
  "feed_ptr data n d =
     (if fd_error d \<noteq> CE_None then (DS_Error, d)
      else if n = 0 then parse_available d
      else case data of
        None \<Rightarrow> (DS_Error, d\<lparr>fd_error := CE_InvalidMagic\<rparr>)
      | Some bytes \<Rightarrow> parse_available (d\<lparr>fd_buffer := fd_buffer d @ take n bytes\<rparr>))"

definition feed :: "u8 list \<Rightarrow> FrameDecoder \<Rightarrow> DecodeStatus \<times> FrameDecoder" where
  "feed data d = feed_ptr (Some data) (length data) d"

definition has_frame :: "FrameDecoder \<Rightarrow> bool" where
  "has_frame d \<longleftrightarrow> fd_frames d \<noteq> []"

text \<open>\<open>None\<close>: throws \<open>std::logic_error\<close>.\<close>

definition take_frame :: "FrameDecoder \<Rightarrow> (Frame \<times> FrameDecoder) option" where
  "take_frame d = (case fd_frames d of [] \<Rightarrow> None | f # fs \<Rightarrow> Some (f, d\<lparr>fd_frames := fs\<rparr>))"

definition decoder_reset :: "FrameDecoder \<Rightarrow> FrameDecoder" where
  "decoder_reset d = d\<lparr>fd_buffer := [], fd_frames := [], fd_error := CE_None\<rparr>"

section \<open>Byte-level lemmas\<close>

lemmas codec_consts = kHeaderSize_def kMaxPayloadBytes_def kProtocolVersion_def kMagic_def

lemma char_of_byte_of_char [simp]: "char_of_byte (byte_of_char c) = c"
  by (simp add: char_of_byte_def byte_of_char_def unat_of_nat)

lemma byte_of_char_of_byte [simp]: "byte_of_char (char_of_byte b) = b"
proof -
  have "unat b < 256" using unsigned_less [of b] by simp
  then show ?thesis by (simp add: char_of_byte_def byte_of_char_def)
qed

lemma map_char_of_byte_of_char [simp]: "map char_of_byte (map byte_of_char s) = s"
  by (simp add: comp_def)

lemma length_write_be [simp]: "length (write_be16 v) = 2" "length (write_be32 w) = 4"
  by (simp_all add: write_be16_def write_be32_def)

lemma and_ff: "(w :: 'a::len word) AND 0xff = take_bit 8 w"
  by (simp add: take_bit_eq_mask mask_eq_exp_minus_1)

lemma read_write_be16: "read_be16 (write_be16 v @ x) = v"
proof (rule bit_word_eqI)
  fix n assume "n < LENGTH(16)"
  then show "bit (read_be16 (write_be16 v @ x)) n = bit v n"
    by (cases "n < 8") (auto simp: read_be16_def write_be16_def bit_or_iff bit_push_bit_iff
      bit_ucast_iff and_ff bit_take_bit_iff bit_drop_bit_eq)
qed

lemma read_write_be32: "read_be32 (write_be32 v @ x) = v"
proof (rule bit_word_eqI)
  fix n assume "n < LENGTH(32)"
  then consider "n < 8" | "8 \<le> n" "n < 16" | "16 \<le> n" "n < 24" | "24 \<le> n" "n < 32" by force
  then show "bit (read_be32 (write_be32 v @ x)) n = bit v n"
    by cases (auto simp: read_be32_def write_be32_def bit_or_iff bit_push_bit_iff
      bit_ucast_iff and_ff bit_take_bit_iff bit_drop_bit_eq)
qed

lemma msg_of_code_code [simp]: "msg_of_code (msg_code t) = t"
  by (cases t) (simp_all add: msg_of_code_def)

lemma msg_code_valid [simp]: "is_valid_message_type (msg_code t)"
  by (cases t) (simp_all add: is_valid_message_type_def)

section \<open>The header round trip\<close>

definition mk_header :: "MessageType \<Rightarrow> nat \<Rightarrow> FrameHeader" where
  "mk_header t n = \<lparr> fh_version = kProtocolVersion, fh_type = t, fh_flags = 0,
     fh_payload_length = of_nat n \<rparr>"

definition mk_frame :: "MessageType \<Rightarrow> string \<Rightarrow> Frame" where
  "mk_frame t p = \<lparr> fr_header = mk_header t (length p), fr_payload = p \<rparr>"

definition header_bytes :: "MessageType \<Rightarrow> nat \<Rightarrow> u8 list" where
  "header_bytes t n = kMagic @ [kProtocolVersion, msg_code t] @ write_be16 0 @ write_be32 (of_nat n)"

lemma length_header_bytes [simp]: "length (header_bytes t n) = kHeaderSize"
  by (simp add: header_bytes_def codec_consts)

lemma encode_frame_eq:
  "encode_frame t p = (if length p > kMaxPayloadBytes then (CE_PayloadTooLarge, [])
     else (CE_None, header_bytes t (length p) @ map byte_of_char p))"
  by (simp add: encode_frame_def header_bytes_def)

lemma encode_frame_nonempty: "length p \<le> kMaxPayloadBytes \<Longrightarrow> snd (encode_frame t p) \<noteq> []"
  by (auto simp: encode_frame_eq header_bytes_def kMagic_def)

lemma unat_payload_length:
  "n \<le> kMaxPayloadBytes \<Longrightarrow> unat (of_nat n :: u32) = n"
  by (simp add: kMaxPayloadBytes_def unat_of_nat)

lemma decode_header_bytes:
  assumes "n \<le> kMaxPayloadBytes"
  shows "decode_header (header_bytes t n @ x) = Inr (mk_header t n)"
proof -
  have drops: "drop 6 (header_bytes t n @ x) = write_be16 0 @ write_be32 (of_nat n) @ x"
    "drop 8 (header_bytes t n @ x) = write_be32 (of_nat n) @ x"
    by (simp_all add: header_bytes_def kMagic_def write_be16_def)
  have idx: "(header_bytes t n @ x) ! 4 = kProtocolVersion"
    "(header_bytes t n @ x) ! 5 = msg_code t" "take 4 (header_bytes t n @ x) = kMagic"
    by (simp_all add: header_bytes_def kMagic_def)
  show ?thesis
    using assms
    by (simp add: decode_header_def Let_def drops idx read_write_be16 read_write_be32
        unat_payload_length mk_header_def del: drop_append take_append)
qed

section \<open>The decoder as a deframer\<close>

text \<open>One iteration of the loop of \<open>parse_available\<close>.\<close>

definition codec_chop :: "u8 list \<Rightarrow> (Frame, u8, CodecError) cut_result" where
  "codec_chop b =
     (if length b < kHeaderSize then Need
      else case decode_header b of
        Inl e \<Rightarrow> (if e = CE_None then Need else Bad e)
      | Inr h \<Rightarrow>
          (let n = unat (fh_payload_length h) in
           if length b < kHeaderSize + n then Need
           else Cut \<lparr>fr_header = h, fr_payload = map char_of_byte (take n (drop kHeaderSize b))\<rparr>
                  (drop (kHeaderSize + n) b)))"

lemma decode_header_append:
  assumes "kHeaderSize \<le> length b"
  shows "decode_header (b @ x) = decode_header b"
proof -
  have "read_be16 (drop 6 (b @ x)) = read_be16 (drop 6 b)"
    and "read_be32 (drop 8 (b @ x)) = read_be32 (drop 8 b)"
    and "take 4 (b @ x) = take 4 b" and "(b @ x) ! 4 = b ! 4" and "(b @ x) ! 5 = b ! 5"
    using assms by (auto simp: read_be16_def read_be32_def nth_append kHeaderSize_def)
  with assms show ?thesis
    by (simp add: decode_header_def Let_def del: drop_append take_append)
qed

lemma codec_chop_cut: "codec_chop b = Cut m r \<Longrightarrow> codec_chop (b @ x) = Cut m (r @ x)"
  by (auto simp: codec_chop_def decode_header_append Let_def split: if_splits sum.splits)

interpretation codec: framing codec_chop
proof unfold_locales
  fix b m r assume "codec_chop b = Cut m r"
  then show "length r < length b"
    by (auto simp: codec_chop_def Let_def kHeaderSize_def split: if_splits sum.splits)
next
  fix b m r x assume "codec_chop b = Cut m r"
  then show "codec_chop (b @ x) = Cut m (r @ x)" by (rule codec_chop_cut)
next
  fix b e x assume "codec_chop b = Bad e"
  then show "codec_chop (b @ x) = Bad e"
    by (auto simp: codec_chop_def decode_header_append Let_def split: if_splits sum.split_asm)
next
  show "codec_chop [] = Need" by (simp add: codec_chop_def kHeaderSize_def)
qed

definition parsed :: "FrameDecoder \<Rightarrow> Frame list \<times> CodecError option \<times> u8 list \<Rightarrow> DecodeStatus \<times> FrameDecoder"
where
  "parsed d r = (case r of (fs, e, rest) \<Rightarrow>
     let d' = d\<lparr>fd_frames := fd_frames d @ fs, fd_buffer := rest\<rparr> in
     case e of None \<Rightarrow> (ready_status d', d') | Some e' \<Rightarrow> (DS_Error, d'\<lparr>fd_error := e'\<rparr>))"

lemma parse_available_deframe_fuel:
  "length (fd_buffer d) \<le> n \<Longrightarrow> parse_available d = parsed d (deframe codec_chop n (fd_buffer d))"
proof (induction n arbitrary: d)
  case 0
  then show ?case
    by (subst parse_available.simps) (simp add: kHeaderSize_def parsed_def ready_status_def)
next
  case (Suc n)
  show ?case
  proof (cases "codec_chop (fd_buffer d)")
    case Need
    then show ?thesis
      by (subst parse_available.simps)
        (auto simp: codec_chop_def parsed_def Let_def split: if_splits sum.splits)
  next
    case (Bad e)
    then show ?thesis
      by (subst parse_available.simps)
        (auto simp: codec_chop_def parsed_def Let_def split: if_splits sum.splits)
  next
    case (Cut m r)
    let ?d' = "d\<lparr>fd_frames := fd_frames d @ [m], fd_buffer := r\<rparr>"
    have "parse_available d = parse_available ?d'"
      using Cut by (subst parse_available.simps)
        (auto simp: codec_chop_def Let_def split: if_splits sum.splits)
    also have "\<dots> = parsed ?d' (deframe codec_chop n r)"
      using Suc.prems codec.chop_shrinks [OF Cut] by (subst Suc.IH) auto
    finally show ?thesis
      using Cut by (auto simp: parsed_def Let_def ready_status_def split: prod.splits option.splits)
  qed
qed

lemma parse_available_deframe:
  "parse_available d = parsed d (deframe codec_chop (length (fd_buffer d)) (fd_buffer d))"
  by (rule parse_available_deframe_fuel) simp

lemma feed_eq:
  "feed data d = (if fd_error d \<noteq> CE_None then (DS_Error, d)
     else parse_available (d\<lparr>fd_buffer := fd_buffer d @ data\<rparr>))"
  by (simp add: feed_def feed_ptr_def)

section \<open>What the decoder keeps\<close>

definition frame_wf :: "Frame \<Rightarrow> bool" where
  "frame_wf f \<longleftrightarrow> fh_version (fr_header f) = kProtocolVersion \<and> fh_flags (fr_header f) = 0
     \<and> unat (fh_payload_length (fr_header f)) = length (fr_payload f)
     \<and> length (fr_payload f) \<le> kMaxPayloadBytes"

definition decoder_wf :: "FrameDecoder \<Rightarrow> bool" where
  "decoder_wf d \<longleftrightarrow> list_all frame_wf (fd_frames d)
     \<and> (fd_error d = CE_None \<longrightarrow> length (fd_buffer d) < kHeaderSize + kMaxPayloadBytes)"

datatype decoder_call = Call_feed "u8 list option" nat | Call_take_frame | Call_reset

definition decoder_step :: "decoder_call \<Rightarrow> FrameDecoder \<Rightarrow> FrameDecoder" where
  "decoder_step c d = (case c of
     Call_feed data n \<Rightarrow> snd (feed_ptr data n d)
   | Call_take_frame \<Rightarrow> (case take_frame d of None \<Rightarrow> d | Some (_, d') \<Rightarrow> d')
   | Call_reset \<Rightarrow> decoder_reset d)"

lemma decode_header_Inr:
  "decode_header b = Inr h \<Longrightarrow> fh_version h = kProtocolVersion \<and> fh_flags h = 0
     \<and> unat (fh_payload_length h) \<le> kMaxPayloadBytes"
  by (auto simp: decode_header_def Let_def split: if_splits)

lemma codec_chop_wf: "codec_chop b = Cut m r \<Longrightarrow> frame_wf m"
  by (auto simp: codec_chop_def Let_def frame_wf_def dest: decode_header_Inr
      split: if_splits sum.splits)

lemma codec_chop_Need: "codec_chop b = Need \<Longrightarrow> length b < kHeaderSize + kMaxPayloadBytes"
  by (auto simp: codec_chop_def Let_def decode_header_def codec_consts
      split: if_splits sum.splits)

lemma deframe_codec_wf: "deframe codec_chop n b = (fs, e, r) \<Longrightarrow> list_all frame_wf fs"
  by (induction n arbitrary: b fs e r)
    (auto split: cut_result.splits prod.splits dest: codec_chop_wf)

lemma deframe_codec_error: "deframe codec_chop n b = (fs, Some e, r) \<Longrightarrow> e \<noteq> CE_None"
  by (induction n arbitrary: b fs e r)
    (fastforce simp: codec_chop_def Let_def split: cut_result.splits prod.splits if_splits sum.splits)+

lemma parse_available_wf:
  assumes "list_all frame_wf (fd_frames d)"
  shows "decoder_wf (snd (parse_available d))"
proof -
  obtain fs e r where r: "deframe codec_chop (length (fd_buffer d)) (fd_buffer d) = (fs, e, r)"
    by (cases "deframe codec_chop (length (fd_buffer d)) (fd_buffer d)") auto
  show ?thesis
  proof (cases e)
    case None
    with r have "codec_chop r = Need" by (simp add: codec.deframe_rest)
    then show ?thesis
      using assms r None deframe_codec_wf [OF r] codec_chop_Need
      by (simp add: parse_available_deframe parsed_def decoder_wf_def Let_def)
  next
    case (Some e')
    then show ?thesis
      using assms r deframe_codec_wf [OF r] deframe_codec_error r
      by (auto simp: parse_available_deframe parsed_def decoder_wf_def Let_def)
  qed
qed

interpretation decoder: invariant_machine decoder_step decoder_wf
proof unfold_locales
  fix d e assume wf: "decoder_wf d"
  show "decoder_wf (decoder_step e d)"
  proof (cases e)
    case (Call_feed data n)
    with wf show ?thesis
      by (auto simp: decoder_step_def feed_ptr_def decoder_wf_def [of d] split: option.splits
          intro!: parse_available_wf) (auto simp: decoder_wf_def)
  next
    case Call_take_frame
    with wf show ?thesis
      by (auto simp: decoder_step_def take_frame_def decoder_wf_def split: list.splits)
  next
    case Call_reset
    then show ?thesis
      by (simp add: decoder_step_def decoder_reset_def decoder_wf_def kHeaderSize_def)
  qed
qed

section \<open>Split independence\<close>

definition feed_all :: "u8 list list \<Rightarrow> FrameDecoder \<Rightarrow> FrameDecoder" where
  "feed_all cs d = fold (\<lambda>c d. snd (feed c d)) cs d"

definition same_result :: "FrameDecoder \<Rightarrow> FrameDecoder \<Rightarrow> bool" where
  "same_result a b \<longleftrightarrow> fd_frames a = fd_frames b \<and> fd_error a = fd_error b
     \<and> (fd_error b = CE_None \<longrightarrow> a = b)"

lemma snd_parsed:
  "snd (parsed d (fs, e, r)) = d\<lparr>fd_frames := fd_frames d @ fs, fd_buffer := r,
     fd_error := (case e of None \<Rightarrow> fd_error d | Some e' \<Rightarrow> e')\<rparr>"
  by (cases e) (simp_all add: parsed_def Let_def)

lemma feed_feed: "same_result (snd (feed b (snd (feed a d)))) (snd (feed (a @ b) d))"
proof (cases "fd_error d = CE_None")
  case False
  then show ?thesis by (simp add: feed_eq same_result_def)
next
  case True
  let ?b = "fd_buffer d @ a"
  obtain fs e r where r: "deframe codec_chop (length ?b) ?b = (fs, e, r)"
    by (cases "deframe codec_chop (length ?b) ?b") auto
  let ?k = "length (?b @ b)"
  note app = codec.deframe_append [OF order.refl order.refl r, of b]
  show ?thesis
  proof (cases e)
    case None
    have "length r \<le> length ?b" by (rule codec.deframe_length [OF r])
    then have "deframe codec_chop (length (r @ b)) (r @ b) = deframe codec_chop ?k (r @ b)"
      by (intro codec.deframe_fuel) auto
    then show ?thesis
      using True r None app
      by (cases "deframe codec_chop ?k (r @ b)")
        (auto simp: feed_eq parse_available_deframe snd_parsed same_result_def split: option.splits)
  next
    case (Some e')
    with deframe_codec_error r have "e' \<noteq> CE_None" by blast
    then show ?thesis
      using True r Some app
      by (auto simp: feed_eq parse_available_deframe snd_parsed same_result_def)
  qed
qed

lemma same_result_feed: "same_result a b \<Longrightarrow> same_result (snd (feed c a)) (snd (feed c b))"
  by (auto simp: same_result_def feed_eq)

lemma same_result_trans: "same_result a b \<Longrightarrow> same_result b c \<Longrightarrow> same_result a c"
  by (auto simp: same_result_def)

lemma feed_all_concat:
  "same_result (feed_all cs (snd (feed c d))) (snd (feed (c @ concat cs) d))"
proof (induction cs arbitrary: c)
  case Nil
  then show ?case by (simp add: feed_all_def same_result_def)
next
  case (Cons x xs)
  have "same_result (feed_all xs (snd (feed x (snd (feed c d))))) (feed_all xs (snd (feed (c @ x) d)))"
    using feed_feed [of x c d] unfolding feed_all_def
    by (induction xs arbitrary: rule: rev_induct) (auto intro: same_result_feed)
  with Cons.IH [of "c @ x"] show ?case
    by (auto simp: feed_all_def intro: same_result_trans)
qed

lemma feed_all_default:
  "same_result (feed_all cs FrameDecoder_default) (snd (feed (concat cs) FrameDecoder_default))"
proof -
  have "snd (feed [] FrameDecoder_default) = FrameDecoder_default"
    by (simp add: feed_eq FrameDecoder_default_def parse_available.simps kHeaderSize_def)
  with feed_all_concat [of cs "[]" FrameDecoder_default] show ?thesis by simp
qed

section \<open>Round trip of encoded streams\<close>

definition encode_all :: "(MessageType \<times> string) list \<Rightarrow> u8 list" where
  "encode_all ms = concat (map (\<lambda>(t, p). snd (encode_frame t p)) ms)"

lemma codec_chop_encoded:
  "length p \<le> kMaxPayloadBytes \<Longrightarrow> codec_chop (snd (encode_frame t p) @ x) = Cut (mk_frame t p) x"
  by (simp add: codec_chop_def encode_frame_eq decode_header_bytes mk_header_def
      unat_payload_length Let_def mk_frame_def comp_def)

lemma deframe_encoded:
  "list_all (\<lambda>(t, p). length p \<le> kMaxPayloadBytes) ms \<Longrightarrow> length (encode_all ms @ x) \<le> n \<Longrightarrow>
   deframe codec_chop n (encode_all ms @ x) =
     (case deframe codec_chop n x of (fs, e, r) \<Rightarrow> (map (case_prod mk_frame) ms @ fs, e, r))"
proof (induction ms arbitrary: n)
  case Nil
  then show ?case by (simp add: encode_all_def split: prod.splits)
next
  case (Cons m ms)
  obtain t p where m: "m = (t, p)" by (cases m)
  with Cons.prems have le: "length p \<le> kMaxPayloadBytes" by simp
  have enc: "encode_all (m # ms) @ x = snd (encode_frame t p) @ encode_all ms @ x"
    by (simp add: encode_all_def m)
  have "0 < length (snd (encode_frame t p))" using encode_frame_nonempty [OF le] by simp
  with Cons.prems(2) have "length (encode_all ms @ x) < n"
    unfolding enc by (simp del: length_greater_0_conv)
  then obtain n' where n': "n = Suc n'" and len: "length (encode_all ms @ x) \<le> n'"
    by (cases n) auto
  have fuel: "deframe codec_chop n' x = deframe codec_chop n x"
    using len n' by (intro codec.deframe_fuel) auto
  have "deframe codec_chop n (encode_all (m # ms) @ x) =
      (case deframe codec_chop n' (encode_all ms @ x) of (fs, e, r) \<Rightarrow> (mk_frame t p # fs, e, r))"
    unfolding n' enc by (simp add: codec_chop_encoded [OF le])
  also have "deframe codec_chop n' (encode_all ms @ x) =
      (case deframe codec_chop n x of (fs, e, r) \<Rightarrow> (map (case_prod mk_frame) ms @ fs, e, r))"
    using Cons.IH [OF _ len] Cons.prems(1) fuel by simp
  finally show ?case by (simp add: m split: prod.splits)
qed

lemma feed_encoded:
  assumes "list_all (\<lambda>(t, p). length p \<le> kMaxPayloadBytes) ms"
  shows "snd (feed (encode_all ms @ x) FrameDecoder_default) =
    (case deframe codec_chop (length x) x of (fs, e, r) \<Rightarrow>
       \<lparr> fd_buffer = r, fd_frames = map (case_prod mk_frame) ms @ fs,
         fd_error = (case e of None \<Rightarrow> CE_None | Some e' \<Rightarrow> e') \<rparr>)"
proof -
  have "deframe codec_chop (length (encode_all ms @ x)) x = deframe codec_chop (length x) x"
    by (intro codec.deframe_fuel) auto
  then show ?thesis
    using deframe_encoded [OF assms order.refl, of x]
    by (auto simp: feed_eq FrameDecoder_default_def parse_available_deframe snd_parsed
        split: prod.splits option.splits)
qed

section \<open>Exactly the encoder's headers are accepted\<close>

lemma msg_of_code_valid: "is_valid_message_type v \<Longrightarrow> msg_code (msg_of_code v) = v"
proof -
  assume "is_valid_message_type v"
  then have "1 \<le> unat v" and "unat v \<le> 6"
    by (simp_all add: is_valid_message_type_def word_le_nat_alt)
  then have "unat v \<in> {1, 2, 3, 4, 5, 6}" by auto
  then have "v \<in> {1, 2, 3, 4, 5, 6}"
    by (auto simp: word_unat_eq_iff)
  then show ?thesis by (auto simp: msg_of_code_def)
qed

lemma write_read_be16: "write_be16 (read_be16 (a # b # x)) = [a, b]"
  by (auto simp: read_be16_def write_be16_def and_ff bit_eq_iff bit_simps dest: bit_imp_le_length)

lemma write_read_be32: "write_be32 (read_be32 (a # b # c # d # x)) = [a, b, c, d]"
  by (auto simp: read_be32_def write_be32_def and_ff bit_eq_iff bit_simps dest: bit_imp_le_length)

lemma header_split:
  assumes "kHeaderSize \<le> length b"
  obtains v t f0 f1 l0 l1 l2 l3 x where
    "b = take 4 b @ v # t # f0 # f1 # l0 # l1 # l2 # l3 # x"
    and "drop 6 b = f0 # f1 # l0 # l1 # l2 # l3 # x" and "drop 8 b = l0 # l1 # l2 # l3 # x"
    and "b ! 4 = v" and "b ! 5 = t"
proof -
  obtain b0 b1 b2 b3 v t f0 f1 l0 l1 l2 l3 x where
    "b = b0 # b1 # b2 # b3 # v # t # f0 # f1 # l0 # l1 # l2 # l3 # x"
    using assms by (auto simp: kHeaderSize_def numeral_eq_Suc Suc_le_length_iff)
  then show thesis by (intro that [of v t f0 f1 l0 l1 l2 l3 x]) simp_all
qed

lemma decode_header_complete:
  assumes "decode_header b = Inr h"
  shows "\<exists>t n x. n \<le> kMaxPayloadBytes \<and> b = header_bytes t n @ x \<and> h = mk_header t n"
proof -
  have len: "kHeaderSize \<le> length b" and magic: "take 4 b = kMagic"
    and v: "b ! 4 = kProtocolVersion" and t: "is_valid_message_type (b ! 5)"
    and f: "read_be16 (drop 6 b) = 0" and n: "unat (read_be32 (drop 8 b)) \<le> kMaxPayloadBytes"
    and h: "h = \<lparr> fh_version = b ! 4, fh_type = msg_of_code (b ! 5), fh_flags = 0,
                  fh_payload_length = read_be32 (drop 8 b) \<rparr>"
    using assms by (auto simp: decode_header_def Let_def split: if_splits)
  from len obtain v' t' f0 f1 l0 l1 l2 l3 x where
    b: "b = take 4 b @ v' # t' # f0 # f1 # l0 # l1 # l2 # l3 # x"
    and d6: "drop 6 b = f0 # f1 # l0 # l1 # l2 # l3 # x" and d8: "drop 8 b = l0 # l1 # l2 # l3 # x"
    and b4: "b ! 4 = v'" and b5: "b ! 5 = t'"
    by (rule header_split)
  have "write_be16 0 = [f0, f1]" by (metis f d6 write_read_be16)
  then have "header_bytes (msg_of_code (b ! 5)) (unat (read_be32 (drop 8 b))) @ x =
      take 4 b @ v' # t' # f0 # f1 # l0 # l1 # l2 # l3 # x"
    using v t by (simp add: header_bytes_def magic b4 b5 msg_of_code_valid d8 write_read_be32)
  then have "b = header_bytes (msg_of_code (b ! 5)) (unat (read_be32 (drop 8 b))) @ x"
    using b by metis
  moreover have "h = mk_header (msg_of_code (b ! 5)) (unat (read_be32 (drop 8 b)))"
    using h v by (simp add: mk_header_def)
  ultimately show ?thesis using n by blast
qed

section \<open>Properties\<close>

text \<open>C2: any stream of encoded frames, however the transport splits it into reads, is
  decoded to exactly those frames in order, with nothing left over and no error.\<close>
theorem codec_stream_roundtrip:
  assumes "list_all (\<lambda>(t, p). length p \<le> kMaxPayloadBytes) ms" and "concat cs = encode_all ms"
  shows "feed_all cs FrameDecoder_default =
    \<lparr> fd_buffer = [], fd_frames = map (case_prod mk_frame) ms, fd_error = CE_None \<rparr>"
  using feed_all_default [of cs] feed_encoded [OF assms(1), of "[]"] assms(2)
  by (simp add: same_result_def)

theorem codec_stream_roundtrip_witness:
  "feed_all [[0x4E, 0x53, 0x50], [0x31, 1, 3, 0, 0, 0, 0, 0], [1, 65]] FrameDecoder_default =
    \<lparr> fd_buffer = [], fd_frames = [mk_frame Msg_Request ''A''], fd_error = CE_None \<rparr>"
proof -
  have "concat [[0x4E, 0x53, 0x50], [0x31, 1, 3, 0, 0, 0, 0, 0], [1 :: u8, 65]] =
      encode_all [(Msg_Request, ''A'')]"
    by (simp add: encode_all_def encode_frame_eq header_bytes_def codec_consts write_be16_def
        write_be32_def byte_of_char_def chr_defs)
  then show ?thesis
    using codec_stream_roundtrip [of "[(Msg_Request, ''A'')]"] by (simp add: kMaxPayloadBytes_def)
qed

text \<open>C3: feeding chunks one after the other gives the frames, the error and, while there
  is no error, the very decoder state that one call with all the bytes gives.\<close>
theorem decoder_split_independent:
  "same_result (feed_all cs (snd (feed c d))) (snd (feed (c @ concat cs) d))"
  by (rule feed_all_concat)

text \<open>In every sequence of \<open>feed\<close>, \<open>take_frame\<close> and \<open>reset\<close> calls, on any bytes, every
  queued frame is well-formed (version 1, no flags, length field equal to the payload's
  length and at most 64 KiB) and the undecoded remainder stays below one maximal frame.\<close>
theorem decoder_calls_wf:
  "decoder_wf (fold decoder_step calls FrameDecoder_default)"
  by (rule decoder.run_inv) (simp add: decoder_wf_def FrameDecoder_default_def kHeaderSize_def)

text \<open>C4: when a malformed header follows well-formed frames in the stream, exactly those
  frames are delivered, the header's error is latched, and no later input is ever parsed.\<close>
theorem decoder_stops_at_bad_header:
  assumes "list_all (\<lambda>(t, p). length p \<le> kMaxPayloadBytes) ms"
    and "kHeaderSize \<le> length bad" and "decode_header bad = Inl e"
    and "concat cs = encode_all ms @ bad @ later"
  shows "fd_frames (feed_all cs FrameDecoder_default) = map (case_prod mk_frame) ms
    \<and> fd_error (feed_all cs FrameDecoder_default) = e
    \<and> feed rest (feed_all cs FrameDecoder_default) = (DS_Error, feed_all cs FrameDecoder_default)"
proof -
  have e: "e \<noteq> CE_None" using assms(2,3) by (auto simp: decode_header_def Let_def split: if_splits)
  have "codec_chop (bad @ later) = Bad e"
    using assms(2,3) e by (simp add: codec_chop_def decode_header_append)
  moreover obtain n where "length (bad @ later) = Suc n"
    using assms(2) by (cases "length (bad @ later)") (auto simp: kHeaderSize_def)
  ultimately have "deframe codec_chop (length (bad @ later)) (bad @ later) = ([], Some e, bad @ later)"
    by simp
  then show ?thesis
    using feed_all_default [of cs] feed_encoded [OF assms(1), of "bad @ later"] assms(4) e
    by (simp add: same_result_def feed_eq)
qed

theorem decoder_stops_at_bad_header_witness:
  "fd_error (feed_all [[0, 0, 0, 0, 0, 0, 0], [0, 0, 0, 0, 0]] FrameDecoder_default) = CE_InvalidMagic"
  using decoder_stops_at_bad_header [of "[]" "[0, 0, 0, 0, 0, 0, 0, 0, 0, 0, 0, 0]" CE_InvalidMagic
      "[[0, 0, 0, 0, 0, 0, 0], [0, 0, 0, 0, 0]]" "[]"]
  by (simp add: kHeaderSize_def decode_header_def encode_all_def kMagic_def)

text \<open>The headers \<open>decode_header\<close> accepts are exactly those \<open>encode_frame\<close> writes.\<close>
theorem decode_header_accepts_iff:
  "decode_header b = Inr h \<longleftrightarrow>
     (\<exists>t n x. n \<le> kMaxPayloadBytes \<and> b = header_bytes t n @ x \<and> h = mk_header t n)"
  using decode_header_complete decode_header_bytes by blast

end
