(* ===== verification/Byte_Fifo.thy ===== *)
theory Byte_Fifo
  imports Prelude
begin

text \<open>
  The interface of a byte queue between a producer of frames and a socket. \<open>content\<close> is the
  abstraction: the bytes still to be sent, in order. Frames are pushed whole or not at all;
  the head piece \<open>front\<close> is offered to the transport, which takes some positive number of its
  bytes. The locale's client lemma is conservation: whatever the interleaving of pushes and
  pops, the bytes sent followed by the bytes pending are the accepted frames in order.
\<close>

datatype 'b fifo_call = Push "'b list" | Pop nat

text \<open>The state of a client: the queue, the bytes accepted and the bytes sent so far.\<close>

definition fifo_client ::
  "('b list \<Rightarrow> 'q \<Rightarrow> bool \<times> 'q) \<Rightarrow> ('q \<Rightarrow> 'b list) \<Rightarrow> (nat \<Rightarrow> 'q \<Rightarrow> bool \<times> 'q) \<Rightarrow>
   'b fifo_call \<Rightarrow> 'q \<times> 'b list \<times> 'b list \<Rightarrow> 'q \<times> 'b list \<times> 'b list"
where
  "fifo_client push front pop c s = (case s of (q, accepted, sent) \<Rightarrow>
     (case c of
        Push f \<Rightarrow> (case push f q of (ok, q') \<Rightarrow> (q', if ok then accepted @ f else accepted, sent))
      | Pop n \<Rightarrow> (case pop n q of (ok, q') \<Rightarrow>
          (q', accepted, if ok then sent @ take n (front q) else sent))))"

locale byte_fifo =
  fixes ok :: "'q \<Rightarrow> bool"
    and content :: "'q \<Rightarrow> 'b list"
    and push :: "'b list \<Rightarrow> 'q \<Rightarrow> bool \<times> 'q"
    and front :: "'q \<Rightarrow> 'b list"
    and pop :: "nat \<Rightarrow> 'q \<Rightarrow> bool \<times> 'q"
  assumes push_accept: "ok q \<Longrightarrow> push f q = (True, q') \<Longrightarrow> ok q' \<and> content q' = content q @ f"
    and push_reject: "push f q = (False, q') \<Longrightarrow> q' = q"
    and front_prefix: "ok q \<Longrightarrow> \<exists>r. content q = front q @ r"
    and front_Nil: "ok q \<Longrightarrow> front q = [] \<Longrightarrow> content q = []"
    and pop_accept: "ok q \<Longrightarrow> pop n q = (True, q') \<Longrightarrow>
      0 < n \<and> n \<le> length (front q) \<and> ok q' \<and> content q' = drop n (content q)"
    and pop_reject: "pop n q = (False, q') \<Longrightarrow> q' = q \<and> (n = 0 \<or> length (front q) < n)"
begin

lemma pop_takes:
  assumes "ok q" and "0 < n" and "n \<le> length (front q)"
  obtains q' where "pop n q = (True, q')" and "ok q'" and "content q = take n (front q) @ content q'"
    and "length (content q') = length (content q) - n"
proof -
  from assms have "fst (pop n q)" using pop_reject [of n q "snd (pop n q)"] by (cases "pop n q") auto
  then have p: "pop n q = (True, snd (pop n q))" by (simp add: prod_eq_iff)
  from pop_accept [OF assms(1) this]
  have "ok (snd (pop n q))" and c: "content (snd (pop n q)) = drop n (content q)" by blast+
  moreover have "take n (content q) = take n (front q)"
    using front_prefix [OF assms(1)] assms(3) by auto
  then have "content q = take n (front q) @ drop n (content q)"
    by (metis append_take_drop_id)
  ultimately show thesis using p by (intro that [of "snd (pop n q)"]) (simp_all only: length_drop)
qed

lemma client_step:
  assumes "ok q" and "accepted = sent @ content q"
    and "fifo_client push front pop c (q, accepted, sent) = (q', accepted', sent')"
  shows "ok q' \<and> accepted' = sent' @ content q'"
proof (cases c)
  case (Push f)
  with assms show ?thesis
    by (auto simp: fifo_client_def split: prod.splits if_splits dest: push_accept push_reject)
next
  case (Pop n)
  obtain b q1 where p: "pop n q = (b, q1)" by (cases "pop n q")
  show ?thesis
  proof (cases b)
    case True
    with pop_accept [OF assms(1)] p have "0 < n" and "n \<le> length (front q)" by simp_all
    from pop_takes [OF assms(1) this] obtain q2 where
      "pop n q = (True, q2)" and "ok q2" and "content q = take n (front q) @ content q2" .
    then show ?thesis using assms Pop p by (auto simp: fifo_client_def)
  next
    case False
    with pop_reject [of n q q1] p have "q1 = q" by simp
    with False assms Pop p show ?thesis by (auto simp: fifo_client_def)
  qed
qed

lemma client_conserves:
  assumes "ok q" and "accepted = sent @ content q"
    and "fold (fifo_client push front pop) cs (q, accepted, sent) = (q', accepted', sent')"
  shows "ok q' \<and> accepted' = sent' @ content q'"
  using assms
proof (induction cs arbitrary: q accepted sent)
  case Nil
  then show ?case by auto
next
  case (Cons c cs)
  obtain q1 a1 s1 where st: "fifo_client push front pop c (q, accepted, sent) = (q1, a1, s1)"
    by (cases "fifo_client push front pop c (q, accepted, sent)") auto
  from client_step [OF Cons.prems(1,2) st] show ?case
    using Cons.IH [of q1 a1 s1] Cons.prems(3) st by simp
qed

end

end
