(* ===== verification/Ipc_Outbound.thy ===== *)
theory Ipc_Outbound
  imports Ipc_Codec Byte_Fifo
begin

text \<open>
  The per-connection outbound path (\<^verbatim>\<open>src/ipc/network_ipc_v1_outbound.cpp\<close>):
  the bounded \<open>OutboundQueue\<close> and \<open>OutboundWriter::flush\<close>. The queue interprets
  \<open>byte_fifo\<close>, so accepted frames reach the socket whole, once and in order. \<open>flush\<close> runs
  against a script of system call outcomes, one per loop iteration.
\<close>

section \<open>OutboundQueue\<close>

definition kDefaultOutboundMaxFrames :: nat where "kDefaultOutboundMaxFrames = 32"

definition kDefaultOutboundMaxBytes :: nat where
  "kDefaultOutboundMaxBytes = 4 * (kHeaderSize + kMaxPayloadBytes)"

definition kDefaultWriteStallTimeoutMs :: int where "kDefaultWriteStallTimeoutMs = 1000"

datatype OutboundEnqueueResult = OE_Accepted | OE_InvalidFrame | OE_FrameTooLarge | OE_Overflow

datatype OutboundFlushResult = OF_Drained | OF_SlowClient | OF_Interrupted | OF_Disconnected

record PendingFrame =
  pf_bytes :: "u8 list"
  pf_offset :: nat

record OutboundQueue =
  oq_max_frames :: nat
  oq_max_bytes :: nat
  oq_queued_bytes :: nat
  oq_frames :: "PendingFrame list"

definition new_queue :: "nat \<Rightarrow> nat \<Rightarrow> OutboundQueue" where
  "new_queue max_frames max_bytes =
     \<lparr> oq_max_frames = max_frames, oq_max_bytes = max_bytes, oq_queued_bytes = 0, oq_frames = [] \<rparr>"

definition enqueue :: "u8 list \<Rightarrow> OutboundQueue \<Rightarrow> OutboundEnqueueResult \<times> OutboundQueue" where
  "enqueue frame q =
     (if frame = [] then (OE_InvalidFrame, q)
      else if oq_max_frames q = 0 \<or> oq_max_bytes q = 0 \<or> length frame > oq_max_bytes q
      then (OE_FrameTooLarge, q)
      else if length (oq_frames q) \<ge> oq_max_frames q
           \<or> oq_queued_bytes q > oq_max_bytes q - length frame
      then (OE_Overflow, q)
      else (OE_Accepted, q\<lparr> oq_queued_bytes := oq_queued_bytes q + length frame,
              oq_frames := oq_frames q @ [\<lparr> pf_bytes = frame, pf_offset = 0 \<rparr>] \<rparr>))"

definition queue_empty :: "OutboundQueue \<Rightarrow> bool" where
  "queue_empty q \<longleftrightarrow> oq_frames q = []"

text \<open>\<open>front_data\<close> with \<open>front_size\<close>: the bytes of the first frame from its offset on; the
  null pointer of an empty queue, always paired with size 0, is the empty list.\<close>

definition front_data :: "OutboundQueue \<Rightarrow> u8 list" where
  "front_data q = (case oq_frames q of [] \<Rightarrow> [] | f # _ \<Rightarrow> drop (pf_offset f) (pf_bytes f))"

definition front_size :: "OutboundQueue \<Rightarrow> nat" where
  "front_size q = (case oq_frames q of [] \<Rightarrow> 0 | f # _ \<Rightarrow> length (pf_bytes f) - pf_offset f)"

definition consume :: "nat \<Rightarrow> OutboundQueue \<Rightarrow> bool \<times> OutboundQueue" where
  "consume n q =
     (case oq_frames q of
        [] \<Rightarrow> (False, q)
      | f # fs \<Rightarrow>
          if n = 0 \<or> n > front_size q then (False, q)
          else let f' = f\<lparr> pf_offset := pf_offset f + n \<rparr> in
            (True, q\<lparr> oq_queued_bytes := oq_queued_bytes q - n,
                     oq_frames := (if pf_offset f' = length (pf_bytes f') then fs else f' # fs) \<rparr>))"

definition queue_clear :: "OutboundQueue \<Rightarrow> OutboundQueue" where
  "queue_clear q = q\<lparr> oq_frames := [], oq_queued_bytes := 0 \<rparr>"

section \<open>OutboundWriter\<close>

record OutboundWriter =
  ow_queue :: OutboundQueue
  ow_write_stall_timeout_ms :: int

definition new_writer :: "nat \<Rightarrow> nat \<Rightarrow> int \<Rightarrow> OutboundWriter" where
  "new_writer max_frames max_bytes timeout =
     \<lparr> ow_queue = new_queue max_frames max_bytes,
       ow_write_stall_timeout_ms = (if timeout < 0 then 0 else timeout) \<rparr>"

definition writer_enqueue :: "u8 list \<Rightarrow> OutboundWriter \<Rightarrow> OutboundEnqueueResult \<times> OutboundWriter" where
  "writer_enqueue frame w = (case enqueue frame (ow_queue w) of (r, q) \<Rightarrow> (r, w\<lparr> ow_queue := q \<rparr>))"

text \<open>
  What one loop iteration sees. \<open>Can_send n\<close>: the socket takes up to \<open>n\<close> bytes, so
  \<open>send\<close> returns \<open>min n size\<close> (it never reports more than it was given). \<open>poll\<close>
  is consulted only after \<open>EAGAIN\<close>; \<open>Poll_ready wake err\<close> tells whether the wake pipe
  and whether an error condition of the socket is flagged.
\<close>

datatype send_outcome = Can_send nat | Send_EINTR | Send_EAGAIN | Send_failed

datatype poll_outcome = Poll_EINTR | Poll_failed | Poll_timeout | Poll_ready bool bool

text \<open>
  \<open>flush es has_wake w\<close>: the result (None while the script ends before the loop does),
  the bytes handed to the socket and the writer afterwards; \<open>has_wake\<close> is
  \<open>wake_read_fd >= 0\<close>.
\<close>

fun flush :: "(send_outcome \<times> poll_outcome) list \<Rightarrow> bool \<Rightarrow> OutboundWriter \<Rightarrow>
    OutboundFlushResult option \<times> u8 list \<times> OutboundWriter"
where
  "flush [] has_wake w = (if queue_empty (ow_queue w) then Some OF_Drained else None, [], w)"
| "flush ((s, p) # es) has_wake w =
    (if queue_empty (ow_queue w) then (Some OF_Drained, [], w)
     else case s of
       Can_send n \<Rightarrow>
         (let written = min n (front_size (ow_queue w)) in
          if written > 0 then
            (let sent = take written (front_data (ow_queue w)) in
             case consume written (ow_queue w) of (ok, q) \<Rightarrow>
               if \<not> ok then (Some OF_Disconnected, sent, w\<lparr> ow_queue := q \<rparr>)
               else (case flush es has_wake (w\<lparr> ow_queue := q \<rparr>) of (r, out, w') \<Rightarrow> (r, sent @ out, w')))
          else (Some OF_Disconnected, [], w))
     | Send_EINTR \<Rightarrow> flush es has_wake w
     | Send_failed \<Rightarrow> (Some OF_Disconnected, [], w)
     | Send_EAGAIN \<Rightarrow>
         (case p of
            Poll_EINTR \<Rightarrow> flush es has_wake w
          | Poll_failed \<Rightarrow> (Some OF_Disconnected, [], w)
          | Poll_timeout \<Rightarrow> (Some OF_SlowClient, [], w)
          | Poll_ready wake err \<Rightarrow>
              if has_wake \<and> wake then (Some OF_Interrupted, [], w)
              else if err then (Some OF_Disconnected, [], w)
              else flush es has_wake w))"

section \<open>The queue as a byte FIFO\<close>

definition frame_remaining :: "PendingFrame \<Rightarrow> u8 list" where
  "frame_remaining f = drop (pf_offset f) (pf_bytes f)"

definition pending :: "OutboundQueue \<Rightarrow> u8 list" where
  "pending q = concat (map frame_remaining (oq_frames q))"

definition queue_ok :: "OutboundQueue \<Rightarrow> bool" where
  "queue_ok q \<longleftrightarrow> list_all (\<lambda>f. pf_offset f < length (pf_bytes f)) (oq_frames q)
     \<and> oq_queued_bytes q = length (pending q)
     \<and> oq_queued_bytes q \<le> oq_max_bytes q
     \<and> length (oq_frames q) \<le> oq_max_frames q"

definition queue_push :: "u8 list \<Rightarrow> OutboundQueue \<Rightarrow> bool \<times> OutboundQueue" where
  "queue_push f q = (case enqueue f q of (r, q') \<Rightarrow> (r = OE_Accepted, q'))"

lemmas queue_defs = enqueue_def consume_def queue_clear_def pending_def frame_remaining_def queue_ok_def

lemma front_size_data [simp]: "length (front_data q) = front_size q"
  by (simp add: front_data_def front_size_def split: list.splits)

interpretation oq: byte_fifo queue_ok pending queue_push front_data consume
proof unfold_locales
  fix q f q' assume "queue_ok q" and "queue_push f q = (True, q')"
  then show "queue_ok q' \<and> pending q' = pending q @ f"
    by (auto simp: queue_push_def queue_defs split: prod.splits if_splits)
next
  fix f q q' assume "queue_push f q = (False, q')"
  then show "q' = q" by (auto simp: queue_push_def enqueue_def split: prod.splits if_splits)
next
  fix q assume "queue_ok q"
  then show "\<exists>r. pending q = front_data q @ r"
    by (auto simp: pending_def frame_remaining_def front_data_def split: list.splits)
next
  fix q assume "queue_ok q" and "front_data q = []"
  then show "pending q = []" by (auto simp: queue_defs front_data_def split: list.splits)
next
  fix q n q' assume "queue_ok q" and "consume n q = (True, q')"
  then show "0 < n \<and> n \<le> length (front_data q) \<and> queue_ok q' \<and> pending q' = drop n (pending q)"
    by (auto simp: queue_defs front_size_def Let_def add.commute split: list.splits if_splits)
next
  fix n q q' assume "consume n q = (False, q')"
  then show "q' = q \<and> (n = 0 \<or> length (front_data q) < n)"
    by (auto simp: consume_def Let_def front_size_def split: list.splits if_splits)
qed

section \<open>The queue under any sequence of calls\<close>

datatype queue_call = Call_enqueue "u8 list" | Call_consume nat | Call_clear

definition queue_step :: "queue_call \<Rightarrow> OutboundQueue \<Rightarrow> OutboundQueue" where
  "queue_step c q = (case c of
     Call_enqueue f \<Rightarrow> snd (enqueue f q) | Call_consume n \<Rightarrow> snd (consume n q) | Call_clear \<Rightarrow> queue_clear q)"

lemma enqueue_ok: "queue_ok q \<Longrightarrow> queue_ok (snd (enqueue f q))"
  by (auto simp: queue_defs)

lemma consume_ok: "queue_ok q \<Longrightarrow> queue_ok (snd (consume n q))"
  using oq.pop_accept [of q n] oq.pop_reject [of n q]
  by (metis (full_types) prod.collapse)

interpretation queue_calls: invariant_machine queue_step queue_ok
proof unfold_locales
  fix q c assume "queue_ok q"
  then show "queue_ok (queue_step c q)"
    by (cases c) (simp_all add: queue_step_def enqueue_ok consume_ok, simp add: queue_defs)
qed

lemma new_queue_ok: "queue_ok (new_queue m b)"
  by (simp add: new_queue_def queue_defs)

lemma queue_empty_pending: "queue_ok q \<Longrightarrow> queue_empty q \<longleftrightarrow> pending q = []"
  by (cases "oq_frames q") (auto simp: queue_empty_def queue_defs)

section \<open>Flushing\<close>

lemma front_size_pos: "queue_ok q \<Longrightarrow> \<not> queue_empty q \<Longrightarrow> 0 < front_size q"
  by (auto simp: queue_empty_def queue_defs front_size_def split: list.splits)

lemma flush_sends_pending:
  "queue_ok (ow_queue w) \<Longrightarrow> flush es has_wake w = (r, out, w') \<Longrightarrow>
   queue_ok (ow_queue w') \<and> pending (ow_queue w) = out @ pending (ow_queue w')
   \<and> (r = Some OF_Drained \<longrightarrow> pending (ow_queue w') = [])"
proof (induction es has_wake w arbitrary: r out w' rule: flush.induct)
  case (1 has_wake w)
  then show ?case by (auto simp: queue_empty_pending split: if_splits)
next
  case (2 s p es has_wake w)
  let ?q = "ow_queue w"
  show ?case
  proof (cases "queue_empty ?q")
    case True
    with 2 show ?thesis by (auto simp: queue_empty_pending)
  next
    case ne: False
    show ?thesis
    proof (cases s)
      case (Can_send n)
      let ?n = "min n (front_size ?q)"
      show ?thesis
      proof (cases "0 < ?n")
        case True
        then obtain q' where q': "consume ?n ?q = (True, q')" "queue_ok q'"
          "pending ?q = take ?n (front_data ?q) @ pending q'"
          using oq.pop_takes [OF 2(5), of ?n] by auto
        obtain r1 out1 w1 where f: "flush es has_wake (w\<lparr>ow_queue := q'\<rparr>) = (r1, out1, w1)"
          by (cases "flush es has_wake (w\<lparr>ow_queue := q'\<rparr>)") auto
        from 2(6) ne Can_send True q'(1) f
        have eq: "r = r1" "out = take ?n (front_data ?q) @ out1" "w' = w1"
          by (auto simp: Let_def split: if_splits)
        note ih = 2(1) [OF ne Can_send refl True refl q'(1) [symmetric]]
        from ih [OF _ _ f] q' show ?thesis by (simp add: eq)
      next
        case False
        with 2 ne Can_send show ?thesis by (auto simp: Let_def)
      qed
    qed (use 2 ne in \<open>auto split: poll_outcome.splits if_splits\<close>)
  qed
qed

text \<open>Iterations in which the peer keeps taking bytes and nothing interrupts the loop.\<close>

fun progressing :: "send_outcome \<times> poll_outcome \<Rightarrow> bool" where
  "progressing (Can_send n, p) = (0 < n)"
| "progressing (Send_EINTR, p) = True"
| "progressing (Send_EAGAIN, p) = (p = Poll_EINTR \<or> p = Poll_ready False False)"
| "progressing (Send_failed, p) = False"

fun is_write :: "send_outcome \<times> poll_outcome \<Rightarrow> bool" where
  "is_write (Can_send n, p) = True"
| "is_write (s, p) = False"

lemma flush_skip:
  "\<not> queue_empty (ow_queue w) \<Longrightarrow> \<not> is_write (s, p) \<Longrightarrow> progressing (s, p) \<Longrightarrow>
   flush ((s, p) # es) has_wake w = flush es has_wake w"
  by (cases s) (auto split: poll_outcome.splits)

lemma flush_write:
  "\<not> queue_empty (ow_queue w) \<Longrightarrow> 0 < min n (front_size (ow_queue w)) \<Longrightarrow>
   consume (min n (front_size (ow_queue w))) (ow_queue w) = (True, q') \<Longrightarrow>
   fst (flush ((Can_send n, p) # es) has_wake w) = fst (flush es has_wake (w\<lparr>ow_queue := q'\<rparr>))"
  by (simp add: Let_def split: prod.splits)

lemma flush_drains_aux:
  "queue_ok (ow_queue w) \<Longrightarrow> list_all progressing es \<Longrightarrow>
   length (pending (ow_queue w)) \<le> length (filter is_write es) \<Longrightarrow>
   fst (flush es has_wake w) = Some OF_Drained"
proof (induction es arbitrary: w)
  case Nil
  then show ?case by (simp add: queue_empty_pending)
next
  case (Cons e es)
  let ?q = "ow_queue w"
  obtain s p where e: "e = (s, p)" by (cases e)
  consider "queue_empty ?q" | "\<not> queue_empty ?q" "\<not> is_write e" | "\<not> queue_empty ?q" "is_write e"
    by blast
  then show ?case
  proof cases
    case 1
    then show ?thesis by (simp add: e)
  next
    case 2
    then show ?thesis using Cons flush_skip [of w s p] by (simp add: e del: flush.simps)
  next
    case 3
    then obtain n where s: "s = Can_send n" by (cases s) (auto simp: e)
    let ?n = "min n (front_size ?q)"
    have n: "0 < ?n" using front_size_pos [OF Cons.prems(1)] 3 Cons.prems(2) by (simp add: e s)
    moreover have "?n \<le> length (front_data ?q)" by simp
    ultimately obtain q' where q': "consume ?n ?q = (True, q')" "queue_ok q'"
      and len: "length (pending q') = length (pending ?q) - ?n"
      by (rule oq.pop_takes [OF Cons.prems(1)])
    have "length (pending q') \<le> length (filter is_write es)"
      using Cons.prems(3) n unfolding len by (simp add: e s del: min_less_iff_conj)
    then show ?thesis
      using Cons.IH [of "w\<lparr>ow_queue := q'\<rparr>"] Cons.prems(2) q'(2) flush_write [OF 3(1) n q'(1)]
      by (simp add: e s del: flush.simps)
  qed
qed

section \<open>Properties\<close>

text \<open>C5: from a fresh queue, under any interleaving of \<open>enqueue\<close> and \<open>consume\<close> calls, the
  bytes consumed followed by the bytes still pending are exactly the accepted frames, whole
  and in order; the byte count and both configured limits hold throughout.\<close>
theorem outbound_queue_fifo:
  assumes "fold (fifo_client queue_push front_data consume) cs (new_queue m b, [], []) = (q, accepted, sent)"
  shows "accepted = sent @ pending q \<and> oq_queued_bytes q = length (pending q) \<and> queue_ok q"
proof -
  have "queue_ok q \<and> accepted = sent @ pending q"
    by (rule oq.client_conserves [OF new_queue_ok _ assms]) (simp add: new_queue_def pending_def)
  moreover from this have "oq_queued_bytes q = length (pending q)" by (simp add: queue_ok_def)
  ultimately show ?thesis by blast
qed

theorem outbound_queue_fifo_witness:
  "pending (fst (fold (fifo_client queue_push front_data consume)
     [Push [1, 2], Push [3], Pop 1, Push [4, 5, 6], Push [7]] (new_queue 3 4, [], []))) = [2, 3, 7]"
proof -
  have q: "fold (fifo_client queue_push front_data consume)
      [Push [1, 2], Push [3], Pop 1, Push [4, 5, 6], Push [7]] (new_queue 3 4, [], []) =
    (\<lparr> oq_max_frames = 3, oq_max_bytes = 4, oq_queued_bytes = 3,
       oq_frames = [\<lparr> pf_bytes = [1, 2], pf_offset = 1 \<rparr>, \<lparr> pf_bytes = [3], pf_offset = 0 \<rparr>,
         \<lparr> pf_bytes = [7], pf_offset = 0 \<rparr>] \<rparr>, [1, 2, 3, 7], [1])"
    by code_simp
  from outbound_queue_fifo [OF q] show ?thesis by (simp only: q fst_conv) simp
qed


text \<open>Every queue reached by \<open>enqueue\<close>, \<open>consume\<close> and \<open>clear\<close> calls respects its frame
  and byte limits and counts its bytes exactly.\<close>
theorem outbound_queue_bounded:
  "queue_ok (fold queue_step cs (new_queue m b))"
  by (rule queue_calls.run_inv) (rule new_queue_ok)

text \<open>C6: whatever the socket, the poll and the wake pipe do, \<open>flush\<close> hands the socket a
  prefix of the pending bytes and keeps the rest queued; when it reports Drained it has sent
  everything.\<close>
theorem flush_sends_prefix:
  assumes "queue_ok (ow_queue w)" and "flush es has_wake w = (r, out, w')"
  shows "pending (ow_queue w) = out @ pending (ow_queue w')
    \<and> (r = Some OF_Drained \<longrightarrow> out = pending (ow_queue w)) \<and> queue_ok (ow_queue w')"
  using flush_sends_pending [OF assms] by auto

theorem flush_sends_prefix_witness:
  "pending (ow_queue (snd (writer_enqueue [7, 8, 9] (new_writer 4 100 1000)))) = [7, 8, 9]"
proof -
  let ?w = "snd (writer_enqueue [7, 8, 9] (new_writer 4 100 1000))"
  have "flush [(Can_send 2, Poll_EINTR), (Send_EAGAIN, Poll_ready False False),
      (Can_send 9, Poll_EINTR)] True ?w = (Some OF_Drained, [7, 8, 9], new_writer 4 100 1000)"
    by code_simp
  moreover have "queue_ok (ow_queue ?w)" by code_simp
  ultimately show ?thesis using flush_sends_prefix by metis
qed

text \<open>\<open>flush\<close> finishes: when nothing fails and the socket accepts at least one byte as
  many times as bytes are queued, it returns Drained.\<close>
theorem flush_drains:
  assumes "queue_ok (ow_queue w)" and "list_all progressing es"
    and "oq_queued_bytes (ow_queue w) \<le> length (filter is_write es)"
  shows "fst (flush es has_wake w) = Some OF_Drained"
  using flush_drains_aux [of w es has_wake] assms by (simp add: queue_ok_def)

theorem flush_drains_witness:
  "fst (flush [(Can_send 1, Poll_EINTR), (Send_EINTR, Poll_EINTR), (Can_send 1, Poll_EINTR)] False
     \<lparr> ow_queue = \<lparr> oq_max_frames = 1, oq_max_bytes = 2, oq_queued_bytes = 2,
         oq_frames = [\<lparr> pf_bytes = [5, 6], pf_offset = 0 \<rparr>] \<rparr>,
       ow_write_stall_timeout_ms = 1000 \<rparr>) = Some OF_Drained"
  by (rule flush_drains) (simp_all add: queue_defs)

end
