(* ===== verification/Ipc_Json.thy ===== *)
theory Ipc_Json
  imports Prelude
begin

text \<open>
  The JSON scanner of \<^verbatim>\<open>src/ipc/network_ipc_v1_session.cpp\<close>. A C++ function
  \<open>f(text, pos, ..)\<close> that advances \<open>pos\<close> and returns a bool is a function from the suffix of
  \<open>text\<close> at \<open>pos\<close> to the suffix at the new position, None for false; the position is not
  read after a failure. The nesting depth is the number of levels left, \<open>kMaxJsonDepth + 1 -
  depth\<close>, so the depth guard is the zero case of a primitive recursion. A \<open>while (true)\<close>
  loop carries fuel; every iteration consumes a character, and \<open>skip_array_loop_fuel\<close> and
  \<open>skip_object_loop_fuel\<close> show that more fuel than characters makes no difference.
  The theorem on numbers: \<open>parse_uint64\<close> is exact, its overflow guard included.
\<close>

abbreviation quote_char :: char where "quote_char \<equiv> CHR 0x22"
abbreviation backslash :: char where "backslash \<equiv> CHR 0x5C"

definition kMaxJsonDepth :: nat where "kMaxJsonDepth = 16"

section \<open>Scanner\<close>

definition skip_ws :: "string \<Rightarrow> string" where
  "skip_ws s = dropWhile isspace s"

text \<open>The value an escape letter stands for (None: invalid; \<open>u\<close> is handled apart).\<close>

definition unescape :: "char \<Rightarrow> char option" where
  "unescape e =
     (if e = quote_char \<or> e = backslash \<or> e = CHR ''/'' then Some e
      else if e = CHR ''b'' then Some (CHR 0x08)
      else if e = CHR ''f'' then Some (CHR 0x0C)
      else if e = CHR ''n'' then Some (CHR 0x0A)
      else if e = CHR ''r'' then Some (CHR 0x0D)
      else if e = CHR ''t'' then Some (CHR 0x09)
      else None)"

definition cons_value :: "char \<Rightarrow> (string \<times> string) option \<Rightarrow> (string \<times> string) option" where
  "cons_value c r = map_option (\<lambda>(v, s). (c # v, s)) r"

text \<open>The loop of \<open>parse_string\<close>, after the opening quote: the value and the rest.\<close>

function string_body :: "string \<Rightarrow> (string \<times> string) option" where
  "string_body [] = None"
| "string_body (ch # s) =
     (if ch = quote_char then Some ([], s)
      else if ord ch < 0x20 then None
      else if ch \<noteq> backslash then cons_value ch (string_body s)
      else case s of
        [] \<Rightarrow> None
      | escaped # s' \<Rightarrow>
          if escaped = CHR ''u'' then
            (if length s' < 4 \<or> \<not> list_all isxdigit (take 4 s') then None
             else cons_value (CHR ''?'') (string_body (drop 4 s')))
          else case unescape escaped of
            None \<Rightarrow> None
          | Some c \<Rightarrow> cons_value c (string_body s'))"
  by pat_completeness auto
termination by (relation "measure length") auto

definition parse_string :: "string \<Rightarrow> (string \<times> string) option" where
  "parse_string s = (case s of [] \<Rightarrow> None | c # s' \<Rightarrow> if c \<noteq> quote_char then None else string_body s')"

definition skip_string :: "string \<Rightarrow> string option" where
  "skip_string s = map_option snd (parse_string s)"

definition skip_fraction :: "string \<Rightarrow> string option" where
  "skip_fraction s = (case s of [] \<Rightarrow> Some s | c # s' \<Rightarrow>
     if c \<noteq> CHR ''.'' then Some s
     else if dropWhile isdigit s' = s' then None else Some (dropWhile isdigit s'))"

definition skip_exponent :: "string \<Rightarrow> string option" where
  "skip_exponent s = (case s of [] \<Rightarrow> Some s | c # s' \<Rightarrow>
     if c \<noteq> CHR ''e'' \<and> c \<noteq> CHR ''E'' then Some s
     else let s'' = (case s' of d # t \<Rightarrow> if d = CHR ''+'' \<or> d = CHR ''-'' then t else s' | [] \<Rightarrow> s') in
       if dropWhile isdigit s'' = s'' then None else Some (dropWhile isdigit s''))"

definition skip_integer :: "string \<Rightarrow> string option" where
  "skip_integer s = (case s of [] \<Rightarrow> None | c # s' \<Rightarrow>
     if c = CHR ''0'' then Some s'
     else if ord c < ord (CHR ''1'') \<or> ord c > ord (CHR ''9'') then None
     else Some (dropWhile isdigit s))"

definition skip_number :: "string \<Rightarrow> string option" where
  "skip_number s =
     (let s1 = (case s of c # t \<Rightarrow> if c = CHR ''-'' then t else s | [] \<Rightarrow> s) in
      case skip_integer s1 of None \<Rightarrow> None | Some s2 \<Rightarrow>
      case skip_fraction s2 of None \<Rightarrow> None | Some s3 \<Rightarrow> skip_exponent s3)"

definition skip_literal :: "string \<Rightarrow> string \<Rightarrow> string option" where
  "skip_literal literal s = (if starts_with literal s then Some (drop (length literal) s) else None)"

text \<open>\<open>sv\<close> is \<open>skip_value\<close> at the next depth.\<close>

fun skip_array_loop :: "(string \<Rightarrow> string option) \<Rightarrow> nat \<Rightarrow> string \<Rightarrow> string option" where
  "skip_array_loop sv 0 s = None"
| "skip_array_loop sv (Suc n) s =
     (case sv s of None \<Rightarrow> None | Some s1 \<Rightarrow>
      case skip_ws s1 of [] \<Rightarrow> None | c # s2 \<Rightarrow>
        if c = CHR '']'' then Some s2
        else if c \<noteq> CHR '','' then None
        else skip_array_loop sv n (skip_ws s2))"

definition skip_array :: "(string \<Rightarrow> string option) \<Rightarrow> string \<Rightarrow> string option" where
  "skip_array sv s = (case s of [] \<Rightarrow> None | c # s1 \<Rightarrow>
     if c \<noteq> CHR ''['' then None
     else let s2 = skip_ws s1 in
       case s2 of
         d # s3 \<Rightarrow> if d = CHR '']'' then Some s3 else skip_array_loop sv (Suc (length s2)) s2
       | [] \<Rightarrow> skip_array_loop sv (Suc (length s2)) s2)"

fun skip_object_loop :: "(string \<Rightarrow> string option) \<Rightarrow> nat \<Rightarrow> string \<Rightarrow> string option" where
  "skip_object_loop sv 0 s = None"
| "skip_object_loop sv (Suc n) s =
     (case skip_string s of None \<Rightarrow> None | Some s1 \<Rightarrow>
      case skip_ws s1 of [] \<Rightarrow> None | c # s2 \<Rightarrow>
        if c \<noteq> CHR '':'' then None
        else case sv (skip_ws s2) of None \<Rightarrow> None | Some s3 \<Rightarrow>
          case skip_ws s3 of [] \<Rightarrow> None | d # s4 \<Rightarrow>
            if d = CHR ''}'' then Some s4
            else if d \<noteq> CHR '','' then None
            else skip_object_loop sv n (skip_ws s4))"

definition skip_object :: "(string \<Rightarrow> string option) \<Rightarrow> string \<Rightarrow> string option" where
  "skip_object sv s = (case s of [] \<Rightarrow> None | c # s1 \<Rightarrow>
     if c \<noteq> CHR ''{'' then None
     else let s2 = skip_ws s1 in
       case s2 of
         d # s3 \<Rightarrow> if d = CHR ''}'' then Some s3 else skip_object_loop sv (Suc (length s2)) s2
       | [] \<Rightarrow> skip_object_loop sv (Suc (length s2)) s2)"

primrec skip_levels :: "nat \<Rightarrow> string \<Rightarrow> string option" where
  "skip_levels 0 s = None"
| "skip_levels (Suc n) s =
     (case skip_ws s of [] \<Rightarrow> None | c # s1 \<Rightarrow>
        if c = quote_char then skip_string (c # s1)
        else if c = CHR ''{'' then skip_object (skip_levels n) (c # s1)
        else if c = CHR ''['' then skip_array (skip_levels n) (c # s1)
        else if c = CHR ''t'' then skip_literal ''true'' (c # s1)
        else if c = CHR ''f'' then skip_literal ''false'' (c # s1)
        else if c = CHR ''n'' then skip_literal ''null'' (c # s1)
        else skip_number (c # s1))"

definition skip_value :: "string \<Rightarrow> nat \<Rightarrow> string option" where
  "skip_value s depth = skip_levels (Suc kMaxJsonDepth - depth) s"

fun uint64_loop :: "u64 \<Rightarrow> string \<Rightarrow> (u64 \<times> string) option" where
  "uint64_loop result [] = Some (result, [])"
| "uint64_loop result (c # s) =
     (if isdigit c then
        (let digit = of_nat (ord c - 48) in
         if result > (u64_max - digit) div 10 then None
         else uint64_loop (result * 10 + digit) s)
      else Some (result, c # s))"

definition parse_uint64 :: "string \<Rightarrow> (u64 \<times> string) option" where
  "parse_uint64 s = (case s of [] \<Rightarrow> None | c # _ \<Rightarrow> if \<not> isdigit c then None else uint64_loop 0 s)"

section \<open>Every scanner consumes a suffix\<close>

lemma skip_ws_length: "length (skip_ws s) \<le> length s"
  by (simp add: skip_ws_def length_dropWhile_le)

lemma skip_ws_nonspace [simp]: "\<not> isspace c \<Longrightarrow> skip_ws (c # s) = c # s"
  by (simp add: skip_ws_def)

lemma skip_ws_Nil [simp]: "skip_ws [] = []"
  by (simp add: skip_ws_def)

lemma string_body_length: "string_body s = Some (v, r) \<Longrightarrow> length r < length s"
proof (induction s arbitrary: v r rule: string_body.induct)
  case 1
  then show ?case by simp
next
  case (2 ch s)
  then show ?case
    by (fastforce simp: cons_value_def split: if_splits list.splits option.splits)
qed

lemma skip_string_length: "skip_string s = Some r \<Longrightarrow> length r < length s"
  by (auto simp: skip_string_def parse_string_def split: list.splits if_splits
      dest: string_body_length)

lemma skip_number_length: "skip_number s = Some r \<Longrightarrow> length r \<le> length s"
proof -
  have i: "skip_integer s = Some r \<Longrightarrow> length r \<le> length s" for s r
    by (auto simp: skip_integer_def split: list.splits if_splits
        intro: length_dropWhile_le [THEN order_trans])
  have f: "skip_fraction s = Some r \<Longrightarrow> length r \<le> length s" for s r
    by (auto simp: skip_fraction_def split: list.splits if_splits
        intro: length_dropWhile_le [THEN order_trans])
  have e: "skip_exponent s = Some r \<Longrightarrow> length r \<le> length s" for s r
    by (auto simp: skip_exponent_def Let_def split: list.splits if_splits
        intro: length_dropWhile_le [THEN order_trans])
  show "skip_number s = Some r \<Longrightarrow> length r \<le> length s"
    by (fastforce simp: skip_number_def Let_def split: list.splits if_splits option.splits
        dest!: i f e)
qed

lemma skip_literal_length: "skip_literal l s = Some r \<Longrightarrow> length r \<le> length s"
  by (auto simp: skip_literal_def split: if_splits)

section \<open>Fuel\<close>

definition shrinking :: "(string \<Rightarrow> string option) \<Rightarrow> bool" where
  "shrinking sv \<longleftrightarrow> (\<forall>s r. sv s = Some r \<longrightarrow> length r \<le> length s)"

lemma shrinkingD: "shrinking sv \<Longrightarrow> sv s = Some r \<Longrightarrow> length r \<le> length s"
  by (simp add: shrinking_def)

lemma skip_ws_tail: "skip_ws s = c # r \<Longrightarrow> length r < length s"
  using skip_ws_length [of s] by simp

lemma skip_array_loop_fuel:
  assumes "shrinking sv"
  shows "length s < n \<Longrightarrow> length s < k \<Longrightarrow> skip_array_loop sv n s = skip_array_loop sv k s"
proof (induction n arbitrary: s k)
  case 0
  then show ?case by simp
next
  case (Suc n)
  then obtain k' where k: "k = Suc k'" by (cases k) auto
  have "skip_array_loop sv n (skip_ws s2) = skip_array_loop sv k' (skip_ws s2)"
    if "sv s = Some s1" and "skip_ws s1 = c # s2" for s1 c s2
  proof (rule Suc.IH)
    have "length (skip_ws s2) < length s"
      using shrinkingD [OF assms that(1)] skip_ws_tail [OF that(2)] skip_ws_length [of s2] by linarith
    then show "length (skip_ws s2) < n" and "length (skip_ws s2) < k'"
      using Suc.prems k by linarith+
  qed
  then show ?case by (auto simp: k split: option.splits list.splits)
qed

lemma skip_object_loop_fuel:
  assumes "shrinking sv"
  shows "length s < n \<Longrightarrow> length s < k \<Longrightarrow> skip_object_loop sv n s = skip_object_loop sv k s"
proof (induction n arbitrary: s k)
  case 0
  then show ?case by simp
next
  case (Suc n)
  then obtain k' where k: "k = Suc k'" by (cases k) auto
  have "skip_object_loop sv n (skip_ws s4) = skip_object_loop sv k' (skip_ws s4)"
    if "skip_string s = Some s1" and "skip_ws s1 = c # s2"
      and "sv (skip_ws s2) = Some s3" and "skip_ws s3 = d # s4" for s1 c s2 s3 d s4
  proof (rule Suc.IH)
    have "length (skip_ws s4) < length s"
      using skip_string_length [OF that(1)] skip_ws_tail [OF that(2)] skip_ws_length [of s2]
        shrinkingD [OF assms that(3)] skip_ws_tail [OF that(4)] skip_ws_length [of s4] by linarith
    then show "length (skip_ws s4) < n" and "length (skip_ws s4) < k'"
      using Suc.prems k by linarith+
  qed
  then show ?case by (auto simp: k split: option.splits list.splits)
qed

lemma skip_array_loop_length:
  "shrinking sv \<Longrightarrow> skip_array_loop sv n s = Some r \<Longrightarrow> length r \<le> length s"
proof (induction n arbitrary: s)
  case (Suc n)
  obtain s1 c s2 where "sv s = Some s1" and w: "skip_ws s1 = c # s2"
    and r: "r = s2 \<or> skip_array_loop sv n (skip_ws s2) = Some r"
    using Suc.prems(2) by (auto split: option.splits list.splits if_splits)
  then have "length s2 < length s"
    using shrinkingD [OF Suc.prems(1)] skip_ws_tail [OF w] by fastforce
  then show ?case using r Suc.IH [OF Suc.prems(1)] skip_ws_length [of s2] by fastforce
qed simp

lemma skip_object_loop_length:
  "shrinking sv \<Longrightarrow> skip_object_loop sv n s = Some r \<Longrightarrow> length r \<le> length s"
proof (induction n arbitrary: s)
  case (Suc n)
  obtain s1 c s2 s3 d s4 where p: "skip_string s = Some s1" and w: "skip_ws s1 = c # s2"
    and v: "sv (skip_ws s2) = Some s3" and w': "skip_ws s3 = d # s4"
    and r: "r = s4 \<or> skip_object_loop sv n (skip_ws s4) = Some r"
    using Suc.prems(2) by (auto split: option.splits list.splits if_splits)
  then have "length s4 < length s"
    using skip_string_length [OF p] shrinkingD [OF Suc.prems(1) v] skip_ws_tail [OF w]
      skip_ws_tail [OF w'] skip_ws_length [of s2] by linarith
  then show ?case using r Suc.IH [OF Suc.prems(1)] skip_ws_length [of s4] by fastforce
qed simp

lemma skip_array_length: "shrinking sv \<Longrightarrow> skip_array sv s = Some r \<Longrightarrow> length r \<le> length s"
  by (auto simp: skip_array_def Let_def split: list.splits if_splits
      dest!: skip_array_loop_length skip_ws_tail dest: sym [of _ "skip_ws _"]
      simp del: skip_array_loop.simps)

lemma skip_object_length: "shrinking sv \<Longrightarrow> skip_object sv s = Some r \<Longrightarrow> length r \<le> length s"
  by (auto simp: skip_object_def Let_def split: list.splits if_splits
      dest!: skip_object_loop_length skip_ws_tail simp del: skip_object_loop.simps)

lemma skip_levels_shrinking: "shrinking (skip_levels n)"
proof (induction n)
  case 0
  then show ?case by (simp add: shrinking_def)
next
  case (Suc n)
  show ?case
    unfolding shrinking_def
  proof (intro allI impI)
    fix s r assume "skip_levels (Suc n) s = Some r"
    then obtain c s1 where w: "skip_ws s = c # s1" and "length r \<le> length (c # s1)"
      using Suc.IH by (auto split: list.splits if_splits dest: skip_string_length skip_object_length
        skip_array_length skip_literal_length skip_number_length)
    then show "length r \<le> length s" using skip_ws_length [of s] by simp
  qed
qed

section \<open>Numbers\<close>

lemma digits_value_ge: "acc \<le> digits_value acc ds"
proof (induction ds arbitrary: acc)
  case (Cons c ds)
  have "acc \<le> acc * 10 + (ord c - 48)" by simp
  also have "\<dots> \<le> digits_value (acc * 10 + (ord c - 48)) ds" by (rule Cons.IH)
  finally show ?case by simp
qed simp

lemma uint64_guard:
  assumes "d < 10"
  shows "(u64_max - of_nat d) div 10 < (w :: u64) \<longleftrightarrow> 2 ^ 64 \<le> unat w * 10 + d"
    and "unat w * 10 + d < 2 ^ 64 \<Longrightarrow> unat (w * 10 + of_nat d) = unat w * 10 + d"
proof -
  have d: "unat (of_nat d :: u64) = d" using assms by (simp add: unat_of_nat)
  have "(of_nat d :: u64) \<le> u64_max"
    using assms by (simp add: word_le_nat_alt d unat_u64_max)
  then have "unat (u64_max - of_nat d) = 2 ^ 64 - 1 - d"
    by (simp add: unat_sub d unat_u64_max)
  then show "(u64_max - of_nat d) div 10 < w \<longleftrightarrow> 2 ^ 64 \<le> unat w * 10 + d"
    using assms by (simp add: word_less_nat_alt unat_div) linarith
  show "unat w * 10 + d < 2 ^ 64 \<Longrightarrow> unat (w * 10 + of_nat d) = unat w * 10 + d"
    using assms by (simp add: unat_word_ariths d)
qed

lemma uint64_loop_exact:
  assumes "list_all isdigit ds" and "r = [] \<or> \<not> isdigit (hd r)"
  shows "uint64_loop w (ds @ r) =
    (if digits_value (unat w) ds < 2 ^ 64 then Some (of_nat (digits_value (unat w) ds), r) else None)"
  using assms(1)
proof (induction ds arbitrary: w)
  case Nil
  then show ?case using assms(2) unsigned_less [of w] by (cases r) auto
next
  case (Cons c ds)
  define d where "d = ord c - 48"
  have d: "d < 10" and c: "isdigit c" using Cons.prems by (auto simp: isdigit_def d_def)
  show ?case
  proof (cases "unat w * 10 + d < 2 ^ 64")
    case True
    then have "uint64_loop w ((c # ds) @ r) = uint64_loop (w * 10 + of_nat d) (ds @ r)"
      using c uint64_guard(1) [OF d, of w] by (simp add: Let_def d_def [symmetric])
    then show ?thesis
      using Cons.IH [of "w * 10 + of_nat d"] Cons.prems uint64_guard(2) [OF d True]
      by (simp add: d_def [symmetric])
  next
    case False
    moreover from this have "\<not> digits_value (unat w) (c # ds) < 2 ^ 64"
      using digits_value_ge [of "unat w * 10 + d" ds] by (simp add: d_def [symmetric])
    ultimately show ?thesis
      using c uint64_guard(1) [OF d, of w] by (simp add: Let_def d_def [symmetric])
  qed
qed

lemma parse_uint64_digits:
  assumes "list_all isdigit ds" and "ds \<noteq> []" and "r = [] \<or> \<not> isdigit (hd r)"
  shows "parse_uint64 (ds @ r) =
    (if digits_value 0 ds < 2 ^ 64 then Some (of_nat (digits_value 0 ds), r) else None)"
  using assms uint64_loop_exact [OF assms(1,3), of 0]
  by (cases ds) (simp_all add: parse_uint64_def del: uint64_loop.simps)

lemma parse_show_u64:
  assumes "r = [] \<or> \<not> isdigit (hd r)"
  shows "parse_uint64 (show_u64 w @ r) = Some (w, r)"
  using parse_uint64_digits [OF show_nat_digits show_nat_nonempty assms, of "unat w"]
    unsigned_less [of w] by (simp add: show_u64_def)

section \<open>Properties\<close>

text \<open>C9: on a run of decimal digits \<open>parse_uint64\<close> yields exactly the number written when it
  fits 64 bits and rejects it otherwise; the guard never lets a product or sum wrap.\<close>
theorem parse_uint64_exact:
  assumes "ds \<noteq> []" and "list_all isdigit ds" and "r = [] \<or> \<not> isdigit (hd r)"
  shows "case parse_uint64 (ds @ r) of
      Some (v, rest) \<Rightarrow> unat v = digits_value 0 ds \<and> rest = r
    | None \<Rightarrow> 2 ^ 64 \<le> digits_value 0 ds"
  using parse_uint64_digits [OF assms(2,1,3)] by (simp add: unat_of_nat)

theorem parse_uint64_exact_witness:
  "parse_uint64 ''18446744073709551615,'' = Some (u64_max, '','')
   \<and> parse_uint64 ''18446744073709551616,'' = None
   \<and> 2 ^ 64 \<le> digits_value 0 ''18446744073709551616''"
proof -
  let ?ds = "''18446744073709551616''"
  have fits: "parse_uint64 ''18446744073709551615,'' = Some (u64_max, '','')" by code_simp
  have n: "parse_uint64 (?ds @ '','') = None" by code_simp
  have "list_all isdigit ?ds" and "\<not> isdigit (hd '','')" by code_simp+
  then have "2 ^ 64 \<le> digits_value 0 ?ds"
    using parse_uint64_exact [of ?ds "'',''"] unfolding n option.case by blast
  with fits n show ?thesis by (simp only: append_Cons append_Nil)
qed

end
