(* ===== verification/Json_Text.thy ===== *)
theory Json_Text
  imports Ipc_Json
begin

text \<open>
  JSON text as the encoders write it. Two escapers exist in the sources: the one of
  \<^verbatim>\<open>ipc/network_ipc_representation.cpp\<close> (\<open>json_escape\<close>) and the one of
  \<^verbatim>\<open>ipc/network_ipc_v1_event.cpp\<close> (\<open>event_json_escape\<close>). The locale \<open>string_escape\<close> is
  what both promise, one character at a time; its lemmas are the round trip through
  \<open>parse_string\<close>. A small abstract syntax \<open>json\<close> with a printer states what the payload
  builders print, and \<open>skip_print_json\<close> says the session's scanner accepts all of it, up to
  the scanner's nesting limit.
\<close>

section \<open>The escapers\<close>

definition hex_digit :: "nat \<Rightarrow> char" where
  "hex_digit n = ''0123456789abcdef'' ! n"

definition json_escape_char :: "char \<Rightarrow> string" where
  "json_escape_char ch =
     (if ch = backslash then [backslash, backslash]
      else if ch = quote_char then [backslash, quote_char]
      else if ch = CHR 0x08 then backslash # ''b''
      else if ch = CHR 0x0C then backslash # ''f''
      else if ch = CHR 0x0A then backslash # ''n''
      else if ch = CHR 0x0D then backslash # ''r''
      else if ch = CHR 0x09 then backslash # ''t''
      else if ord ch < 0x20 then backslash # ''u00'' @ [hex_digit (ord ch div 16), hex_digit (ord ch mod 16)]
      else [ch])"

definition json_escape :: "string \<Rightarrow> string" where
  "json_escape value = concat (map json_escape_char value)"

definition event_escape_char :: "char \<Rightarrow> string" where
  "event_escape_char ch =
     (if ch = backslash then [backslash, backslash]
      else if ch = quote_char then [backslash, quote_char]
      else if ch = CHR 0x08 then backslash # ''b''
      else if ch = CHR 0x0C then backslash # ''f''
      else if ch = CHR 0x0A then backslash # ''n''
      else if ch = CHR 0x0D then backslash # ''r''
      else if ch = CHR 0x09 then backslash # ''t''
      else if ord ch < 0x20 then ''?''
      else [ch])"

definition event_json_escape :: "string \<Rightarrow> string" where
  "event_json_escape value = concat (map event_escape_char value)"

text \<open>What a reader of the session's kind sees for a character: control characters without a
  short escape come back as a question mark.\<close>

definition read_back :: "char \<Rightarrow> char" where
  "read_back ch = (if ord ch < 0x20 \<and> ch \<notin> {CHR 0x08, CHR 0x0C, CHR 0x0A, CHR 0x0D, CHR 0x09}
     then CHR ''?'' else ch)"

definition plain :: "string \<Rightarrow> bool" where
  "plain s \<longleftrightarrow> list_all (\<lambda>c. read_back c = c) s"

section \<open>What an escaper promises\<close>

locale string_escape =
  fixes esc :: "char \<Rightarrow> string"
  assumes esc_read: "string_body (esc c @ s) = cons_value (read_back c) (string_body s)"
    and esc_nonempty: "esc c \<noteq> []"
begin

lemma string_body_escaped:
  "string_body (concat (map esc v) @ quote_char # r) = Some (map read_back v, r)"
  by (induction v) (simp_all add: esc_read cons_value_def)

lemma parse_escaped:
  "parse_string (quote_char # concat (map esc v) @ quote_char # r) = Some (map read_back v, r)"
  by (simp add: parse_string_def string_body_escaped)

lemma skip_escaped: "skip_string (quote_char # concat (map esc v) @ quote_char # r) = Some r"
  by (simp add: skip_string_def parse_escaped)

lemma parse_plain:
  "plain v \<Longrightarrow> parse_string (quote_char # concat (map esc v) @ quote_char # r) = Some (v, r)"
proof -
  assume "plain v"
  then have "map read_back v = v" by (simp add: plain_def list_all_iff map_idI)
  then show ?thesis by (simp add: parse_escaped)
qed

lemma escape_inject:
  assumes "plain v" and "plain w"
    and "concat (map esc v) @ quote_char # r = concat (map esc w) @ quote_char # r'"
  shows "v = w \<and> r = r'"
proof -
  have "Some (v, r) = Some (w, r')"
    using parse_plain [OF assms(1), of r] parse_plain [OF assms(2), of r'] assms(3) by metis
  then show ?thesis by simp
qed

end

lemma hex_digit_xdigit: "n < 16 \<Longrightarrow> isxdigit (hex_digit n)"
proof -
  have "list_all isxdigit ''0123456789abcdef''" by (simp add: chr_defs)
  then show "n < 16 \<Longrightarrow> isxdigit (hex_digit n)" by (simp add: hex_digit_def list_all_length)
qed

lemmas escape_simps = unescape_def read_back_def chr_defs

interpretation repr: string_escape json_escape_char
proof unfold_locales
  fix c s
  show "string_body (json_escape_char c @ s) = cons_value (read_back c) (string_body s)"
  proof (cases "ord c < 0x20 \<and> c \<notin> {CHR 0x08, CHR 0x0C, CHR 0x0A, CHR 0x0D, CHR 0x09}")
    case True
    then have "isxdigit (hex_digit (ord c div 16))" and "isxdigit (hex_digit (ord c mod 16))"
      by (auto intro!: hex_digit_xdigit)
    moreover have "isxdigit (CHR ''0'')" by (simp add: chr_defs)
    moreover have "c \<noteq> backslash" and "c \<noteq> quote_char" using True by (auto simp: eq_char_ord chr_defs)
    moreover have "\<not> ord backslash < 32" by (simp add: chr_defs)
    ultimately show ?thesis using True by (simp add: json_escape_char_def read_back_def)
  next
    case False
    then show ?thesis by (auto simp: json_escape_char_def escape_simps)
  qed
next
  fix c show "json_escape_char c \<noteq> []" by (simp add: json_escape_char_def)
qed

interpretation event: string_escape event_escape_char
proof unfold_locales
  fix c s
  show "string_body (event_escape_char c @ s) = cons_value (read_back c) (string_body s)"
    by (auto simp: event_escape_char_def escape_simps)
next
  fix c show "event_escape_char c \<noteq> []" by (simp add: event_escape_char_def)
qed

section \<open>Abstract syntax and printer\<close>

datatype json =
  JString string
| JNumber int
| JBool bool
| JArray "json list"
| JObject "(string \<times> json) list"

definition quoted :: "string \<Rightarrow> string" where
  "quoted s = quote_char # json_escape s @ [quote_char]"

fun commas :: "string list \<Rightarrow> string" where
  "commas [] = []"
| "commas [x] = x"
| "commas (x # y # ys) = x @ '','' @ commas (y # ys)"

fun print_json :: "json \<Rightarrow> string" where
  "print_json (JString s) = quoted s"
| "print_json (JNumber i) = show_int i"
| "print_json (JBool b) = show_bool b"
| "print_json (JArray js) = ''['' @ commas (map print_json js) @ '']''"
| "print_json (JObject fs) =
     ''{'' @ commas (map (\<lambda>(k, j). quoted k @ '':'' @ print_json j) fs) @ ''}''"

fun json_depth :: "json \<Rightarrow> nat" where
  "json_depth (JArray js) = Suc (foldr max (map json_depth js) 0)"
| "json_depth (JObject fs) = Suc (foldr max (map (\<lambda>(k, j). json_depth j) fs) 0)"
| "json_depth _ = 1"

section \<open>Printed text is accepted\<close>

text \<open>A number ends where no character that continues it follows.\<close>

definition num_end :: "string \<Rightarrow> bool" where
  "num_end r \<longleftrightarrow> (case r of [] \<Rightarrow> True | c # _ \<Rightarrow> \<not> isdigit c \<and> c \<notin> {CHR ''.'', CHR ''e'', CHR ''E''})"

lemma num_end_delims [simp]:
  "num_end (CHR '','' # r)" "num_end (CHR '']'' # r)" "num_end (CHR ''}'' # r)"
  by (simp_all add: num_end_def chr_defs)

lemma show_nat_head:
  "\<exists>c t. show_nat n = c # t \<and> isdigit c \<and> list_all isdigit t \<and> (c = CHR ''0'' \<longrightarrow> t = [])"
proof (induction n rule: show_nat.induct)
  case (1 n)
  show ?case
  proof (cases "n < 10")
    case True
    then show ?thesis by (subst show_nat.simps) simp
  next
    case False
    with 1 obtain c t where ct: "show_nat (n div 10) = c # t" "isdigit c" "list_all isdigit t"
      "c = CHR ''0'' \<longrightarrow> t = []" by blast
    have "c \<noteq> CHR ''0''"
    proof
      assume "c = CHR ''0''"
      then have "show_nat (n div 10) = ''0''" using ct by simp
      then have "n div 10 = 0" using digits_value_show_nat [of "n div 10"] by (simp add: chr_defs)
      with False show False by simp
    qed
    with False ct show ?thesis by (subst show_nat.simps) simp
  qed
qed

lemma skip_tail_end: "num_end r \<Longrightarrow> skip_fraction r = Some r" "num_end r \<Longrightarrow> skip_exponent r = Some r"
  by (auto simp: num_end_def skip_fraction_def skip_exponent_def split: list.splits)

lemma skip_integer_show_nat: "num_end r \<Longrightarrow> skip_integer (show_nat n @ r) = Some r"
proof -
  assume r: "num_end r"
  obtain c t where ct: "show_nat n = c # t" "isdigit c" "list_all isdigit t" "c = CHR ''0'' \<longrightarrow> t = []"
    using show_nat_head by blast
  have "dropWhile isdigit (t @ r) = r"
    using ct(3) r by (induction t) (auto simp: num_end_def split: list.splits)
  moreover have "c = CHR ''0'' \<or> (49 \<le> ord c \<and> ord c \<le> 57)"
    using ct(2) by (auto simp: isdigit_def eq_char_ord chr_defs)
  moreover have "ord (CHR ''1'') = 49" and "ord (CHR ''9'') = 57" by (simp_all add: chr_defs)
  ultimately show ?thesis using ct by (auto simp: skip_integer_def)
qed

lemma skip_number_show_int: "num_end r \<Longrightarrow> skip_number (show_int i @ r) = Some r"
proof -
  assume r: "num_end r"
  obtain c t where ct: "show_nat (nat i) = c # t" "isdigit c" using show_nat_head by blast
  have "c \<noteq> CHR ''-''" using ct(2) by (auto simp: chr_defs)
  then show ?thesis
    using r ct(1) skip_integer_show_nat [OF r, of "nat i"] skip_integer_show_nat [OF r, of "nat (- i)"]
    by (simp add: skip_number_def show_int_def skip_tail_end)
qed

lemma digit_head_facts:
  "isdigit c \<Longrightarrow> \<not> isspace c \<and> c \<notin> {quote_char, CHR ''{'', CHR ''['', CHR '']'', CHR ''}'', CHR ''t'', CHR ''f'', CHR ''n''}"
  by (auto simp: chr_defs)

lemma show_int_head:
  "\<exists>c t. show_int i = c # t \<and> \<not> isspace c \<and>
     c \<notin> {quote_char, CHR ''{'', CHR ''['', CHR '']'', CHR ''}'', CHR ''t'', CHR ''f'', CHR ''n''}"
proof (cases "i < 0")
  case True
  then show ?thesis by (simp add: show_int_def chr_defs)
next
  case False
  obtain c t where "show_nat (nat i) = c # t" and "isdigit c" using show_nat_head by blast
  with False digit_head_facts [of c] show ?thesis by (simp add: show_int_def)
qed

lemma print_json_head:
  "\<exists>c t. print_json j = c # t \<and> \<not> isspace c \<and> c \<noteq> CHR '']'' \<and> c \<noteq> CHR ''}''"
proof (cases j)
  case (JNumber i)
  then show ?thesis using show_int_head [of i] by auto
qed (auto simp: quoted_def show_bool_def chr_defs)

lemma skip_ws_print_json [simp]: "skip_ws (print_json j @ r) = print_json j @ r"
  using print_json_head [of j] by auto

lemma skip_ws_quoted [simp]: "skip_ws (quoted s @ r) = quoted s @ r"
  using skip_ws_print_json [of "JString s"] by simp

lemma skip_string_quoted [simp]: "skip_string (quoted s @ r) = Some r"
  using repr.skip_escaped [of s r] by (simp add: quoted_def json_escape_def)

lemma commas_Cons: "commas (x # xs) = x @ (if xs = [] then [] else '','' @ commas xs)"
  by (cases xs) simp_all

lemma length_commas: "list_all (\<lambda>x. x \<noteq> []) xs \<Longrightarrow> length xs \<le> length (commas xs)"
proof (induction xs)
  case (Cons x xs)
  then have "0 < length x" by simp
  with Cons show ?case by (auto simp: commas_Cons simp del: length_greater_0_conv)
qed simp

lemma space_delims [simp]:
  "\<not> isspace (CHR '','')" "\<not> isspace (CHR '']'')" "\<not> isspace (CHR ''}'')" "\<not> isspace (CHR '':'')"
  by (simp_all add: chr_defs)

lemma skip_array_loop_print:
  assumes "js \<noteq> []" and "\<And>j r. j \<in> set js \<Longrightarrow> num_end r \<Longrightarrow> sv (print_json j @ r) = Some r"
    and "length js \<le> n"
  shows "skip_array_loop sv n (commas (map print_json js) @ CHR '']'' # r) = Some r"
  using assms
proof (induction js arbitrary: n)
  case (Cons j js)
  then obtain n' where n: "n = Suc n'" by (cases n) auto
  show ?case
  proof (cases js)
    case Nil
    then show ?thesis using Cons.prems(2) by (simp add: n)
  next
    case (Cons j' js')
    have "skip_array_loop sv n' (commas (map print_json js) @ CHR '']'' # r) = Some r"
      using Cons.IH [of n'] Cons.prems Cons n by simp
    moreover have "skip_ws (commas (map print_json js) @ s) = commas (map print_json js) @ s" for s
      by (simp add: Cons commas_Cons)
    ultimately show ?thesis
      using Cons.prems(2) by (simp add: n commas_Cons Cons)
  qed
qed simp

abbreviation print_field :: "string \<times> json \<Rightarrow> string" where
  "print_field \<equiv> \<lambda>(k, j). quoted k @ '':'' @ print_json j"

lemma skip_object_loop_print:
  assumes "fs \<noteq> []" and "\<And>k j r. (k, j) \<in> set fs \<Longrightarrow> num_end r \<Longrightarrow> sv (print_json j @ r) = Some r"
    and "length fs \<le> n"
  shows "skip_object_loop sv n (commas (map print_field fs) @ CHR ''}'' # r) = Some r"
  using assms
proof (induction fs arbitrary: n)
  case (Cons f fs)
  then obtain n' where n: "n = Suc n'" by (cases n) auto
  obtain k j where f: "f = (k, j)" by (cases f)
  show ?case
  proof (cases fs)
    case Nil
    then show ?thesis using Cons.prems(2) [of k j] by (simp add: n f)
  next
    case (Cons f' fs')
    have "skip_object_loop sv n' (commas (map print_field fs) @ CHR ''}'' # r) = Some r"
    proof (rule Cons.IH)
      show "num_end r' \<Longrightarrow> sv (print_json j' @ r') = Some r'" if "(k', j') \<in> set fs" for k' j' r'
        using Cons.prems(2) [of k' j' r'] that by simp
    qed (use Cons.prems Cons n in simp_all)
    moreover have "skip_ws (commas (map print_field fs) @ s) = commas (map print_field fs) @ s" for s
      by (simp add: Cons commas_Cons split: prod.splits)
    ultimately show ?thesis
      using Cons.prems(2) [of k j] by (simp add: n f commas_Cons Cons)
  qed
qed simp

lemma foldr_max_le: "foldr max ns (0::nat) \<le> n \<Longrightarrow> x \<in> set ns \<Longrightarrow> x \<le> n"
  by (induction ns) auto

lemma quoted_nonempty [simp]: "quoted s \<noteq> []"
  by (simp add: quoted_def)

lemma print_json_nonempty [simp]: "print_json j \<noteq> []"
  using print_json_head [of j] by auto

lemma skip_levels_bracket:
  "skip_levels (Suc n) (CHR ''['' # s) = skip_array (skip_levels n) (CHR ''['' # s)"
  "skip_levels (Suc n) (CHR ''{'' # s) = skip_object (skip_levels n) (CHR ''{'' # s)"
  by (simp_all add: chr_defs)

lemma skip_array_cases:
  "\<not> isspace c \<Longrightarrow> skip_array sv (CHR ''['' # c # t) =
     (if c = CHR '']'' then Some t else skip_array_loop sv (Suc (length (c # t))) (c # t))"
  by (simp add: skip_array_def Let_def del: skip_array_loop.simps)

lemma skip_object_cases:
  "\<not> isspace c \<Longrightarrow> skip_object sv (CHR ''{'' # c # t) =
     (if c = CHR ''}'' then Some t else skip_object_loop sv (Suc (length (c # t))) (c # t))"
  by (simp add: skip_object_def Let_def del: skip_object_loop.simps)

lemma skip_levels_number:
  "\<not> isspace c \<Longrightarrow>
   c \<notin> {quote_char, CHR ''{'', CHR ''['', CHR '']'', CHR ''}'', CHR ''t'', CHR ''f'', CHR ''n''} \<Longrightarrow>
   skip_levels (Suc n) (c # s) = skip_number (c # s)"
  by simp

lemma skip_levels_word:
  "skip_levels (Suc n) (CHR ''t'' # s) = skip_literal ''true'' (CHR ''t'' # s)"
  "skip_levels (Suc n) (CHR ''f'' # s) = skip_literal ''false'' (CHR ''f'' # s)"
  "skip_levels (Suc n) (quote_char # s) = skip_string (quote_char # s)"
  by (simp_all add: chr_defs)

lemma skip_print_scalar:
  "skip_levels (Suc n) (quoted v @ r) = Some r"
  "skip_levels (Suc n) (show_bool b @ r) = Some r"
  "num_end r \<Longrightarrow> skip_levels (Suc n) (show_int i @ r) = Some r"
proof -
  show "skip_levels (Suc n) (quoted v @ r) = Some r"
    using skip_string_quoted [of v r] unfolding quoted_def append_Cons skip_levels_word .
  show "skip_levels (Suc n) (show_bool b @ r) = Some r"
    by (cases b) (simp_all only: show_bool_def if_True if_False append_Cons append_Nil
        skip_levels_word, simp_all add: skip_literal_def)
  have "skip_levels (Suc n) (show_int i @ r) = skip_number (show_int i @ r)"
    using show_int_head [of i] by (elim exE conjE) (simp only: append_Cons, rule skip_levels_number)
  then show "num_end r \<Longrightarrow> skip_levels (Suc n) (show_int i @ r) = Some r"
    using skip_number_show_int [of r i] by (simp only:)
qed

lemma skip_print_array:
  assumes "\<And>j r. j \<in> set js \<Longrightarrow> num_end r \<Longrightarrow> skip_levels n (print_json j @ r) = Some r"
  shows "skip_levels (Suc n) (print_json (JArray js) @ r) = Some r"
proof (cases js)
  case Nil
  then show ?thesis by (simp add: skip_levels_bracket skip_array_cases del: skip_levels.simps)
next
  case (Cons j js')
  let ?s = "commas (map print_json js) @ CHR '']'' # r"
  obtain c t where c: "print_json j = c # t" "\<not> isspace c" "c \<noteq> CHR '']''"
    using print_json_head [of j] by blast
  then obtain t' where s: "?s = c # t'" by (simp add: Cons commas_Cons)
  have "length js \<le> Suc (length ?s)"
    using length_commas [of "map print_json js"] by (simp add: list_all_iff)
  with assms Cons have "skip_array_loop (skip_levels n) (Suc (length ?s)) ?s = Some r"
    by (intro skip_array_loop_print) auto
  moreover have "print_json (JArray js) @ r = CHR ''['' # c # t'" using s by simp
  ultimately show ?thesis
    by (simp only: skip_levels_bracket skip_array_cases [OF c(2)] s c(3) if_False)
qed

lemma skip_print_object:
  assumes "\<And>k j r. (k, j) \<in> set fs \<Longrightarrow> num_end r \<Longrightarrow> skip_levels n (print_json j @ r) = Some r"
  shows "skip_levels (Suc n) (print_json (JObject fs) @ r) = Some r"
proof (cases fs)
  case Nil
  then show ?thesis by (simp add: skip_levels_bracket skip_object_cases del: skip_levels.simps)
next
  case (Cons f fs')
  let ?s = "commas (map print_field fs) @ CHR ''}'' # r"
  obtain t' where s: "?s = quote_char # t'"
    by (cases f) (simp add: Cons commas_Cons quoted_def)
  have c: "\<not> isspace quote_char" "quote_char \<noteq> CHR ''}''" by (simp_all add: chr_defs)
  have "length fs \<le> Suc (length ?s)"
    using length_commas [of "map print_field fs"] by (simp add: list_all_iff split_beta)
  with assms Cons have "skip_object_loop (skip_levels n) (Suc (length ?s)) ?s = Some r"
    by (intro skip_object_loop_print) blast+
  moreover have "print_json (JObject fs) @ r = CHR ''{'' # quote_char # t'" using s by simp
  ultimately show ?thesis
    by (simp only: skip_levels_bracket skip_object_cases [OF c(1)] s c(2) if_False)
qed

lemma skip_print_json: "json_depth j \<le> n \<Longrightarrow> num_end r \<Longrightarrow> skip_levels n (print_json j @ r) = Some r"
proof (induction n arbitrary: j r)
  case 0
  then show ?case by (cases j) simp_all
next
  case (Suc n)
  show ?case
  proof (cases j)
    case (JArray js)
    have "json_depth x \<le> n" if "x \<in> set js" for x
      using Suc.prems(1) that foldr_max_le [of "map json_depth js" n "json_depth x"]
      by (simp add: JArray)
    then show ?thesis unfolding JArray by (intro skip_print_array Suc.IH)
  next
    case (JObject fs)
    have "json_depth x \<le> n" if "(k, x) \<in> set fs" for k x
      using Suc.prems(1) foldr_max_le [of "map (\<lambda>(k, j). json_depth j) fs" n "json_depth x"]
        image_eqI [OF _ that, of "json_depth x" "\<lambda>(k, j). json_depth j"]
      by (simp add: JObject)
    then show ?thesis unfolding JObject by (intro skip_print_object Suc.IH)
  qed (use Suc.prems(2) skip_print_scalar in \<open>simp_all del: skip_levels.simps\<close>)
qed

end
