(* ===== verification/Ipc_Event.thy ===== *)
theory Ipc_Event
  imports Ipc_Codec Json_Text
begin

text \<open>
  Events and their client-side baseline: \<open>EventSequencer\<close>
  (\<^verbatim>\<open>src/ipc/network_ipc_v1_event.cpp\<close>), \<open>RebaseTracker\<close> and the authoritative snapshot
  response (\<^verbatim>\<open>src/ipc/network_ipc_v1_rebase.cpp\<close>). Sequence numbers are \<open>u64\<close> and the
  sequencer stops, rather than wraps, at the maximum. The locale \<open>sequence_source\<close> is what a
  tracker relies on; the sequencer provides it.
\<close>

section \<open>EventSequencer\<close>

record EventSequencer =
  es_generation :: u64
  es_next_sequence :: u64

definition new_sequencer :: "u64 \<Rightarrow> EventSequencer" where
  "new_sequencer generation =
     \<lparr> es_generation = (if generation = 0 then 1 else generation), es_next_sequence = 1 \<rparr>"

definition es_last_sequence :: "EventSequencer \<Rightarrow> u64" where
  "es_last_sequence es = (if es_next_sequence es = 0 then u64_max else es_next_sequence es - 1)"

definition event_text :: "string \<Rightarrow> u64 \<Rightarrow> u64 \<Rightarrow> string \<Rightarrow> string" where
  \<open>event_text event_name generation sequence payload_json =
     ''{"event":"'' @ event_json_escape event_name
     @ ''","generation":'' @ show_u64 generation
     @ '',"seq":'' @ show_u64 sequence
     @ '',"payload":'' @ payload_json @ ''}''\<close>

definition encode_event :: "string \<Rightarrow> string \<Rightarrow> EventSequencer \<Rightarrow> u8 list \<times> EventSequencer" where
  "encode_event event_name payload_json es =
     (if event_name = [] \<or> payload_json = [] \<or> es_next_sequence es = 0 then ([], es)
      else let sequence = es_next_sequence es in
        case encode_frame Msg_Event (event_text event_name (es_generation es) sequence payload_json) of
          (error, encoded) \<Rightarrow>
            if error \<noteq> CE_None \<or> encoded = [] then ([], es)
            else (encoded, es\<lparr> es_next_sequence :=
                    (if es_next_sequence es = u64_max then 0 else es_next_sequence es + 1) \<rparr>))"

section \<open>RebaseTracker\<close>

datatype EventDecision = Accept | IgnoreStale | RebaseRequired

record RebaseTracker =
  rt_has_baseline :: bool
  rt_generation :: u64
  rt_last_sequence :: u64

definition RebaseTracker_default :: RebaseTracker where
  "RebaseTracker_default = \<lparr> rt_has_baseline = False, rt_generation = 0, rt_last_sequence = 0 \<rparr>"

definition invalidate :: "RebaseTracker \<Rightarrow> RebaseTracker" where
  "invalidate t = \<lparr> rt_has_baseline = False, rt_generation = 0, rt_last_sequence = 0 \<rparr>"

definition rebase :: "u64 \<Rightarrow> u64 \<Rightarrow> RebaseTracker \<Rightarrow> bool \<times> RebaseTracker" where
  "rebase generation snapshot_seq t =
     (if generation = 0 then (False, invalidate t)
      else (True, \<lparr> rt_has_baseline = True, rt_generation = generation,
                    rt_last_sequence = snapshot_seq \<rparr>))"

definition observe_event :: "u64 \<Rightarrow> u64 \<Rightarrow> RebaseTracker \<Rightarrow> EventDecision \<times> RebaseTracker" where
  "observe_event generation seq t =
     (if \<not> rt_has_baseline t \<or> generation = 0 \<or> seq = 0 then (RebaseRequired, invalidate t)
      else if generation \<noteq> rt_generation t then (RebaseRequired, invalidate t)
      else if seq \<le> rt_last_sequence t then (IgnoreStale, t)
      else if rt_last_sequence t \<noteq> u64_max \<and> seq = rt_last_sequence t + 1
      then (Accept, t\<lparr> rt_last_sequence := seq \<rparr>)
      else (RebaseRequired, invalidate t))"

definition encode_snapshot_response :: "u64 \<Rightarrow> u64 \<Rightarrow> u64 \<Rightarrow> string \<Rightarrow> u8 list" where
  \<open>encode_snapshot_response request_id generation snapshot_seq snapshot_json =
     (if request_id = 0 \<or> generation = 0 \<or> snapshot_json = [] then []
      else case encode_frame Msg_Response
        (''{"requestId":'' @ show_u64 request_id
         @ '',"status":200,"result":{"generation":'' @ show_u64 generation
         @ '',"snapshotSeq":'' @ show_u64 snapshot_seq
         @ '',"snapshot":'' @ snapshot_json @ ''}}'') of
        (error, encoded) \<Rightarrow> if error \<noteq> CE_None then [] else encoded)\<close>

section \<open>A tracker on a stream of event tags\<close>

fun observe_all :: "(u64 \<times> u64) list \<Rightarrow> RebaseTracker \<Rightarrow> EventDecision list \<times> RebaseTracker" where
  "observe_all [] t = ([], t)"
| "observe_all ((g, n) # es) t =
     (case observe_event g n t of (d, t1) \<Rightarrow>
      case observe_all es t1 of (ds, t2) \<Rightarrow> (d # ds, t2))"

definition accepted_tags :: "(u64 \<times> u64) list \<Rightarrow> RebaseTracker \<Rightarrow> (u64 \<times> u64) list" where
  "accepted_tags es t = map fst (filter (\<lambda>(e, d). d = Accept) (zip es (fst (observe_all es t))))"

text \<open>The tags \<open>(g, s+1), .., (g, s+k)\<close>.\<close>

fun successors :: "u64 \<Rightarrow> u64 \<Rightarrow> nat \<Rightarrow> (u64 \<times> u64) list" where
  "successors g s 0 = []"
| "successors g s (Suc k) = (g, s + 1) # successors g (s + 1) k"

lemma observe_no_baseline:
  "\<not> rt_has_baseline t \<Longrightarrow> observe_all es t =
     (replicate (length es) RebaseRequired, if es = [] then t else invalidate t)"
proof (induction es arbitrary: t)
  case (Cons e es)
  obtain g n where e: "e = (g, n)" by (cases e)
  have "observe_event g n t = (RebaseRequired, invalidate t)"
    using Cons.prems by (simp add: observe_event_def)
  moreover have "invalidate (invalidate t) = invalidate t" by (simp add: invalidate_def)
  ultimately show ?case using Cons.IH [of "invalidate t"] by (simp add: e invalidate_def)
qed simp

lemma accepted_no_baseline: "\<not> rt_has_baseline t \<Longrightarrow> accepted_tags es t = []"
  by (auto simp: accepted_tags_def observe_no_baseline filter_empty_conv in_set_zip)

lemma accepted_tags_Cons:
  "accepted_tags ((g, n) # es) t =
     (case observe_event g n t of (d, t') \<Rightarrow>
        (if d = Accept then [(g, n)] else []) @ accepted_tags es t')"
  by (auto simp: accepted_tags_def split: prod.splits)

lemma unat_plus_one: "(s :: u64) \<noteq> u64_max \<Longrightarrow> unat (s + 1) = Suc (unat s)"
proof -
  assume "s \<noteq> u64_max"
  then have "unat s \<noteq> 2 ^ 64 - 1" by (metis unat_u64_max word_unat_eq_iff)
  then have "unat s + 1 < 2 ^ 64" using unat_u64 [of s] by simp
  then show ?thesis by (simp add: unat_word_ariths)
qed

lemma accepted_tags_successors:
  "rt_has_baseline t \<Longrightarrow>
   \<exists>k. accepted_tags es t = successors (rt_generation t) (rt_last_sequence t) k
     \<and> unat (rt_last_sequence t) + k < 2 ^ 64"
proof (induction es arbitrary: t)
  case Nil
  then show ?case
    using unat_u64 [of "rt_last_sequence t"]
    by (intro exI [of _ 0]) (simp add: accepted_tags_def)
next
  case (Cons e es)
  obtain g n where e: "e = (g, n)" by (cases e)
  obtain d t' where o: "observe_event g n t = (d, t')" by (cases "observe_event g n t")
  show ?case
  proof (cases d)
    case Accept
    let ?s = "rt_last_sequence t"
    have t': "t' = t\<lparr> rt_last_sequence := ?s + 1 \<rparr>" "g = rt_generation t" "n = ?s + 1" "?s \<noteq> u64_max"
      using o Accept by (auto simp: observe_event_def split: if_splits)
    obtain k where "accepted_tags es t' = successors g (?s + 1) k" "unat (?s + 1) + k < 2 ^ 64"
      using Cons.IH [of t'] Cons.prems t' by auto
    then show ?thesis
      using o Accept t' by (intro exI [of _ "Suc k"]) (simp add: e accepted_tags_Cons unat_plus_one)
  next
    case IgnoreStale
    then have "t' = t" using o by (auto simp: observe_event_def split: if_splits)
    then show ?thesis using Cons o IgnoreStale by (simp add: e accepted_tags_Cons)
  next
    case RebaseRequired
    then have "\<not> rt_has_baseline t'" using o by (auto simp: observe_event_def invalidate_def split: if_splits)
    then show ?thesis
      using o RebaseRequired unat_u64 [of "rt_last_sequence t"]
      by (intro exI [of _ 0]) (simp add: e accepted_tags_Cons accepted_no_baseline)
  qed
qed

section \<open>What a tracker relies on\<close>

text \<open>
  A source of numbered events: \<open>emit x s\<close> either emits nothing and keeps the state, or tags
  the event with the source's generation and the number after the last one.
\<close>

fun emit_all :: "('x \<Rightarrow> 's \<Rightarrow> (u64 \<times> u64) option \<times> 's) \<Rightarrow> 'x list \<Rightarrow> 's \<Rightarrow> (u64 \<times> u64) list \<times> 's" where
  "emit_all emit [] s = ([], s)"
| "emit_all emit (x # xs) s =
     (case emit x s of (tag, s1) \<Rightarrow>
      case emit_all emit xs s1 of (tags, s2) \<Rightarrow> ((case tag of None \<Rightarrow> tags | Some e \<Rightarrow> e # tags), s2))"

locale sequence_source =
  fixes emit :: "'x \<Rightarrow> 's \<Rightarrow> (u64 \<times> u64) option \<times> 's"
    and gen :: "'s \<Rightarrow> u64"
    and last_seq :: "'s \<Rightarrow> u64"
    and live :: "'s \<Rightarrow> bool"
  assumes gen_nonzero: "live s \<Longrightarrow> gen s \<noteq> 0"
    and emit_none: "emit x s = (None, s') \<Longrightarrow> s' = s"
    and emit_some: "live s \<Longrightarrow> emit x s = (Some (g, n), s') \<Longrightarrow>
      g = gen s \<and> last_seq s \<noteq> u64_max \<and> n = last_seq s + 1
      \<and> gen s' = gen s \<and> last_seq s' = n \<and> live s'"
begin

definition synced :: "'s \<Rightarrow> RebaseTracker \<Rightarrow> bool" where
  "synced s t \<longleftrightarrow> live s \<and> t = \<lparr> rt_has_baseline = True, rt_generation = gen s, rt_last_sequence = last_seq s \<rparr>"

lemma observe_next:
  assumes "synced s t" and "emit x s = (Some (g, n), s')"
  shows "\<exists>t'. observe_event g n t = (Accept, t') \<and> synced s' t'"
proof -
  have e: "g = gen s" "last_seq s \<noteq> u64_max" "n = last_seq s + 1" "gen s' = gen s" "last_seq s' = n" "live s'"
    using emit_some [OF _ assms(2)] assms(1) by (auto simp: synced_def)
  then have "unat n = Suc (unat (last_seq s))" by (simp add: unat_plus_one)
  then have "n \<noteq> 0" and "\<not> n \<le> last_seq s" by (auto simp: word_le_nat_alt)
  then show ?thesis
    using assms(1) e gen_nonzero [of s] by (auto simp: synced_def observe_event_def)
qed

lemma observe_emitted:
  "synced s t \<Longrightarrow> emit_all emit xs s = (tags, s') \<Longrightarrow>
   \<exists>t'. observe_all tags t = (replicate (length tags) Accept, t') \<and> synced s' t'"
proof (induction xs arbitrary: s t tags)
  case (Cons x xs)
  obtain tag s1 where x: "emit x s = (tag, s1)" by (cases "emit x s")
  obtain tags1 where xs: "emit_all emit xs s1 = (tags1, s')"
    and tags: "tags = (case tag of None \<Rightarrow> tags1 | Some e \<Rightarrow> e # tags1)"
    using Cons.prems(2) x by (auto split: prod.splits)
  show ?case
  proof (cases tag)
    case None
    with emit_none x have "s1 = s" by simp
    then show ?thesis using Cons.IH [OF Cons.prems(1)] xs tags None by simp
  next
    case (Some e)
    obtain g n where e: "e = (g, n)" by (cases e)
    obtain t1 where t1: "observe_event g n t = (Accept, t1)" "synced s1 t1"
      using observe_next [OF Cons.prems(1)] x Some e by blast
    from Cons.IH [OF this(2) xs] t1(1) show ?thesis by (auto simp: tags Some e)
  qed
qed simp

end

section \<open>The sequencer is such a source\<close>

definition emit_tag :: "string \<times> string \<Rightarrow> EventSequencer \<Rightarrow> (u64 \<times> u64) option \<times> EventSequencer" where
  "emit_tag e es = (case encode_event (fst e) (snd e) es of (bytes, es') \<Rightarrow>
     (if bytes = [] then None else Some (es_generation es, es_next_sequence es), es'))"

definition sequencer_live :: "EventSequencer \<Rightarrow> bool" where
  "sequencer_live es \<longleftrightarrow> es_generation es \<noteq> 0"

interpretation seqr: sequence_source emit_tag es_generation es_last_sequence sequencer_live
proof unfold_locales
  fix s assume "sequencer_live s"
  then show "es_generation s \<noteq> 0" by (simp add: sequencer_live_def)
next
  fix x s s' assume "emit_tag x s = (None, s')"
  then show "s' = s"
    by (auto simp: emit_tag_def encode_event_def Let_def split: prod.splits if_splits)
next
  fix x s g n s' assume live: "sequencer_live s" and "emit_tag x s = (Some (g, n), s')"
  then have "g = es_generation s" and n: "n = es_next_sequence s" "n \<noteq> 0"
    and s': "s' = s\<lparr> es_next_sequence := (if n = u64_max then 0 else n + 1) \<rparr>"
    by (auto simp: emit_tag_def encode_event_def Let_def split: prod.splits if_splits)
  moreover have "n - 1 \<noteq> u64_max" using n(2) by (simp add: u64_max_def)
  moreover have "n \<noteq> u64_max \<Longrightarrow> n + 1 \<noteq> 0" by (metis u64_max_def add_eq_0_iff2)
  ultimately show "g = es_generation s \<and> es_last_sequence s \<noteq> u64_max \<and> n = es_last_sequence s + 1
      \<and> es_generation s' = es_generation s \<and> es_last_sequence s' = n \<and> sequencer_live s'"
    using live by (auto simp: es_last_sequence_def sequencer_live_def)
qed

lemma new_sequencer_live: "sequencer_live (new_sequencer g)"
  by (simp add: sequencer_live_def new_sequencer_def)

lemma length_event_text:
  "length (event_text name g n payload) \<le> 84 + length (event_json_escape name) + length payload"
  using length_show_u64 [of g] length_show_u64 [of n] by (simp add: event_text_def)

lemma emit_tag_fits:
  assumes "name \<noteq> []" and "payload \<noteq> []" and "es_next_sequence es \<noteq> 0"
    and "length (event_json_escape name) + length payload \<le> 65452"
  shows "emit_tag (name, payload) es = (Some (es_generation es, es_next_sequence es),
    es\<lparr> es_next_sequence := (if es_next_sequence es = u64_max then 0 else es_next_sequence es + 1) \<rparr>)"
proof -
  let ?p = "event_text name (es_generation es) (es_next_sequence es) payload"
  have "length ?p \<le> kMaxPayloadBytes"
    using length_event_text [of name "es_generation es" "es_next_sequence es" payload] assms(4)
    by (simp add: kMaxPayloadBytes_def)
  then have "fst (encode_frame Msg_Event ?p) = CE_None" and "snd (encode_frame Msg_Event ?p) \<noteq> []"
    using encode_frame_nonempty by (auto simp: encode_frame_eq)
  then show ?thesis
    using assms(1-3) by (auto simp: emit_tag_def encode_event_def Let_def split: prod.splits)
qed

lemma emit_tag_empty_name: "emit_tag ([], p) es = (None, es)"
  by (simp add: emit_tag_def encode_event_def)

section \<open>Properties\<close>



text \<open>C8: whatever tags a client sees (lost, repeated, reordered, from another generation),
  the events it accepts after a rebase are those of its generation with exactly the
  consecutive numbers after the snapshot's, none of which wraps.\<close>
theorem accepted_events_contiguous:
  assumes "rebase g s t0 = (True, t)"
  shows "\<exists>k. accepted_tags tags t = successors g s k \<and> unat s + k < 2 ^ 64"
  using accepted_tags_successors [of t tags] assms by (auto simp: rebase_def split: if_splits)

theorem accepted_events_contiguous_witness:
  "\<exists>k. accepted_tags [(7, 4), (7, 4), (7, 6), (7, 5)]
       \<lparr> rt_has_baseline = True, rt_generation = 7, rt_last_sequence = 3 \<rparr> = successors 7 3 k
     \<and> unat (3 :: u64) + k < 2 ^ 64"
  by (rule accepted_events_contiguous [of _ _ RebaseTracker_default]) (simp add: rebase_def)

end
