(* ===== verification/Ipc_Session.thy ===== *)
theory Ipc_Session
  imports Ipc_Codec Json_Text
begin

text \<open>
  The per-connection protocol state machine (\<^verbatim>\<open>src/ipc/network_ipc_v1_session.cpp\<close>, the
  scanner of which is in \<open>Ipc_Json\<close>): HELLO and REQUEST parsing and \<open>Session::handle_frame\<close>.
  The two object loops carry fuel, one more than the characters left; \<open>hello_loop_fuel\<close> and
  \<open>request_loop_fuel\<close> show that this is never the reason for a rejection.
\<close>

section \<open>HELLO\<close>

text \<open>Advance past \<open>ch\<close> and the white space after it; None when the next character differs.\<close>

definition expect :: "char \<Rightarrow> string \<Rightarrow> string option" where
  "expect ch s = (case s of [] \<Rightarrow> None | c # s' \<Rightarrow> if c \<noteq> ch then None else Some (skip_ws s'))"

text \<open>The end of an object member: \<open>Some (True, s)\<close> after the closing brace, \<open>Some (False, s)\<close>
  after a comma and white space.\<close>

definition member_end :: "string \<Rightarrow> (bool \<times> string) option" where
  "member_end s = (case skip_ws s of [] \<Rightarrow> None | c # s' \<Rightarrow>
     if c = CHR ''}'' then Some (True, s')
     else if c \<noteq> CHR '','' then None
     else Some (False, skip_ws s'))"

record HelloVersions =
  hv_min :: u64
  hv_max :: u64
  hv_have_min :: bool
  hv_have_max :: bool

definition hello_field :: "string \<Rightarrow> HelloVersions \<Rightarrow> string \<Rightarrow> (HelloVersions \<times> string) option" where
  "hello_field key v s =
     (if key = ''minVersion'' \<or> key = ''maxVersion'' then
        (case parse_uint64 s of
           None \<Rightarrow> None
         | Some (v64, s') \<Rightarrow>
             if key = ''minVersion'' then
               (if hv_have_min v then None else Some (v\<lparr> hv_min := v64, hv_have_min := True \<rparr>, s'))
             else
               (if hv_have_max v then None else Some (v\<lparr> hv_max := v64, hv_have_max := True \<rparr>, s')))
      else map_option (\<lambda>s'. (v, s')) (skip_value s 1))"

fun hello_loop :: "nat \<Rightarrow> HelloVersions \<Rightarrow> string \<Rightarrow> (HelloVersions \<times> string) option" where
  "hello_loop 0 v s = None"
| "hello_loop (Suc n) v s =
     (case parse_string s of None \<Rightarrow> None | Some (key, s1) \<Rightarrow>
      case expect (CHR '':'') (skip_ws s1) of None \<Rightarrow> None | Some s2 \<Rightarrow>
      case hello_field key v s2 of None \<Rightarrow> None | Some (v', s3) \<Rightarrow>
      case member_end s3 of None \<Rightarrow> None | Some (fin, s4) \<Rightarrow>
        if fin then Some (v', s4) else hello_loop n v' s4)"

text \<open>\<open>Some (min, max)\<close> when the function returns true.\<close>

definition parse_hello_versions :: "string \<Rightarrow> (u64 \<times> u64) option" where
  "parse_hello_versions text =
     (case expect (CHR ''{'') (skip_ws text) of None \<Rightarrow> None | Some s \<Rightarrow>
        if s \<noteq> [] \<and> hd s = CHR ''}'' then None
        else case hello_loop (Suc (length s))
            \<lparr> hv_min = 0, hv_max = 0, hv_have_min = False, hv_have_max = False \<rparr> s of
          None \<Rightarrow> None
        | Some (v, s') \<Rightarrow>
            if skip_ws s' = [] \<and> hv_have_min v \<and> hv_have_max v \<and> hv_min v \<le> hv_max v
            then Some (hv_min v, hv_max v) else None)"

section \<open>REQUEST\<close>

record ParsedRequest =
  pr_request_id :: u64
  pr_method :: string
  pr_params_json :: string
  pr_have_request_id :: bool
  pr_have_method :: bool
  pr_have_params :: bool

definition ParsedRequest_default :: ParsedRequest where
  "ParsedRequest_default =
     \<lparr> pr_request_id = 0, pr_method = [], pr_params_json = ''{}'',
       pr_have_request_id = False, pr_have_method = False, pr_have_params = False \<rparr>"

datatype RequestParseError =
  RPE_None | RPE_InvalidJson | RPE_DuplicateRequestId | RPE_DuplicateMethod | RPE_DuplicateParams
| RPE_InvalidRequestId | RPE_InvalidMethod | RPE_InvalidParams | RPE_MissingRequestId
| RPE_MissingMethod

definition request_id_field :: "ParsedRequest \<Rightarrow> string \<Rightarrow> RequestParseError + (ParsedRequest \<times> string)" where
  "request_id_field out s =
     (if pr_have_request_id out then Inl RPE_DuplicateRequestId
      else case parse_uint64 s of
        None \<Rightarrow> Inl RPE_InvalidRequestId
      | Some (v64, s') \<Rightarrow>
          if v64 = 0 then Inl RPE_InvalidRequestId
          else if s' \<noteq> [] \<and> (hd s' = CHR ''.'' \<or> hd s' = CHR ''e'' \<or> hd s' = CHR ''E'')
          then Inl RPE_InvalidRequestId
          else if s' = s then Inl RPE_InvalidRequestId
          else Inr (out\<lparr> pr_request_id := v64, pr_have_request_id := True \<rparr>, s'))"

definition method_field :: "ParsedRequest \<Rightarrow> string \<Rightarrow> RequestParseError + (ParsedRequest \<times> string)" where
  "method_field out s =
     (if pr_have_method out then Inl RPE_DuplicateMethod
      else case parse_string s of
        None \<Rightarrow> Inl RPE_InvalidMethod
      | Some (m, s') \<Rightarrow>
          if m = [] then Inl RPE_InvalidMethod
          else Inr (out\<lparr> pr_method := m, pr_have_method := True \<rparr>, s'))"

text \<open>\<open>text.substr(begin, pos - begin)\<close> is what the scanner moved over.\<close>

definition params_field :: "ParsedRequest \<Rightarrow> string \<Rightarrow> RequestParseError + (ParsedRequest \<times> string)" where
  "params_field out s =
     (if pr_have_params out then Inl RPE_DuplicateParams
      else if s = [] \<or> hd s \<noteq> CHR ''{'' then Inl RPE_InvalidParams
      else case skip_value s 1 of
        None \<Rightarrow> Inl RPE_InvalidParams
      | Some s' \<Rightarrow> Inr (out\<lparr> pr_params_json := take (length s - length s') s, pr_have_params := True \<rparr>, s'))"

definition request_field :: "string \<Rightarrow> ParsedRequest \<Rightarrow> string \<Rightarrow> RequestParseError + (ParsedRequest \<times> string)" where
  "request_field key out s =
     (if key = ''requestId'' then request_id_field out s
      else if key = ''method'' then method_field out s
      else if key = ''params'' then params_field out s
      else case skip_value s 1 of None \<Rightarrow> Inl RPE_InvalidJson | Some s' \<Rightarrow> Inr (out, s'))"

text \<open>The result carries \<open>out\<close> as the reference parameter leaves it, also on errors.\<close>

fun request_loop :: "nat \<Rightarrow> ParsedRequest \<Rightarrow> string \<Rightarrow> RequestParseError \<times> ParsedRequest \<times> string" where
  "request_loop 0 out s = (RPE_InvalidJson, out, s)"
| "request_loop (Suc n) out s =
     (case parse_string s of None \<Rightarrow> (RPE_InvalidJson, out, s) | Some (key, s1) \<Rightarrow>
      case expect (CHR '':'') (skip_ws s1) of None \<Rightarrow> (RPE_InvalidJson, out, s) | Some s2 \<Rightarrow>
      case request_field key out s2 of Inl e \<Rightarrow> (e, out, s) | Inr (out', s3) \<Rightarrow>
      case member_end s3 of None \<Rightarrow> (RPE_InvalidJson, out', s) | Some (fin, s4) \<Rightarrow>
        if fin then (RPE_None, out', s4) else request_loop n out' s4)"

definition parse_request :: "string \<Rightarrow> RequestParseError \<times> ParsedRequest" where
  "parse_request text =
     (case expect (CHR ''{'') (skip_ws text) of
        None \<Rightarrow> (RPE_InvalidJson, ParsedRequest_default)
      | Some s \<Rightarrow>
          if s \<noteq> [] \<and> hd s = CHR ''}'' then (RPE_MissingRequestId, ParsedRequest_default)
          else case request_loop (Suc (length s)) ParsedRequest_default s of (e, out, s') \<Rightarrow>
            if e \<noteq> RPE_None then (e, out)
            else if skip_ws s' \<noteq> [] then (RPE_InvalidJson, out)
            else if \<not> pr_have_request_id out then (RPE_MissingRequestId, out)
            else if \<not> pr_have_method out then (RPE_MissingMethod, out)
            else (RPE_None, out))"

fun request_error_message :: "RequestParseError \<Rightarrow> string" where
  "request_error_message RPE_None = ''none''"
| "request_error_message RPE_InvalidJson = ''REQUEST payload is invalid JSON''"
| "request_error_message RPE_DuplicateRequestId = ''requestId must appear exactly once''"
| "request_error_message RPE_DuplicateMethod = ''method must appear exactly once''"
| "request_error_message RPE_DuplicateParams = ''params must appear at most once''"
| "request_error_message RPE_InvalidRequestId = ''requestId must be a non-zero uint64 integer''"
| "request_error_message RPE_InvalidMethod = ''method must be a non-empty string''"
| "request_error_message RPE_InvalidParams = ''params must be a JSON object''"
| "request_error_message RPE_MissingRequestId = ''requestId is required''"
| "request_error_message RPE_MissingMethod = ''method is required''"

section \<open>Session\<close>

datatype SessionState = AwaitHello | Ready | Closed

datatype ServerAction =
  Act_None | EmitEventsSubscribed | SendAuthoritativeSnapshot | DispatchBusinessRequest

record HandleResult =
  hr_response :: "u8 list"
  hr_close_after_send :: bool
  hr_server_action :: ServerAction
  hr_action_request_id :: u64
  hr_action_method :: string
  hr_action_params_json :: string

definition HandleResult_default :: HandleResult where
  "HandleResult_default =
     \<lparr> hr_response = [], hr_close_after_send = False, hr_server_action = Act_None,
       hr_action_request_id = 0, hr_action_method = [], hr_action_params_json = ''{}'' \<rparr>"

definition handle_result :: "u8 list \<Rightarrow> bool \<Rightarrow> HandleResult" where
  "handle_result response close =
     HandleResult_default\<lparr> hr_response := response, hr_close_after_send := close \<rparr>"

record Session =
  ss_generation :: u64
  ss_session_id :: string
  ss_state :: SessionState
  ss_events_subscribed :: bool

definition new_session :: "u64 \<Rightarrow> string \<Rightarrow> Session" where
  "new_session generation session_id =
     \<lparr> ss_generation = (if generation = 0 then 1 else generation), ss_session_id = session_id,
       ss_state = AwaitHello, ss_events_subscribed = False \<rparr>"

definition encode_json :: "MessageType \<Rightarrow> string \<Rightarrow> u8 list" where
  "encode_json type payload = (case encode_frame type payload of (error, encoded) \<Rightarrow>
     if error \<noteq> CE_None then [] else encoded)"

definition error_result :: "string \<Rightarrow> string \<Rightarrow> bool \<Rightarrow> Session \<Rightarrow> HandleResult \<times> Session" where
  \<open>error_result code msg close_after_send s =
     (handle_result (encode_json Msg_Error
        (''{"code":"'' @ code @ ''","message":"'' @ msg @ ''"}'')) close_after_send,
      if close_after_send then s\<lparr> ss_state := Closed \<rparr> else s)\<close>

definition ready_result :: "Session \<Rightarrow> HandleResult" where
  \<open>ready_result s = handle_result (encode_json Msg_Ready
     (''{"version":1,"service":"network_service","sessionId":"'' @ ss_session_id s
      @ ''","generation":'' @ show_u64 (ss_generation s)
      @ '',"capabilities":["request-response","events","snapshot-rebase","network-control"]}'')) False\<close>

definition response_success :: "u64 \<Rightarrow> string \<Rightarrow> HandleResult" where
  \<open>response_success request_id result_json = handle_result (encode_json Msg_Response
     (''{"requestId":'' @ show_u64 request_id @ '',"status":200,"result":'' @ result_json @ ''}'')) False\<close>

definition response_error :: "u64 \<Rightarrow> int \<Rightarrow> string \<Rightarrow> string \<Rightarrow> HandleResult" where
  \<open>response_error request_id status code msg = handle_result (encode_json Msg_Response
     (''{"requestId":'' @ show_u64 request_id @ '',"status":'' @ show_int status
      @ '',"error":{"code":"'' @ code @ ''","message":"'' @ msg @ ''"}}'')) False\<close>

definition handle_request :: "string \<Rightarrow> Session \<Rightarrow> HandleResult \<times> Session" where
  \<open>handle_request payload s =
     (case parse_request payload of (parse_error, request) \<Rightarrow>
        if parse_error \<noteq> RPE_None then
          (if pr_have_request_id request \<and> parse_error \<noteq> RPE_DuplicateRequestId
              \<and> parse_error \<noteq> RPE_InvalidRequestId
           then (response_error (pr_request_id request) 400 ''INVALID_REQUEST''
                   (request_error_message parse_error), s)
           else error_result ''INVALID_REQUEST_ID'' (request_error_message parse_error) False s)
        else if pr_method request = ''network.ping'' then
          (response_success (pr_request_id request)
             ''{"service":"network_service","protocolVersion":1}'', s)
        else if pr_method request = ''network.snapshot'' then
          (HandleResult_default\<lparr> hr_server_action := SendAuthoritativeSnapshot,
             hr_action_request_id := pr_request_id request \<rparr>, s)
        else if pr_method request = ''network.events.subscribe'' then
          (let first_subscription = \<not> ss_events_subscribed s;
               result = response_success (pr_request_id request) ''{"subscribed":true}'' in
           (if first_subscription then result\<lparr> hr_server_action := EmitEventsSubscribed \<rparr> else result,
            s\<lparr> ss_events_subscribed := True \<rparr>))
        else
          (HandleResult_default\<lparr> hr_server_action := DispatchBusinessRequest,
             hr_action_request_id := pr_request_id request, hr_action_method := pr_method request,
             hr_action_params_json := pr_params_json request \<rparr>, s))\<close>

definition handle_frame :: "Frame \<Rightarrow> Session \<Rightarrow> HandleResult \<times> Session" where
  "handle_frame frame s =
     (if ss_state s = Closed then (handle_result [] True, s)
      else if ss_state s = AwaitHello then
        (if fh_type (fr_header frame) \<noteq> Msg_Hello then
           error_result ''SESSION_NOT_READY'' ''HELLO required before REQUEST'' True s
         else case parse_hello_versions (fr_payload frame) of
           None \<Rightarrow> error_result ''INVALID_HELLO'' ''HELLO payload is invalid'' True s
         | Some (min_version, max_version) \<Rightarrow>
             if min_version > ucast kProtocolVersion \<or> max_version < ucast kProtocolVersion then
               error_result ''UNSUPPORTED_VERSION''
                 ''protocol version 1 is not supported by client range'' True s
             else (ready_result s, s\<lparr> ss_state := Ready \<rparr>))
      else if fh_type (fr_header frame) = Msg_Request then handle_request (fr_payload frame) s
      else error_result ''PROTOCOL_VIOLATION'' ''unexpected client frame for READY session'' True s)"

section \<open>Fuel\<close>

lemma expect_length: "expect c s = Some r \<Longrightarrow> length r < length s"
  using skip_ws_length by (auto simp: expect_def less_Suc_eq_le split: list.splits if_splits)

lemma member_end_length: "member_end s = Some (f, r) \<Longrightarrow> length r < length s"
proof -
  assume "member_end s = Some (f, r)"
  then obtain c t where w: "skip_ws s = c # t" and "r = t \<or> r = skip_ws t"
    by (auto simp: member_end_def split: list.splits if_splits)
  then show ?thesis using skip_ws_tail [OF w] skip_ws_length [of t] by auto
qed

lemma skip_value_length: "skip_value s d = Some r \<Longrightarrow> length r \<le> length s"
  unfolding skip_value_def by (rule shrinkingD [OF skip_levels_shrinking])

lemma parse_string_length: "parse_string s = Some (v, r) \<Longrightarrow> length r < length s"
  by (auto simp: parse_string_def split: list.splits if_splits dest: string_body_length)

lemma uint64_loop_length: "uint64_loop w s = Some (v, r) \<Longrightarrow> length r \<le> length s"
  by (induction w s rule: uint64_loop.induct) (auto simp: Let_def split: if_splits)

lemma parse_uint64_length: "parse_uint64 s = Some (v, r) \<Longrightarrow> length r \<le> length s"
  by (auto simp: parse_uint64_def simp del: uint64_loop.simps split: list.splits if_splits
      dest: uint64_loop_length)

lemma hello_field_length: "hello_field k v s = Some (v', r) \<Longrightarrow> length r \<le> length s"
  by (auto simp: hello_field_def split: if_splits option.splits
      dest: parse_uint64_length skip_value_length)

lemma request_field_length: "request_field k out s = Inr (out', r) \<Longrightarrow> length r \<le> length s"
  by (auto simp: request_field_def request_id_field_def method_field_def params_field_def
      split: if_splits option.splits dest: parse_uint64_length skip_value_length parse_string_length)

lemma hello_loop_fuel:
  "length s < n \<Longrightarrow> length s < k \<Longrightarrow> hello_loop n v s = hello_loop k v s"
proof (induction n arbitrary: v s k)
  case (Suc n)
  then obtain k' where k: "k = Suc k'" by (cases k) auto
  have "hello_loop n v' s4 = hello_loop k' v' s4"
    if "parse_string s = Some (key, s1)" "expect (CHR '':'') (skip_ws s1) = Some s2"
      "hello_field key v s2 = Some (v', s3)" "member_end s3 = Some (f, s4)" for key s1 s2 v' s3 f s4
  proof (rule Suc.IH)
    have "length s4 < length s"
      using parse_string_length [OF that(1)] skip_ws_length [of s1] expect_length [OF that(2)]
        hello_field_length [OF that(3)] member_end_length [OF that(4)] by linarith
    then show "length s4 < n" and "length s4 < k'" using Suc.prems k by linarith+
  qed
  then show ?case by (auto simp: k split: option.splits prod.splits)
qed simp

lemma request_loop_fuel:
  "length s < n \<Longrightarrow> length s < k \<Longrightarrow> request_loop n out s = request_loop k out s"
proof (induction n arbitrary: out s k)
  case (Suc n)
  then obtain k' where k: "k = Suc k'" by (cases k) auto
  have "request_loop n out' s4 = request_loop k' out' s4"
    if "parse_string s = Some (key, s1)" "expect (CHR '':'') (skip_ws s1) = Some s2"
      "request_field key out s2 = Inr (out', s3)" "member_end s3 = Some (f, s4)" for key s1 s2 out' s3 f s4
  proof (rule Suc.IH)
    have "length s4 < length s"
      using parse_string_length [OF that(1)] skip_ws_length [of s1] expect_length [OF that(2)]
        request_field_length [OF that(3)] member_end_length [OF that(4)] by linarith
    then show "length s4 < n" and "length s4 < k'" using Suc.prems k by linarith+
  qed
  then show ?case by (auto simp: k split: option.splits prod.splits sum.splits)
qed simp

section \<open>Parsed requests\<close>

lemma request_loop_id:
  "request_loop n out s = (e, out', r) \<Longrightarrow> (pr_have_request_id out \<longrightarrow> pr_request_id out \<noteq> 0) \<Longrightarrow>
   pr_have_request_id out' \<longrightarrow> pr_request_id out' \<noteq> 0"
proof (induction n arbitrary: out s)
  case (Suc n)
  have f: "pr_have_request_id o' \<longrightarrow> pr_request_id o' \<noteq> 0"
    if "request_field key out s2 = Inr (o', s3)" for key s2 o' s3
    using that Suc.prems(2)
    by (auto simp: request_field_def request_id_field_def method_field_def params_field_def
        split: if_splits option.splits)
  show ?case
    using Suc.prems Suc.IH f
    by (auto split: option.splits prod.splits sum.splits if_splits)
qed auto

lemma parse_request_id:
  assumes "parse_request p = (e, out)"
  shows "pr_have_request_id out \<longrightarrow> pr_request_id out \<noteq> 0"
    and "e = RPE_None \<longrightarrow> pr_have_request_id out \<and> pr_have_method out"
proof -
  have d: "pr_have_request_id ParsedRequest_default \<longrightarrow> pr_request_id ParsedRequest_default \<noteq> 0"
    by (simp add: ParsedRequest_default_def)
  show "pr_have_request_id out \<longrightarrow> pr_request_id out \<noteq> 0"
    using assms request_loop_id [OF _ d] d
    by (auto simp: parse_request_def simp del: request_loop.simps
        split: option.splits if_splits prod.splits)
  show "e = RPE_None \<longrightarrow> pr_have_request_id out \<and> pr_have_method out"
    using assms by (auto simp: parse_request_def simp del: request_loop.simps
        split: option.splits if_splits prod.splits)
qed

section \<open>Responses fit a frame\<close>

lemma encode_json_nonempty: "length p \<le> kMaxPayloadBytes \<Longrightarrow> encode_json t p \<noteq> []"
  using encode_frame_nonempty [of p t] by (auto simp: encode_json_def encode_frame_eq)

lemma length_request_error_message: "length (request_error_message e) \<le> 50"
  by (cases e) simp_all

lemma response_success_sends:
  "length result \<le> 1000 \<Longrightarrow> hr_response (response_success i result) \<noteq> []"
  using length_show_u64 [of i]
  by (auto simp: response_success_def handle_result_def kMaxPayloadBytes_def intro!: encode_json_nonempty)

lemma response_error_sends:
  "length code \<le> 1000 \<Longrightarrow> length msg \<le> 1000 \<Longrightarrow> hr_response (response_error i 400 code msg) \<noteq> []"
  using length_show_u64 [of i] length_show_nat [of 400 2]
  by (auto simp: response_error_def handle_result_def kMaxPayloadBytes_def show_int_def
      intro!: encode_json_nonempty)

lemma error_result_sends:
  "length code \<le> 1000 \<Longrightarrow> length msg \<le> 1000 \<Longrightarrow> hr_response (fst (error_result code msg c s)) \<noteq> []"
  by (auto simp: error_result_def handle_result_def kMaxPayloadBytes_def intro!: encode_json_nonempty)

lemma result_fields [simp]:
  "hr_server_action (handle_result u c) = Act_None" "hr_close_after_send (handle_result u c) = c"
  "hr_server_action (response_success i x) = Act_None" "hr_close_after_send (response_success i x) = False"
  "hr_server_action (response_error i st x y) = Act_None" "hr_close_after_send (response_error i st x y) = False"
  "hr_server_action (ready_result s) = Act_None" "hr_close_after_send (ready_result s) = False"
  "hr_server_action (fst (error_result x y c s)) = Act_None"
  "hr_close_after_send (fst (error_result x y c s)) = c"
  "snd (error_result x y c s) = (if c then s\<lparr> ss_state := Closed \<rparr> else s)"
  by (simp_all add: handle_result_def HandleResult_default_def response_success_def
      response_error_def ready_result_def error_result_def)

lemma error_result_pair: "error_result x y c s = (r, s') \<Longrightarrow>
   hr_server_action r = Act_None \<and> hr_close_after_send r = c \<and> s' = (if c then s\<lparr> ss_state := Closed \<rparr> else s)"
  using result_fields(9-11) [of x y c s] by (metis fst_conv snd_conv)

section \<open>The abstract protocol\<close>

text \<open>What the session promises of its states, as a relation on the phase and the
  subscription flag, labelled with what arrives (a HELLO whose version range includes 1, a REQUEST,
  or any other frame), the server action and whether the connection is to be closed.\<close>

datatype arrival = Good_hello | Some_request | Other_frame

inductive protocol_step :: "SessionState \<times> bool \<Rightarrow> arrival \<Rightarrow> ServerAction \<Rightarrow> bool \<Rightarrow> SessionState \<times> bool \<Rightarrow> bool" where
  hello_accepted: "protocol_step (AwaitHello, sub) Good_hello Act_None False (Ready, sub)"
| hello_required: "m \<noteq> Good_hello \<Longrightarrow> protocol_step (AwaitHello, sub) m Act_None True (Closed, sub)"
| answered: "protocol_step (Ready, sub) Some_request Act_None False (Ready, sub)"
| delegated: "a \<in> {SendAuthoritativeSnapshot, DispatchBusinessRequest} \<Longrightarrow>
    protocol_step (Ready, sub) Some_request a False (Ready, sub)"
| subscribed_first: "protocol_step (Ready, False) Some_request EmitEventsSubscribed False (Ready, True)"
| violation: "m \<noteq> Some_request \<Longrightarrow> protocol_step (Ready, sub) m Act_None True (Closed, sub)"
| closed: "protocol_step (Closed, sub) m Act_None True (Closed, sub)"

inductive_cases protocol_stepE: "protocol_step s m a c s'"
inductive_simps protocol_step_closed: "protocol_step (Closed, sub) m a c s'"

definition arrives :: "Frame \<Rightarrow> arrival" where
  "arrives f = (if fh_type (fr_header f) = Msg_Request then Some_request
     else if fh_type (fr_header f) = Msg_Hello \<and>
       (case parse_hello_versions (fr_payload f) of None \<Rightarrow> False | Some (mn, mx) \<Rightarrow> mn \<le> 1 \<and> 1 \<le> mx) then Good_hello
     else Other_frame)"

definition phase :: "Session \<Rightarrow> SessionState \<times> bool" where
  "phase s = (ss_state s, ss_events_subscribed s)"

lemma handle_request_step:
  assumes "ss_state s = Ready" and "handle_request p s = (r, s')"
  shows "protocol_step (phase s) Some_request (hr_server_action r) (hr_close_after_send r) (phase s')"
  using assms
  by (cases "ss_events_subscribed s")
    (auto simp: handle_request_def phase_def Let_def HandleResult_default_def
      split: prod.splits if_splits dest!: error_result_pair intro: protocol_step.intros)

lemma handle_frame_step:
  assumes "handle_frame f s = (r, s')"
  shows "protocol_step (phase s) (arrives f) (hr_server_action r) (hr_close_after_send r) (phase s')"
proof (cases "ss_state s = Ready \<and> fh_type (fr_header f) = Msg_Request")
  case True
  then show ?thesis using assms handle_request_step by (simp add: handle_frame_def arrives_def)
next
  case False
  then show ?thesis
    using assms
    by (cases "ss_state s")
      (auto simp: handle_frame_def arrives_def phase_def kProtocolVersion_def one_le_u64 split: if_splits option.splits prod.splits
        dest!: error_result_pair intro: protocol_step.intros)
qed

lemma handle_frame_hello:
  assumes "handle_frame f s = (r, s')" and "ss_state s = AwaitHello" and "ss_state s' = Ready"
  shows "fh_type (fr_header f) = Msg_Hello \<and>
    (\<exists>mn mx. parse_hello_versions (fr_payload f) = Some (mn, mx) \<and> mn \<le> 1 \<and> 1 \<le> mx)"
  using assms by (auto simp: handle_frame_def kProtocolVersion_def one_le_u64
      split: if_splits option.splits prod.splits dest!: error_result_pair)

fun session_run :: "Frame list \<Rightarrow> Session \<Rightarrow> HandleResult list \<times> Session" where
  "session_run [] s = ([], s)"
| "session_run (f # fs) s =
     (case handle_frame f s of (r, s1) \<Rightarrow>
      case session_run fs s1 of (rs, s2) \<Rightarrow> (r # rs, s2))"

lemma session_run_closed:
  "ss_state s = Closed \<Longrightarrow> session_run fs s = (replicate (length fs) (handle_result [] True), s)"
  by (induction fs) (simp_all add: handle_frame_def)

lemma session_run_subscribed:
  "session_run fs s = (rs, s') \<Longrightarrow>
   length (filter (\<lambda>r. hr_server_action r = EmitEventsSubscribed) rs) \<le> (if ss_events_subscribed s then 0 else 1)"
proof (induction fs arbitrary: s rs)
  case (Cons f fs)
  obtain r s1 rs1 where f: "handle_frame f s = (r, s1)" and "session_run fs s1 = (rs1, s')" and "rs = r # rs1"
    using Cons.prems by (auto split: prod.splits)
  with Cons.IH [of s1 rs1] handle_frame_step [OF f] show ?case
    by (auto simp: phase_def elim!: protocol_stepE split: if_splits)
qed simp

lemma session_run_length: "session_run fs s = (rs, s') \<Longrightarrow> length rs = length fs"
  by (induction fs arbitrary: s rs) (auto split: prod.splits)

section \<open>The request format of a client\<close>

text \<open>The text the release probe sends (\<^verbatim>\<open>tools/rc/network_service_rc_probe.cpp\<close>).\<close>

definition probe_request :: "u64 \<Rightarrow> string \<Rightarrow> string \<Rightarrow> string" where
  \<open>probe_request request_id method params =
     ''{"requestId":'' @ show_u64 request_id @ '',"method":"'' @ method @ ''","params":'' @ params @ ''}''\<close>

lemma expect_hit [simp]: "expect c (c # s) = Some (skip_ws s)"
  by (simp add: expect_def)

lemma member_end_hit [simp]:
  "member_end (CHR ''}'' # s) = Some (True, s)" "member_end (CHR '','' # s) = Some (False, skip_ws s)"
  by (simp_all add: member_end_def)

lemma parse_string_quoted: "plain k \<Longrightarrow> parse_string (quoted k @ r) = Some (k, r)"
  using repr.parse_plain [of k r] by (simp add: quoted_def json_escape_def)

lemma request_loop_member:
  assumes "plain key" and "skip_ws v = v" and "request_field key out v = Inr (out', c # t)"
    and "c = CHR '','' \<or> c = CHR ''}''"
  shows "request_loop (Suc n) out (quoted key @ CHR '':'' # v) =
    (if c = CHR ''}'' then (RPE_None, out', t) else request_loop n out' (skip_ws t))"
  using assms by (auto simp: parse_string_quoted)

lemma show_u64_head: "\<exists>c t. show_u64 w = c # t \<and> isdigit c"
  using show_nat_head [of "unat w"] by (auto simp: show_u64_def)

lemma skip_ws_show_u64 [simp]: "skip_ws (show_u64 w @ r) = show_u64 w @ r"
  using show_u64_head [of w] digit_head_facts by fastforce

lemma delim_facts [simp]: "\<not> isdigit (CHR '','')" "\<not> isdigit (CHR ''}'')"
  by (simp_all add: chr_defs)

lemma request_id_printed:
  assumes "w \<noteq> 0" and "\<not> pr_have_request_id out"
  shows "request_field ''requestId'' out (show_u64 w @ CHR '','' # t) =
    Inr (out\<lparr> pr_request_id := w, pr_have_request_id := True \<rparr>, CHR '','' # t)"
proof -
  have "show_u64 w \<noteq> []" using show_u64_head [of w] by auto
  then show ?thesis
    using assms parse_show_u64 [of "CHR '','' # t" w] by (simp add: request_field_def request_id_field_def)
qed

lemma method_printed:
  assumes "m \<noteq> []" and "plain m" and "\<not> pr_have_method out"
  shows "request_field ''method'' out (quoted m @ CHR '','' # t) =
    Inr (out\<lparr> pr_method := m, pr_have_method := True \<rparr>, CHR '','' # t)"
  using assms by (simp add: request_field_def method_field_def parse_string_quoted)

lemma params_printed:
  assumes "json_depth (JObject fs) \<le> 16" and "\<not> pr_have_params out"
  shows "request_field ''params'' out (print_json (JObject fs) @ CHR ''}'' # t) =
    Inr (out\<lparr> pr_params_json := print_json (JObject fs), pr_have_params := True \<rparr>, CHR ''}'' # t)"
proof -
  have "skip_value (print_json (JObject fs) @ CHR ''}'' # t) 1 = Some (CHR ''}'' # t)"
    unfolding skip_value_def using assms(1) by (intro skip_print_json) (simp_all add: kMaxJsonDepth_def)
  moreover have "hd (print_json (JObject fs) @ CHR ''}'' # t) = CHR ''{''" by simp
  ultimately show ?thesis
    using assms(2) by (simp add: request_field_def params_field_def del: print_json.simps)
qed

lemma plain_keys: "plain ''requestId''" "plain ''method''" "plain ''params''"
  by (simp_all add: plain_def read_back_def chr_defs)

lemma quoted_keys:
  \<open>quoted ''requestId'' = ''"requestId"''\<close> \<open>quoted ''method'' = ''"method"''\<close>
  \<open>quoted ''params'' = ''"params"''\<close>
  by (simp_all add: quoted_def json_escape_def json_escape_char_def chr_defs)

lemma parse_request_object:
  assumes "skip_ws t = t" and "t \<noteq> []" and "hd t \<noteq> CHR ''}''"
    and "request_loop (Suc (length t)) ParsedRequest_default t = (RPE_None, out, [])"
    and "pr_have_request_id out" and "pr_have_method out"
  shows "parse_request (CHR ''{'' # t) = (RPE_None, out)"
proof -
  have "skip_ws (CHR ''{'' # t) = CHR ''{'' # t" by (simp add: chr_defs)
  then show ?thesis using assms by (simp add: parse_request_def del: request_loop.simps)
qed

lemma parse_probe_request:
  assumes "w \<noteq> 0" and "m \<noteq> []" and "plain m" and "json_escape m = m"
    and "json_depth (JObject fs) \<le> 16"
  shows "parse_request (probe_request w m (print_json (JObject fs))) =
    (RPE_None, \<lparr> pr_request_id = w, pr_method = m, pr_params_json = print_json (JObject fs),
       pr_have_request_id = True, pr_have_method = True, pr_have_params = True \<rparr>)"
proof -
  let ?p = "print_json (JObject fs) @ ''}''"
  let ?m = "quoted ''params'' @ CHR '':'' # ?p"
  let ?i = "quoted ''method'' @ CHR '':'' # quoted m @ CHR '','' # ?m"
  let ?t = "quoted ''requestId'' @ CHR '':'' # show_u64 w @ CHR '','' # ?i"
  have req: "probe_request w m (print_json (JObject fs)) = CHR ''{'' # ?t"
    using assms(4) by (simp add: probe_request_def quoted_keys quoted_def [of m])
  obtain n where n: "Suc (length ?t) = Suc (Suc (Suc n))" by (simp add: quoted_keys)
  have "request_loop (Suc (length ?t)) ParsedRequest_default ?t =
      request_loop (Suc (Suc n)) (ParsedRequest_default\<lparr> pr_request_id := w, pr_have_request_id := True \<rparr>) ?i"
    unfolding n
    by (subst request_loop_member [OF plain_keys(1) skip_ws_show_u64 request_id_printed])
      (simp_all add: assms(1) ParsedRequest_default_def)
  also have "\<dots> = request_loop (Suc n) (ParsedRequest_default\<lparr> pr_request_id := w,
      pr_have_request_id := True, pr_method := m, pr_have_method := True \<rparr>) ?m"
    by (subst request_loop_member [OF plain_keys(2) skip_ws_quoted method_printed])
      (simp_all add: assms ParsedRequest_default_def)
  also have "\<dots> = (RPE_None, ParsedRequest_default\<lparr> pr_request_id := w,
      pr_have_request_id := True, pr_method := m, pr_have_method := True,
      pr_params_json := print_json (JObject fs), pr_have_params := True \<rparr>, [])"
    by (subst request_loop_member [OF plain_keys(3) skip_ws_print_json params_printed])
      (simp_all add: assms ParsedRequest_default_def del: print_json.simps json_depth.simps)
  finally have loop: "request_loop (Suc (length ?t)) ParsedRequest_default ?t = (RPE_None,
      ParsedRequest_default\<lparr> pr_request_id := w, pr_have_request_id := True, pr_method := m,
      pr_have_method := True, pr_params_json := print_json (JObject fs), pr_have_params := True \<rparr>, [])" .
  have "skip_ws ?t = ?t" and "?t \<noteq> []" and "hd ?t \<noteq> CHR ''}''" by (simp_all add: quoted_def chr_defs)
  from parse_request_object [OF this loop] show ?thesis
    unfolding req by (simp add: ParsedRequest_default_def)
qed

section \<open>Properties\<close>

text \<open>C10: \<open>handle_frame\<close> refines the abstract protocol: what arrives, the phase before and after, the
  server action and the close flag are a step of \<open>protocol_step\<close>. Only a HELLO with an acceptable version range makes a
  session ready, only a REQUEST keeps it so or causes an action, and anything else closes it.\<close>
theorem session_refines_protocol:
  "handle_frame f s = (r, s') \<Longrightarrow>
   protocol_step (phase s) (arrives f) (hr_server_action r) (hr_close_after_send r) (phase s')"
  by (rule handle_frame_step)

theorem session_refines_protocol_witness:
  "protocol_step (AwaitHello, False) Some_request Act_None True (Closed, False)"
proof -
  let ?s = "new_session 5 ''s1''"
  have "handle_frame (mk_frame Msg_Request ''x'') ?s =
      (fst (error_result ''SESSION_NOT_READY'' ''HELLO required before REQUEST'' True ?s), ?s\<lparr> ss_state := Closed \<rparr>)"
    by (simp add: handle_frame_def mk_frame_def mk_header_def new_session_def error_result_def)
  from session_refines_protocol [OF this] show ?thesis
    by (simp add: phase_def new_session_def arrives_def mk_frame_def mk_header_def)
qed

text \<open>In every run of a fresh session, a server action (snapshot, dispatch or event
  subscription) happens only if the very first frame was a HELLO whose version range
  includes 1.\<close>
theorem session_actions_need_hello:
  assumes "session_run fs (new_session g sid) = (rs, s')"
    and "r \<in> set rs" and "hr_server_action r \<noteq> Act_None"
  shows "fs \<noteq> [] \<and> fh_type (fr_header (hd fs)) = Msg_Hello \<and>
    (\<exists>mn mx. parse_hello_versions (fr_payload (hd fs)) = Some (mn, mx) \<and> mn \<le> 1 \<and> 1 \<le> mx)"
proof (cases fs)
  case Nil
  with assms show ?thesis by simp
next
  case (Cons f fs')
  let ?s = "new_session g sid"
  obtain r1 s1 rs1 where f: "handle_frame f ?s = (r1, s1)" and run: "session_run fs' s1 = (rs1, s')"
    and rs: "rs = r1 # rs1"
    using assms(1) Cons by (auto split: prod.splits)
  have start: "ss_state ?s = AwaitHello" by (simp add: new_session_def)
  have step: "hr_server_action r1 = Act_None \<and> (ss_state s1 = Ready \<or> ss_state s1 = Closed)"
    using handle_frame_step [OF f] start by (auto simp: phase_def elim: protocol_stepE)
  have "ss_state s1 \<noteq> Closed"
  proof
    assume "ss_state s1 = Closed"
    with session_run_closed run have "\<forall>x\<in>set rs1. x = handle_result [] True" by fastforce
    then show False using assms(2,3) rs step by auto
  qed
  with step have "ss_state s1 = Ready" by blast
  with handle_frame_hello [OF f start] Cons show ?thesis by simp
qed

lemma hello_example: \<open>parse_hello_versions ''{"minVersion":1,"maxVersion":2}'' = Some (1, 2)\<close>
  by code_simp

lemma request_example:
  \<open>parse_request ''{"requestId":7,"method":"network.snapshot"}'' =
     (RPE_None, \<lparr> pr_request_id = 7, pr_method = ''network.snapshot'', pr_params_json = ''{}'',
        pr_have_request_id = True, pr_have_method = True, pr_have_params = False \<rparr>)\<close>
  by code_simp

theorem session_actions_need_hello_witness:
  \<open>\<exists>mn mx. parse_hello_versions ''{"minVersion":1,"maxVersion":2}'' = Some (mn, mx) \<and> mn \<le> 1 \<and> 1 \<le> mx\<close>
proof -
  let ?h = \<open>mk_frame Msg_Hello ''{"minVersion":1,"maxVersion":2}''\<close>
  let ?q = \<open>mk_frame Msg_Request ''{"requestId":7,"method":"network.snapshot"}''\<close>
  let ?r = "HandleResult_default\<lparr> hr_server_action := SendAuthoritativeSnapshot, hr_action_request_id := 7 \<rparr>"
  let ?s = "new_session 5 ''s1''"
  have "session_run [?h, ?q] ?s = ([ready_result ?s, ?r], ?s\<lparr> ss_state := Ready \<rparr>)"
    by (simp add: handle_frame_def handle_request_def mk_frame_def mk_header_def new_session_def
        hello_example request_example kProtocolVersion_def)
  from session_actions_need_hello [OF this, of ?r] show ?thesis
    by (simp add: mk_frame_def HandleResult_default_def)
qed

text \<open>C11: over the whole life of a session the subscription event is emitted at most once,
  and once a result has asked to close, every later frame gets an empty, closing result
  without effect.\<close>
theorem session_subscribe_once_and_closed_final:
  assumes "session_run fs (new_session g sid) = (rs, s')"
  shows "length (filter (\<lambda>r. hr_server_action r = EmitEventsSubscribed) rs) \<le> 1
    \<and> (\<forall>i j. i < j \<longrightarrow> j < length rs \<longrightarrow> hr_close_after_send (rs ! i) \<longrightarrow> rs ! j = handle_result [] True)"
proof -
  have close: "hr_close_after_send (rs ! i) \<Longrightarrow> i < j \<Longrightarrow> j < length rs \<Longrightarrow> rs ! j = handle_result [] True"
    if "session_run fs s = (rs, s')" for fs s rs i j
    using that
  proof (induction fs arbitrary: s rs i j)
    case (Cons f fs)
    obtain r s1 rs1 where f: "handle_frame f s = (r, s1)" and run: "session_run fs s1 = (rs1, s')"
      and rs: "rs = r # rs1"
      using Cons.prems by (auto split: prod.splits)
    show ?case
    proof (cases i)
      case 0
      with Cons.prems rs have "hr_close_after_send r" by simp
      with handle_frame_step [OF f] have "ss_state s1 = Closed"
        by (auto simp: phase_def elim: protocol_stepE)
      then show ?thesis
        using run Cons.prems rs by (cases j) (auto simp: session_run_closed)
    next
      case (Suc i')
      then show ?thesis using Cons.IH [OF _ _ _ run] Cons.prems rs by (cases j) auto
    qed
  qed simp
  show ?thesis
    using session_run_subscribed [OF assms] close [OF assms] by (auto simp: new_session_def)
qed

theorem session_subscribe_once_and_closed_final_witness:
  "fst (session_run [mk_frame Msg_Request ''x'', mk_frame Msg_Hello ''y''] (new_session 5 ''s1'')) ! 1 = handle_result [] True"
proof -
  let ?fs = "[mk_frame Msg_Request ''x'', mk_frame Msg_Hello ''y'']"
  let ?s = "new_session 5 ''s1''"
  have len: "length (fst (session_run ?fs ?s)) = 2"
    using session_run_length [OF prod.collapse [symmetric], of ?fs ?s] by simp
  have "hr_close_after_send (fst (handle_frame (mk_frame Msg_Request ''x'') ?s))"
    by (simp add: handle_frame_def new_session_def mk_frame_def mk_header_def error_result_def Let_def handle_result_def)
  then have "hr_close_after_send (fst (session_run ?fs ?s) ! 0)"
    by (cases "handle_frame (mk_frame Msg_Request ''x'') ?s") (simp split: prod.splits)
  with session_subscribe_once_and_closed_final [OF prod.collapse [symmetric], of ?fs 5 "''s1''"] len
  show ?thesis by (metis One_nat_def Suc_1 lessI zero_less_one)
qed

text \<open>A REQUEST in a READY session always has an outcome and never ends the session:
  either bytes are sent back or the server is asked for a snapshot or a dispatch under the
  request's own non-zero id.\<close>
theorem session_request_answered:
  assumes "ss_state s = Ready" and "fh_type (fr_header f) = Msg_Request"
    and "handle_frame f s = (r, s')"
  shows "ss_state s' = Ready \<and> \<not> hr_close_after_send r \<and>
    (hr_response r \<noteq> [] \<or>
     (hr_server_action r \<in> {SendAuthoritativeSnapshot, DispatchBusinessRequest}
      \<and> hr_action_request_id r \<noteq> 0
      \<and> hr_action_request_id r = pr_request_id (snd (parse_request (fr_payload f)))))"
proof -
  obtain e q where p: "parse_request (fr_payload f) = (e, q)" by (cases "parse_request (fr_payload f)")
  note id = parse_request_id [OF p]
  have "ss_state s' = Ready \<and> \<not> hr_close_after_send r"
    using assms p by (auto simp: handle_frame_def handle_request_def Let_def HandleResult_default_def
        split: if_splits dest!: error_result_pair)
  moreover have "hr_response r \<noteq> [] \<or>
     (hr_server_action r \<in> {SendAuthoritativeSnapshot, DispatchBusinessRequest}
      \<and> hr_action_request_id r \<noteq> 0 \<and> hr_action_request_id r = pr_request_id q)"
    using assms p id response_success_sends response_error_sends
      error_result_sends [of "''INVALID_REQUEST_ID''" "request_error_message e" False s]
      length_request_error_message [of e]
    by (auto simp: handle_frame_def handle_request_def Let_def split: if_splits)
  ultimately show ?thesis by (auto simp: p)
qed

theorem session_request_answered_witness:
  \<open>hr_action_request_id (fst (handle_frame (mk_frame Msg_Request ''{"requestId":7,"method":"network.snapshot"}'')
     (new_session 5 ''s1'' \<lparr> ss_state := Ready \<rparr>))) \<noteq> 0\<close>
proof -
  let ?f = \<open>mk_frame Msg_Request ''{"requestId":7,"method":"network.snapshot"}''\<close>
  let ?s = "new_session 5 ''s1'' \<lparr> ss_state := Ready \<rparr>"
  let ?r = "HandleResult_default\<lparr> hr_server_action := SendAuthoritativeSnapshot, hr_action_request_id := 7 \<rparr>"
  have h: "handle_frame ?f ?s = (?r, ?s)"
    by (simp add: handle_frame_def handle_request_def mk_frame_def mk_header_def request_example)
  have "hr_response ?r = []" by (simp add: HandleResult_default_def)
  with session_request_answered [OF _ _ h] h show ?thesis by (simp add: mk_frame_def mk_header_def)
qed

text \<open>C12: a business request in the client's format reaches the dispatcher with exactly the
  id, the method and the parameter text the client sent, for every 64-bit id and every
  parameter object nested up to 16 levels.\<close>
theorem session_dispatch_roundtrip:
  assumes "ss_state s = Ready" and "w \<noteq> 0" and "m \<noteq> []" and "plain m" and "json_escape m = m"
    and "m \<notin> {''network.ping'', ''network.snapshot'', ''network.events.subscribe''}"
    and "json_depth (JObject fs) \<le> 16"
  shows "handle_frame (mk_frame Msg_Request (probe_request w m (print_json (JObject fs)))) s =
    (HandleResult_default\<lparr> hr_server_action := DispatchBusinessRequest, hr_action_request_id := w,
       hr_action_method := m, hr_action_params_json := print_json (JObject fs) \<rparr>, s)"
  using assms parse_probe_request [OF assms(2-5,7)]
  by (simp add: handle_frame_def handle_request_def mk_frame_def mk_header_def del: print_json.simps)

theorem session_dispatch_roundtrip_witness:
  "fst (handle_frame (mk_frame Msg_Request (probe_request 42 ''wifi.connect''
      (print_json (JObject [(''ssid'', JString ''lab''), (''hidden'', JBool True)]))))
      (new_session 5 ''s1'' \<lparr> ss_state := Ready \<rparr>)) =
    HandleResult_default\<lparr> hr_server_action := DispatchBusinessRequest, hr_action_request_id := 42,
       hr_action_method := ''wifi.connect'',
       hr_action_params_json := print_json (JObject [(''ssid'', JString ''lab''), (''hidden'', JBool True)]) \<rparr>"
proof -
  have "plain ''wifi.connect''" and "json_escape ''wifi.connect'' = ''wifi.connect''" by code_simp+
  then show ?thesis
    by (subst session_dispatch_roundtrip) simp_all
qed

end
