(* ===== verification/Network_State.thy ===== *)
theory Network_State
  imports Contracts
begin

text \<open>
  The Service truth model: normalisation of raw platform facts and the legacy Wi-Fi state
  (\<^verbatim>\<open>src/service/network_state.cpp\<close>), and the detector of semantic changes
  (\<^verbatim>\<open>src/service/network_state_change_detector.cpp\<close>). The theorems relate the normalised
  snapshot to the raw facts (readiness, choice of the primary interface) and say exactly
  which differences the detector reports.
\<close>

section \<open>Normalisation\<close>

record WifiRuntimeFact =
  wr_l2_state :: WifiL2State
  wr_dhcp_state :: DhcpClientState
  wr_failure_reason :: string

definition wifi_l2_connected :: "WifiL2State \<Rightarrow> bool" where
  "wifi_l2_connected state \<longleftrightarrow> state = L2_Connected"

definition dhcp_client_active :: "DhcpClientState \<Rightarrow> bool" where
  "dhcp_client_active state \<longleftrightarrow> state = Dhcp_Starting \<or> state = Dhcp_Running"

fun wifi_l2_state_name :: "WifiL2State \<Rightarrow> string" where
  "wifi_l2_state_name L2_Disabled = ''disabled''"
| "wifi_l2_state_name L2_Disconnected = ''disconnected''"
| "wifi_l2_state_name L2_Associating = ''associating''"
| "wifi_l2_state_name L2_Associated = ''associated''"
| "wifi_l2_state_name L2_Handshake = ''handshake''"
| "wifi_l2_state_name L2_Connected = ''connected''"
| "wifi_l2_state_name L2_Failed = ''failed''"
| "wifi_l2_state_name L2_Unknown = ''unknown''"

fun ip_state_name :: "IpState \<Rightarrow> string" where
  "ip_state_name Ip_Configuring = ''configuring''"
| "ip_state_name Ip_Ready = ''ready''"
| "ip_state_name Ip_None = ''none''"

fun dhcp_client_state_name :: "DhcpClientState \<Rightarrow> string" where
  "dhcp_client_state_name Dhcp_Starting = ''starting''"
| "dhcp_client_state_name Dhcp_Running = ''running''"
| "dhcp_client_state_name Dhcp_Failed = ''failed''"
| "dhcp_client_state_name Dhcp_Idle = ''idle''"

definition normalize_eth :: "InterfaceSnapshot \<Rightarrow> InterfaceSnapshot" where
  "normalize_eth eth =
     (let ip = (if if_has_ip eth then Ip_Ready else Ip_None) in
      eth\<lparr> if_ip_state := ip, if_connected := (if_carrier_up eth \<and> ip = Ip_Ready) \<rparr>)"

definition normalize_wifi :: "WifiRuntimeFact \<Rightarrow> InterfaceSnapshot \<Rightarrow> InterfaceSnapshot" where
  "normalize_wifi w wifi =
     (let compat_live_link = (wr_l2_state w = L2_Unknown \<and> if_has_ip wifi);
          l2_connected = (wifi_l2_connected (wr_l2_state w) \<or> compat_live_link) in
      wifi\<lparr> if_wifi_l2_state := wr_l2_state w, if_connected := l2_connected,
            if_ip_state := (if l2_connected \<and> if_has_ip wifi then Ip_Ready
                            else if l2_connected \<and> dhcp_client_active (wr_dhcp_state w) then Ip_Configuring
                            else Ip_None) \<rparr>)"

definition normalize_network_snapshot :: "WifiRuntimeFact \<Rightarrow> NetworkSnapshot \<Rightarrow> NetworkSnapshot" where
  "normalize_network_snapshot w snapshot =
     (let eth = normalize_eth (ns_eth snapshot);
          wifi = normalize_wifi w (ns_wifi snapshot);
          eth_usable = (if_connected eth \<and> if_has_default_route eth);
          wifi_usable = (if_connected wifi \<and> if_ip_state wifi = Ip_Ready \<and> if_has_default_route wifi);
          primary = (if eth_usable then if_iface eth else []);
          primary' = (if wifi_usable \<and> (\<not> eth_usable \<or> if_route_metric wifi < if_route_metric eth)
                      then if_iface wifi else primary);
          ready = (primary' \<noteq> [] \<and> ns_dns_available snapshot) in
      snapshot\<lparr> ns_eth := eth, ns_wifi := wifi, ns_primary_iface := primary',
                ns_network_ready := ready, ns_online := ready \<rparr>)"

definition legacy_wifi_state :: "NetworkSnapshot \<Rightarrow> WifiRuntimeFact \<Rightarrow> string" where
  "legacy_wifi_state s w =
     (if wr_l2_state w = L2_Failed then ''failed''
      else if wr_failure_reason w \<noteq> [] \<and> if_ip_state (ns_wifi s) \<noteq> Ip_Ready then ''failed''
      else case wr_l2_state w of
        L2_Disabled \<Rightarrow> ''disabled''
      | L2_Disconnected \<Rightarrow> ''disconnected''
      | L2_Associating \<Rightarrow> ''associating''
      | L2_Associated \<Rightarrow> ''associated''
      | L2_Handshake \<Rightarrow> ''handshake''
      | L2_Connected \<Rightarrow>
          if if_ip_state (ns_wifi s) = Ip_Ready \<and> if_has_default_route (ns_wifi s) \<and> ns_dns_available s
          then ''connected''
          else if dhcp_client_active (wr_dhcp_state w) then ''ip_configuring'' else ''associated''
      | _ \<Rightarrow>
          if if_connected (ns_wifi s) \<and> if_ip_state (ns_wifi s) = Ip_Ready
          then (if if_has_default_route (ns_wifi s) \<and> ns_dns_available s
                then ''connected'' else ''ip_configuring'')
          else ''disconnected'')"

section \<open>Change detection\<close>

record NetworkStateChangeSet =
  ch_eth :: bool
  ch_wifi :: bool
  ch_route :: bool
  ch_dns :: bool

definition no_changes :: NetworkStateChangeSet where
  "no_changes = \<lparr> ch_eth = False, ch_wifi = False, ch_route = False, ch_dns = False \<rparr>"

definition changes_any :: "NetworkStateChangeSet \<Rightarrow> bool" where
  "changes_any c \<longleftrightarrow> ch_eth c \<or> ch_wifi c \<or> ch_route c \<or> ch_dns c"

record NetworkStateChangeDetector =
  cd_initialized :: bool
  cd_previous :: NetworkSnapshot

definition NetworkStateChangeDetector_default :: NetworkStateChangeDetector where
  "NetworkStateChangeDetector_default =
     \<lparr> cd_initialized = False, cd_previous = NetworkSnapshot_default \<rparr>"

definition interface_semantically_equal ::
  "InterfaceSnapshot \<Rightarrow> InterfaceSnapshot \<Rightarrow> bool \<Rightarrow> bool \<Rightarrow> bool" where
  "interface_semantically_equal lhs rhs include_wifi_truth include_signal_bars \<longleftrightarrow>
     if_iface lhs = if_iface rhs \<and>
     if_exists lhs = if_exists rhs \<and>
     if_carrier_up lhs = if_carrier_up rhs \<and>
     if_has_ip lhs = if_has_ip rhs \<and>
     if_ip4 lhs = if_ip4 rhs \<and>
     if_netmask4 lhs = if_netmask4 rhs \<and>
     if_has_default_route lhs = if_has_default_route rhs \<and>
     if_gateway4 lhs = if_gateway4 rhs \<and>
     if_route_metric lhs = if_route_metric rhs \<and>
     if_enabled lhs = if_enabled rhs \<and>
     if_connected lhs = if_connected rhs \<and>
     if_ip_state lhs = if_ip_state rhs \<and>
     (include_wifi_truth \<longrightarrow> if_wifi_l2_state lhs = if_wifi_l2_state rhs) \<and>
     if_ssid lhs = if_ssid rhs \<and>
     (include_signal_bars \<longrightarrow> if_signal_bars lhs = if_signal_bars rhs)"

definition observe :: "NetworkSnapshot \<Rightarrow> NetworkStateChangeDetector \<Rightarrow>
    NetworkStateChangeSet \<times> NetworkStateChangeDetector" where
  "observe snapshot d =
     (if \<not> cd_initialized d then
        (no_changes, d\<lparr> cd_previous := snapshot, cd_initialized := True \<rparr>)
      else let p = cd_previous d in
        (\<lparr> ch_eth = (\<not> interface_semantically_equal (ns_eth p) (ns_eth snapshot) False False),
           ch_wifi = (\<not> interface_semantically_equal (ns_wifi p) (ns_wifi snapshot) True True),
           ch_route = (ns_route_policy p \<noteq> ns_route_policy snapshot
             \<or> ns_primary_iface p \<noteq> ns_primary_iface snapshot
             \<or> ns_network_ready p \<noteq> ns_network_ready snapshot
             \<or> ns_online p \<noteq> ns_online snapshot),
           ch_dns = (ns_dns_policy p \<noteq> ns_dns_policy snapshot
             \<or> ns_dns_available p \<noteq> ns_dns_available snapshot
             \<or> ns_dns4 p \<noteq> ns_dns4 snapshot) \<rparr>,
         d\<lparr> cd_previous := snapshot \<rparr>))"

definition detector_reset :: "NetworkStateChangeDetector \<Rightarrow> NetworkStateChangeDetector" where
  "detector_reset d = \<lparr> cd_initialized = False, cd_previous = NetworkSnapshot_default \<rparr>"

section \<open>Specification\<close>

text \<open>Usability in terms of raw facts only.\<close>

definition eth_usable :: "NetworkSnapshot \<Rightarrow> bool" where
  "eth_usable s \<longleftrightarrow> if_carrier_up (ns_eth s) \<and> if_has_ip (ns_eth s) \<and> if_has_default_route (ns_eth s)"

definition wifi_usable :: "WifiRuntimeFact \<Rightarrow> NetworkSnapshot \<Rightarrow> bool" where
  "wifi_usable w s \<longleftrightarrow> wr_l2_state w \<in> {L2_Connected, L2_Unknown}
     \<and> if_has_ip (ns_wifi s) \<and> if_has_default_route (ns_wifi s)"

text \<open>The interfaces that can carry traffic, with name and metric.\<close>

definition usable_ifaces :: "WifiRuntimeFact \<Rightarrow> NetworkSnapshot \<Rightarrow> InterfaceSnapshot list" where
  "usable_ifaces w s = (if eth_usable s then [ns_eth s] else []) @ (if wifi_usable w s then [ns_wifi s] else [])"

text \<open>What a change report is about: everything but the radio level in dBm, the ownership
  marker of the resolver file and the fields that have no meaning for Ethernet.\<close>

definition semantic :: "NetworkSnapshot \<Rightarrow> NetworkSnapshot" where
  "semantic s = s\<lparr>
     ns_eth := (ns_eth s)\<lparr> if_signal_dbm := 0, if_signal_bars := 0, if_wifi_l2_state := L2_Unknown \<rparr>,
     ns_wifi := (ns_wifi s)\<lparr> if_signal_dbm := 0 \<rparr>,
     ns_dns_managed_by_network_service := False \<rparr>"

fun observe_all :: "NetworkSnapshot list \<Rightarrow> NetworkStateChangeDetector \<Rightarrow>
    NetworkStateChangeSet list \<times> NetworkStateChangeDetector" where
  "observe_all [] d = ([], d)"
| "observe_all (s # ss) d =
     (case observe s d of (c, d1) \<Rightarrow> case observe_all ss d1 of (cs, d2) \<Rightarrow> (c # cs, d2))"

lemma normalize_eth_simps [simp]:
  "if_connected (normalize_eth e) = (if_carrier_up e \<and> if_has_ip e)"
  "if_iface (normalize_eth e) = if_iface e"
  "if_has_default_route (normalize_eth e) = if_has_default_route e"
  "if_route_metric (normalize_eth e) = if_route_metric e"
  by (simp_all add: normalize_eth_def Let_def)

lemma normalize_wifi_simps [simp]:
  "if_connected (normalize_wifi w i) \<and> if_ip_state (normalize_wifi w i) = Ip_Ready \<longleftrightarrow>
     wr_l2_state w \<in> {L2_Connected, L2_Unknown} \<and> if_has_ip i"
  "if_iface (normalize_wifi w i) = if_iface i"
  "if_has_default_route (normalize_wifi w i) = if_has_default_route i"
  "if_route_metric (normalize_wifi w i) = if_route_metric i"
  by (auto simp: normalize_wifi_def wifi_l2_connected_def Let_def)

lemma normalize_usable:
  "if_connected (normalize_eth (ns_eth s)) \<and> if_has_default_route (normalize_eth (ns_eth s)) \<longleftrightarrow> eth_usable s"
  "if_connected (normalize_wifi w (ns_wifi s)) \<and> if_ip_state (normalize_wifi w (ns_wifi s)) = Ip_Ready
   \<and> if_has_default_route (normalize_wifi w (ns_wifi s)) \<longleftrightarrow> wifi_usable w s"
  using normalize_wifi_simps(1) [of w "ns_wifi s"]
  by (auto simp: eth_usable_def wifi_usable_def simp del: normalize_wifi_simps(1))

lemma normalize_primary:
  "ns_primary_iface (normalize_network_snapshot w s) =
     (if wifi_usable w s \<and> (\<not> eth_usable s \<or> if_route_metric (ns_wifi s) < if_route_metric (ns_eth s))
      then if_iface (ns_wifi s) else if eth_usable s then if_iface (ns_eth s) else [])"
  unfolding normalize_network_snapshot_def Let_def normalize_usable by simp

lemma normalize_ready:
  "ns_network_ready (normalize_network_snapshot w s) \<longleftrightarrow>
     ns_primary_iface (normalize_network_snapshot w s) \<noteq> [] \<and> ns_dns_available s"
  by (simp add: normalize_network_snapshot_def Let_def)

lemma normalize_twice [simp]:
  "normalize_eth (normalize_eth e) = normalize_eth e"
  "normalize_wifi w (normalize_wifi w i) = normalize_wifi w i"
  by (simp_all add: normalize_eth_def normalize_wifi_def Let_def)

lemma interface_equal_wifi:
  "interface_semantically_equal a b True True \<longleftrightarrow> a\<lparr> if_signal_dbm := 0 \<rparr> = b\<lparr> if_signal_dbm := 0 \<rparr>"
  by (cases a; cases b) (auto simp: interface_semantically_equal_def)

lemma interface_equal_eth:
  "interface_semantically_equal a b False False \<longleftrightarrow>
     a\<lparr> if_signal_dbm := 0, if_signal_bars := 0, if_wifi_l2_state := L2_Unknown \<rparr> =
     b\<lparr> if_signal_dbm := 0, if_signal_bars := 0, if_wifi_l2_state := L2_Unknown \<rparr>"
  by (cases a; cases b) (auto simp: interface_semantically_equal_def)

lemma semantic_eq_iff:
  "semantic a = semantic b \<longleftrightarrow>
     interface_semantically_equal (ns_eth a) (ns_eth b) False False
     \<and> interface_semantically_equal (ns_wifi a) (ns_wifi b) True True
     \<and> ns_route_policy a = ns_route_policy b \<and> ns_dns_policy a = ns_dns_policy b
     \<and> ns_primary_iface a = ns_primary_iface b \<and> ns_dns_available a = ns_dns_available b
     \<and> ns_network_ready a = ns_network_ready b \<and> ns_online a = ns_online b \<and> ns_dns4 a = ns_dns4 b"
  unfolding interface_equal_wifi interface_equal_eth
  by (cases a; cases b) (auto simp: semantic_def)

lemma observe_any:
  "cd_initialized d \<Longrightarrow> changes_any (fst (observe s d)) \<longleftrightarrow> semantic (cd_previous d) \<noteq> semantic s"
  by (auto simp: observe_def changes_any_def semantic_eq_iff Let_def)

lemma observe_baseline [simp]:
  "cd_initialized (snd (observe s d))" "cd_previous (snd (observe s d)) = s"
  by (simp_all add: observe_def Let_def)

lemma observe_all_any:
  "cd_initialized d \<Longrightarrow> observe_all ss d = (cs, d') \<Longrightarrow>
   length cs = length ss \<and> (\<forall>i<length ss. changes_any (cs ! i) \<longleftrightarrow>
     semantic ((cd_previous d # ss) ! i) \<noteq> semantic (ss ! i))"
proof (induction ss arbitrary: d cs)
  case (Cons s ss)
  obtain cs1 where cs: "cs = fst (observe s d) # cs1" and run: "observe_all ss (snd (observe s d)) = (cs1, d')"
    using Cons.prems(2) by (auto split: prod.splits)
  from Cons.IH [OF _ run] observe_any [OF Cons.prems(1), of s] show ?case
    by (auto simp: cs less_Suc_eq_0_disj)
qed simp

section \<open>Properties\<close>

text \<open>Normalising twice with the same Wi-Fi facts changes nothing more.\<close>
lemma normalize_idempotent:
  "normalize_network_snapshot w (normalize_network_snapshot w s) = normalize_network_snapshot w s"
  unfolding normalize_network_snapshot_def Let_def by simp

text \<open>C18: with named interfaces, the network is ready exactly when the resolver is configured
  and some interface is usable (link, address and default route); whenever one is usable, the
  primary interface is a usable one of least metric.\<close>
theorem network_ready_iff_usable:
  assumes "if_iface (ns_eth s) \<noteq> []" and "if_iface (ns_wifi s) \<noteq> []"
  shows "(ns_network_ready (normalize_network_snapshot w s) \<longleftrightarrow>
      ns_dns_available s \<and> usable_ifaces w s \<noteq> [])
    \<and> (usable_ifaces w s \<noteq> [] \<longrightarrow> (\<exists>i \<in> set (usable_ifaces w s).
      ns_primary_iface (normalize_network_snapshot w s) = if_iface i
      \<and> (\<forall>j \<in> set (usable_ifaces w s). if_route_metric i \<le> if_route_metric j)))"
  using assms unfolding normalize_ready normalize_primary usable_ifaces_def by auto

definition example_snapshot :: NetworkSnapshot where
  "example_snapshot = NetworkSnapshot_default\<lparr>
     ns_eth := InterfaceSnapshot_default\<lparr> if_iface := ''eth0'', if_carrier_up := True, if_has_ip := True,
       if_has_default_route := True, if_route_metric := 10 \<rparr>,
     ns_wifi := InterfaceSnapshot_default\<lparr> if_iface := ''wlan0'', if_has_ip := True,
       if_has_default_route := True, if_route_metric := 5 \<rparr>,
     ns_dns_available := True \<rparr>"

definition example_runtime :: WifiRuntimeFact where
  "example_runtime = \<lparr> wr_l2_state = L2_Connected, wr_dhcp_state = Dhcp_Running, wr_failure_reason = [] \<rparr>"

theorem network_ready_iff_usable_witness:
  "ns_network_ready (normalize_network_snapshot example_runtime example_snapshot)"
proof -
  have "if_iface (ns_eth example_snapshot) \<noteq> []" and "if_iface (ns_wifi example_snapshot) \<noteq> []"
    and "ns_dns_available example_snapshot" and "usable_ifaces example_runtime example_snapshot \<noteq> []"
    by (simp_all add: example_snapshot_def example_runtime_def usable_ifaces_def eth_usable_def)
  then show ?thesis using network_ready_iff_usable by blast
qed

text \<open>The legacy Wi-Fi state computed from a normalised snapshot says connected only when
  Wi-Fi is usable and the resolver is configured, and an L2 state other than connected or
  unknown reported by the supplicant always wins over stale addresses.\<close>
theorem legacy_connected_is_usable:
  "(legacy_wifi_state (normalize_network_snapshot w s) w = ''connected'' \<longrightarrow>
      wifi_usable w s \<and> ns_dns_available s)
   \<and> (wr_l2_state w \<notin> {L2_Connected, L2_Unknown} \<longrightarrow>
      \<not> if_connected (ns_wifi (normalize_network_snapshot w s)) \<and> \<not> wifi_usable w s)"
proof -
  have f: "ns_dns_available (normalize_network_snapshot w s) = ns_dns_available s"
    "ns_wifi (normalize_network_snapshot w s) = normalize_wifi w (ns_wifi s)"
    by (simp_all add: normalize_network_snapshot_def Let_def)
  show ?thesis
    using normalize_wifi_simps(1) [of w "ns_wifi s"]
    by (cases "wr_l2_state w") (auto simp: legacy_wifi_state_def f wifi_usable_def
        normalize_wifi_def wifi_l2_connected_def Let_def split: if_splits)
qed

theorem legacy_connected_is_usable_witness:
  "wifi_usable example_runtime example_snapshot \<and> ns_dns_available example_snapshot"
proof -
  have "legacy_wifi_state (normalize_network_snapshot example_runtime example_snapshot) example_runtime = ''connected''"
    by (simp add: legacy_wifi_state_def normalize_network_snapshot_def normalize_wifi_def Let_def
        wifi_l2_connected_def example_snapshot_def example_runtime_def)
  then show ?thesis using legacy_connected_is_usable by blast
qed

text \<open>Fed a sequence of snapshots, the detector reports a change at a snapshot exactly
  when it differs from its predecessor in something other than the radio level in dBm, the
  resolver's ownership marker and the fields without meaning for Ethernet; the first
  snapshot only sets the baseline.\<close>
theorem detector_reports_exactly:
  assumes "observe_all (s0 # ss) NetworkStateChangeDetector_default = (c0 # cs, d')"
  shows "\<not> changes_any c0 \<and> (\<forall>i<length ss. changes_any (cs ! i) \<longleftrightarrow>
     semantic ((s0 # ss) ! i) \<noteq> semantic (ss ! i))"
proof -
  let ?d = "snd (observe s0 NetworkStateChangeDetector_default)"
  have "observe_all ss ?d = (cs, d')" and "c0 = fst (observe s0 NetworkStateChangeDetector_default)"
    using assms by (auto split: prod.splits)
  moreover have "\<not> changes_any (fst (observe s0 NetworkStateChangeDetector_default))"
    by (simp add: observe_def NetworkStateChangeDetector_default_def changes_any_def no_changes_def)
  ultimately show ?thesis using observe_all_any [of ?d ss cs d'] by simp
qed

theorem detector_reports_exactly_witness:
  "changes_any (fst (observe_all [NetworkSnapshot_default, example_snapshot]
     NetworkStateChangeDetector_default) ! 1)"
proof -
  let ?d0 = NetworkStateChangeDetector_default and ?s0 = NetworkSnapshot_default
  let ?d1 = "snd (observe ?s0 ?d0)"
  have run: "observe_all [?s0, example_snapshot] ?d0 =
      ([fst (observe ?s0 ?d0), fst (observe example_snapshot ?d1)], snd (observe example_snapshot ?d1))"
    by (simp add: split_beta)
  have "semantic NetworkSnapshot_default \<noteq> semantic example_snapshot"
    by (simp add: semantic_eq_iff example_snapshot_def NetworkSnapshot_default_def)
  with detector_reports_exactly [OF run] have "changes_any (fst (observe example_snapshot ?d1))" by auto
  then show ?thesis unfolding run by simp
qed

end
