(* ===== verification/Wifi_Manager.thy ===== *)
theory Wifi_Manager
  imports Network_State
begin

text \<open>
  The DHCP lifecycle of the Wi-Fi interface (\<^verbatim>\<open>src/service/wifi_manager.cpp\<close>). Each
  section of the code that runs under the state lock is one function on the manager state;
  the methods compose them with the injected mechanism calls. The same sections are the
  atomic actions of an interleaving model with any number of threads, the operation lock and
  the client process, so that both the sequential contract and what concurrency can do to it
  are about the same code.
\<close>

section \<open>State and critical sections\<close>

record WifiManagerState =
  wm_l2_connected :: bool
  wm_dhcp_state :: DhcpClientState
  wm_dhcp_requests :: u32
  wm_failure_reason :: string

definition WifiManagerState_default :: WifiManagerState where
  "WifiManagerState_default = \<lparr> wm_l2_connected = False, wm_dhcp_state = Dhcp_Idle,
     wm_dhcp_requests = 0, wm_failure_reason = [] \<rparr>"

definition dhcp_state_active :: "DhcpClientState \<Rightarrow> bool" where
  "dhcp_state_active state \<longleftrightarrow> state = Dhcp_Starting \<or> state = Dhcp_Running"

text \<open>First section of \<open>on_l2_connected\<close>; the flag tells whether a start was reserved.\<close>

definition connected_reserve :: "WifiManagerState \<Rightarrow> bool \<times> WifiManagerState" where
  "connected_reserve s =
     (let s1 = s\<lparr> wm_l2_connected := True, wm_failure_reason := [] \<rparr> in
      if dhcp_state_active (wm_dhcp_state s1) then (False, s1)
      else (True, s1\<lparr> wm_dhcp_state := Dhcp_Starting, wm_dhcp_requests := wm_dhcp_requests s1 + 1 \<rparr>))"

text \<open>Second section, under the operation lock; the flag tells whether to go on.\<close>

definition connected_recheck :: "WifiManagerState \<Rightarrow> bool \<times> WifiManagerState" where
  "connected_recheck s =
     (if \<not> wm_l2_connected s then (False, s\<lparr> wm_dhcp_state := Dhcp_Idle \<rparr>) else (True, s))"

definition connected_finish :: "bool \<Rightarrow> string \<Rightarrow> WifiManagerState \<Rightarrow> WifiManagerState" where
  "connected_finish started error s =
     (if \<not> started then
        s\<lparr> wm_dhcp_state := Dhcp_Failed,
           wm_failure_reason := ''dhcp_start_failed'' @ (if error = [] then [] else '': '' @ error) \<rparr>
      else if \<not> wm_l2_connected s then s\<lparr> wm_dhcp_state := Dhcp_Idle \<rparr>
      else s\<lparr> wm_dhcp_state := Dhcp_Running \<rparr>)"

definition disconnected_mark :: "WifiManagerState \<Rightarrow> bool \<times> WifiManagerState" where
  "disconnected_mark s = (dhcp_state_active (wm_dhcp_state s),
     s\<lparr> wm_l2_connected := False, wm_dhcp_state := Dhcp_Idle, wm_failure_reason := [] \<rparr>)"

definition stop_mark :: "WifiManagerState \<Rightarrow> bool \<times> WifiManagerState" where
  "stop_mark s = (dhcp_state_active (wm_dhcp_state s),
     s\<lparr> wm_dhcp_state := Dhcp_Idle, wm_failure_reason := [] \<rparr>)"

definition adopt_mark :: "WifiManagerState \<Rightarrow> WifiManagerState" where
  "adopt_mark s = s\<lparr> wm_dhcp_state := Dhcp_Running, wm_failure_reason := [] \<rparr>"

definition exited_mark :: "WifiManagerState \<Rightarrow> bool \<times> WifiManagerState" where
  "exited_mark s =
     (if wm_dhcp_state s \<noteq> Dhcp_Running then (False, s)
      else (True, s\<lparr> wm_dhcp_state := Dhcp_Failed, wm_failure_reason := ''dhcp_process_exited'' \<rparr>))"

section \<open>The methods, run without interference\<close>

record 'w DhcpPorts =
  dp_start :: "('w \<Rightarrow> bool \<times> string \<times> 'w) option"
  dp_stop :: "('w \<Rightarrow> 'w) option"
  dp_running :: "('w \<Rightarrow> bool \<times> 'w) option"

definition on_l2_connected :: "'w DhcpPorts \<Rightarrow> WifiManagerState \<times> 'w \<Rightarrow> WifiManagerState \<times> 'w" where
  "on_l2_connected ports sw = (case sw of (s, w) \<Rightarrow>
     case connected_reserve s of (reserved, s1) \<Rightarrow>
       if \<not> reserved then (s1, w)
       else case connected_recheck s1 of (go, s2) \<Rightarrow>
         if \<not> go then (s2, w)
         else case (case dp_start ports of None \<Rightarrow> (False, [], w) | Some f \<Rightarrow> f w) of (started, error, w1) \<Rightarrow>
           (connected_finish started error s2, w1))"

definition run_stop :: "'w DhcpPorts \<Rightarrow> bool \<times> WifiManagerState \<Rightarrow> 'w \<Rightarrow> WifiManagerState \<times> 'w" where
  "run_stop ports m w = (case m of (should_stop, s) \<Rightarrow>
     (s, if should_stop then (case dp_stop ports of None \<Rightarrow> w | Some f \<Rightarrow> f w) else w))"

definition on_l2_disconnected :: "'w DhcpPorts \<Rightarrow> WifiManagerState \<times> 'w \<Rightarrow> WifiManagerState \<times> 'w" where
  "on_l2_disconnected ports sw = (case sw of (s, w) \<Rightarrow> run_stop ports (disconnected_mark s) w)"

definition stop_dhcp :: "'w DhcpPorts \<Rightarrow> WifiManagerState \<times> 'w \<Rightarrow> WifiManagerState \<times> 'w" where
  "stop_dhcp ports sw = (case sw of (s, w) \<Rightarrow> run_stop ports (stop_mark s) w)"

definition adopt_dhcp_running :: "WifiManagerState \<times> 'w \<Rightarrow> WifiManagerState \<times> 'w" where
  "adopt_dhcp_running sw = (case sw of (s, w) \<Rightarrow> (adopt_mark s, w))"

definition reconcile_dhcp_process :: "'w DhcpPorts \<Rightarrow> WifiManagerState \<times> 'w \<Rightarrow> bool \<times> WifiManagerState \<times> 'w" where
  "reconcile_dhcp_process ports sw = (case sw of (s, w) \<Rightarrow>
     if wm_dhcp_state s \<noteq> Dhcp_Running then (False, s, w)
     else case dp_running ports of
       None \<Rightarrow> (False, s, w)
     | Some f \<Rightarrow> (case f w of (running, w1) \<Rightarrow>
         if running then (False, s, w1)
         else case exited_mark s of (changed, s1) \<Rightarrow> (changed, s1, w1)))"

section \<open>Interleavings\<close>

text \<open>Where a thread is: outside every method, waiting for the operation lock, or inside the
  part of a method that the operation lock protects.\<close>

datatype pc =
  Outside
| Conn_wait | Conn_recheck | Conn_start | Conn_finish bool string
| Stop_wait | Stop_call
| Adopt_wait | Adopt_mark
| Rec_wait | Rec_inspect | Rec_exited

record Config =
  cf_state :: WifiManagerState
  cf_lock :: "nat option"
  cf_pc :: "nat \<Rightarrow> pc"
  cf_client :: bool

definition goto :: "nat \<Rightarrow> pc \<Rightarrow> Config \<Rightarrow> Config" where
  "goto i p c = c\<lparr> cf_pc := (cf_pc c)(i := p) \<rparr>"

definition leave :: "nat \<Rightarrow> Config \<Rightarrow> Config" where
  "leave i c = (goto i Outside c)\<lparr> cf_lock := None \<rparr>"

fun protected :: "pc \<Rightarrow> bool" where
  "protected Conn_recheck = True"
| "protected Conn_start = True"
| "protected (Conn_finish _ _) = True"
| "protected Stop_call = True"
| "protected Adopt_mark = True"
| "protected Rec_inspect = True"
| "protected Rec_exited = True"
| "protected _ = False"

fun after_lock :: "pc \<Rightarrow> pc option" where
  "after_lock Conn_wait = Some Conn_recheck"
| "after_lock Stop_wait = Some Stop_call"
| "after_lock Adopt_wait = Some Adopt_mark"
| "after_lock Rec_wait = Some Rec_inspect"
| "after_lock _ = None"

text \<open>One atomic action of thread \<open>i\<close>. \<open>dhcp_start_\<close> may succeed, which leaves the client
  running, or fail; \<open>dhcp_stop_\<close> ends the client; all three functions are injected.\<close>

datatype action = Call_connected | Call_disconnected | Call_stop | Call_adopt | Call_reconcile | Internal

inductive wm_step :: "nat \<Rightarrow> action \<Rightarrow> Config \<Rightarrow> Config \<Rightarrow> bool" for i where
  connected: "cf_pc c i = Outside \<Longrightarrow> connected_reserve (cf_state c) = (go, s) \<Longrightarrow>
    wm_step i Call_connected c (goto i (if go then Conn_wait else Outside) (c\<lparr> cf_state := s \<rparr>))"
| disconnected: "cf_pc c i = Outside \<Longrightarrow> disconnected_mark (cf_state c) = (go, s) \<Longrightarrow>
    wm_step i Call_disconnected c (goto i (if go then Stop_wait else Outside) (c\<lparr> cf_state := s \<rparr>))"
| stop: "cf_pc c i = Outside \<Longrightarrow> stop_mark (cf_state c) = (go, s) \<Longrightarrow>
    wm_step i Call_stop c (goto i (if go then Stop_wait else Outside) (c\<lparr> cf_state := s \<rparr>))"
| adopt: "cf_pc c i = Outside \<Longrightarrow> wm_step i Call_adopt c (goto i Adopt_wait c)"
| reconcile: "cf_pc c i = Outside \<Longrightarrow>
    wm_step i Call_reconcile c (goto i (if wm_dhcp_state (cf_state c) = Dhcp_Running then Rec_wait else Outside) c)"
| lock: "cf_lock c = None \<Longrightarrow> after_lock (cf_pc c i) = Some p \<Longrightarrow>
    wm_step i Internal c ((goto i p c)\<lparr> cf_lock := Some i \<rparr>)"
| recheck: "cf_pc c i = Conn_recheck \<Longrightarrow> connected_recheck (cf_state c) = (go, s) \<Longrightarrow>
    wm_step i Internal c (if go then goto i Conn_start (c\<lparr> cf_state := s \<rparr>) else leave i (c\<lparr> cf_state := s \<rparr>))"
| start_ok: "cf_pc c i = Conn_start \<Longrightarrow>
    wm_step i Internal c (goto i (Conn_finish True e) (c\<lparr> cf_client := True \<rparr>))"
| start_failed: "cf_pc c i = Conn_start \<Longrightarrow> wm_step i Internal c (goto i (Conn_finish False e) c)"
| conn_finish: "cf_pc c i = Conn_finish ok e \<Longrightarrow>
    wm_step i Internal c (leave i (c\<lparr> cf_state := connected_finish ok e (cf_state c) \<rparr>))"
| stop_call: "cf_pc c i = Stop_call \<Longrightarrow> wm_step i Internal c (leave i (c\<lparr> cf_client := False \<rparr>))"
| adopt_mark: "cf_pc c i = Adopt_mark \<Longrightarrow>
    wm_step i Internal c (leave i (c\<lparr> cf_state := adopt_mark (cf_state c) \<rparr>))"
| inspect: "cf_pc c i = Rec_inspect \<Longrightarrow>
    wm_step i Internal c (if cf_client c then leave i c else goto i Rec_exited c)"
| exited: "cf_pc c i = Rec_exited \<Longrightarrow>
    wm_step i Internal c (leave i (c\<lparr> cf_state := snd (exited_mark (cf_state c)) \<rparr>))"

definition initial :: Config where
  "initial = \<lparr> cf_state = WifiManagerState_default, cf_lock = None, cf_pc = (\<lambda>_. Outside), cf_client = False \<rparr>"

text \<open>\<open>wm_trace calls c\<close>: the threads made these calls, in this order, and the interleaving
  of their actions so far has led to \<open>c\<close>.\<close>

inductive wm_trace :: "(nat \<times> action) list \<Rightarrow> Config \<Rightarrow> bool" where
  start: "wm_trace [] initial"
| call: "wm_trace tr c \<Longrightarrow> wm_step i a c c' \<Longrightarrow> a \<noteq> Internal \<Longrightarrow> wm_trace (tr @ [(i, a)]) c'"
| internal: "wm_trace tr c \<Longrightarrow> wm_step i Internal c c' \<Longrightarrow> wm_trace tr c'"

text \<open>The thread that holds the operation lock is the one inside a protected part.\<close>

definition locked :: "nat option \<Rightarrow> (nat \<Rightarrow> pc) \<Rightarrow> bool" where
  "locked l pcs \<longleftrightarrow> (\<forall>i. protected (pcs i) \<longleftrightarrow> l = Some i)"

definition lock_inv :: "Config \<Rightarrow> bool" where
  "lock_inv c \<longleftrightarrow> locked (cf_lock c) (cf_pc c)"

definition reason_inv :: "Config \<Rightarrow> bool" where
  "reason_inv c \<longleftrightarrow> (wm_dhcp_state (cf_state c) = Dhcp_Failed \<longrightarrow> wm_failure_reason (cf_state c) \<noteq> [])"

text \<open>A thread on its way through a start of the client.\<close>

fun in_start :: "pc \<Rightarrow> bool" where
  "in_start Conn_wait = True"
| "in_start Conn_recheck = True"
| "in_start Conn_start = True"
| "in_start (Conn_finish _ _) = True"
| "in_start _ = False"

definition start_inv :: "Config \<Rightarrow> bool" where
  "start_inv c \<longleftrightarrow> (wm_dhcp_state (cf_state c) = Dhcp_Starting \<longrightarrow> (\<exists>i. in_start (cf_pc c i)))"

lemmas section_defs = connected_reserve_def connected_recheck_def connected_finish_def
  disconnected_mark_def stop_mark_def adopt_mark_def exited_mark_def Let_def

lemma after_lock_protected: "after_lock p = Some q \<Longrightarrow> protected q"
  by (cases p) auto

lemma locked_same: "locked l pcs \<Longrightarrow> protected p = protected (pcs i) \<Longrightarrow> locked l (pcs(i := p))"
  by (auto simp: locked_def)

lemma locked_enter: "locked None pcs \<Longrightarrow> protected p \<Longrightarrow> locked (Some i) (pcs(i := p))"
  by (auto simp: locked_def)

lemma locked_leave: "locked l pcs \<Longrightarrow> protected (pcs i) \<Longrightarrow> locked None (pcs(i := Outside))"
  by (auto simp: locked_def)

lemma config_fields [simp]:
  "cf_pc (goto i p c) = (cf_pc c)(i := p)" "cf_lock (goto i p c) = cf_lock c"
  "cf_state (goto i p c) = cf_state c" "cf_client (goto i p c) = cf_client c"
  "cf_pc (leave i c) = (cf_pc c)(i := Outside)" "cf_lock (leave i c) = None"
  "cf_state (leave i c) = cf_state c" "cf_client (leave i c) = cf_client c"
  by (simp_all add: goto_def leave_def)

lemma wm_step_lock_inv: "wm_step i a c c' \<Longrightarrow> lock_inv c \<Longrightarrow> lock_inv c'"
  unfolding lock_inv_def
  by (induction rule: wm_step.induct)
    (auto intro!: locked_same locked_enter locked_leave dest: after_lock_protected)

lemma wm_step_reason_inv: "wm_step i a c c' \<Longrightarrow> reason_inv c \<Longrightarrow> reason_inv c'"
  unfolding reason_inv_def
  by (induction rule: wm_step.induct) (auto simp: section_defs dhcp_state_active_def split: if_splits)

lemma after_lock_start: "after_lock p = Some q \<Longrightarrow> in_start q = in_start p"
  by (cases p) auto

lemma in_start_upd: "in_start (pcs j) \<Longrightarrow> in_start p \<or> \<not> in_start (pcs i) \<Longrightarrow> \<exists>j. in_start ((pcs(i := p)) j)"
  by (metis fun_upd_other fun_upd_same)

lemma in_start_new: "in_start p \<Longrightarrow> \<exists>j. in_start ((pcs(i := p)) j)"
  by (metis fun_upd_same)

lemma wm_step_start_inv: "wm_step i a c c' \<Longrightarrow> start_inv c \<Longrightarrow> start_inv c'"
  unfolding start_inv_def
  by (induction rule: wm_step.induct)
    (auto simp: section_defs dhcp_state_active_def in_start_new simp del: fun_upd_apply
      dest: after_lock_start intro!: in_start_upd split: if_splits)

lemma wm_trace_inv: "wm_trace tr c \<Longrightarrow> lock_inv c \<and> reason_inv c \<and> start_inv c"
proof (induction rule: wm_trace.induct)
  case start
  then show ?case
    by (simp add: initial_def lock_inv_def locked_def reason_inv_def start_inv_def WifiManagerState_default_def)
qed (use wm_step_lock_inv wm_step_reason_inv wm_step_start_inv in blast)+

section \<open>The sequential contract\<close>

text \<open>What the injected functions promise: a successful start leaves a live client, a stop
  leaves none, and the inspection tells the truth.\<close>

definition dhcp_contract :: "('w \<Rightarrow> bool) \<Rightarrow> 'w DhcpPorts \<Rightarrow> bool" where
  "dhcp_contract alive ports \<longleftrightarrow>
     (\<forall>f w e w'. dp_start ports = Some f \<longrightarrow> f w = (True, e, w') \<longrightarrow> alive w')
     \<and> (\<exists>f. dp_stop ports = Some f \<and> (\<forall>w. \<not> alive (f w)))
     \<and> (\<exists>f. dp_running ports = Some f \<and> (\<forall>w. f w = (alive w, w)))"

text \<open>Calls one after the other; \<open>Seq_env\<close> is anything that happens to the platform between
  two calls, the client's exit included.\<close>

datatype 'w seq_call = Seq_connected | Seq_disconnected | Seq_stop | Seq_adopt | Seq_reconcile | Seq_env "'w \<Rightarrow> 'w"

definition seq_step :: "'w DhcpPorts \<Rightarrow> 'w seq_call \<Rightarrow> WifiManagerState \<times> 'w \<Rightarrow> WifiManagerState \<times> 'w" where
  "seq_step ports c sw = (case c of
     Seq_connected \<Rightarrow> on_l2_connected ports sw
   | Seq_disconnected \<Rightarrow> on_l2_disconnected ports sw
   | Seq_stop \<Rightarrow> stop_dhcp ports sw
   | Seq_adopt \<Rightarrow> adopt_dhcp_running sw
   | Seq_reconcile \<Rightarrow> snd (reconcile_dhcp_process ports sw)
   | Seq_env f \<Rightarrow> (fst sw, f (snd sw)))"

definition manager_inv :: "WifiManagerState \<Rightarrow> bool" where
  "manager_inv s \<longleftrightarrow> wm_dhcp_state s \<noteq> Dhcp_Starting
     \<and> (wm_failure_reason s \<noteq> [] \<longleftrightarrow> wm_dhcp_state s = Dhcp_Failed)"

lemma seq_step_inv: "manager_inv (fst sw) \<Longrightarrow> manager_inv (fst (seq_step ports c sw))"
  by (cases sw; cases c)
    (auto simp: manager_inv_def seq_step_def on_l2_connected_def on_l2_disconnected_def stop_dhcp_def
      adopt_dhcp_running_def reconcile_dhcp_process_def run_stop_def section_defs dhcp_state_active_def
      split: prod.splits option.splits if_splits)

interpretation manager: invariant_machine "seq_step ports" "\<lambda>sw. manager_inv (fst sw)" for ports
  by unfold_locales (rule seq_step_inv)

section \<open>Properties\<close>



text \<open>C16: after any sequence of completed calls and platform events followed by a process
  reconciliation, the lifecycle is never left starting, it carries a reason exactly when it
  failed, and it claims a running client only when there is one.\<close>
theorem dhcp_lifecycle_truth:
  assumes "dhcp_contract alive ports"
    and "reconcile_dhcp_process ports (fold (seq_step ports) calls (WifiManagerState_default, w)) = (changed, s, w')"
  shows "wm_dhcp_state s \<noteq> Dhcp_Starting
    \<and> (wm_failure_reason s \<noteq> [] \<longleftrightarrow> wm_dhcp_state s = Dhcp_Failed)
    \<and> (wm_dhcp_state s = Dhcp_Running \<longrightarrow> alive w')"
proof -
  let ?sw = "fold (seq_step ports) calls (WifiManagerState_default, w)"
  have "manager_inv (fst ?sw)"
    by (rule manager.run_inv) (simp add: manager_inv_def WifiManagerState_default_def)
  then have "manager_inv (fst (seq_step ports Seq_reconcile ?sw))" by (rule seq_step_inv)
  then have "manager_inv s" by (simp add: seq_step_def assms(2))
  moreover have "wm_dhcp_state s = Dhcp_Running \<longrightarrow> alive w'"
    using assms by (cases ?sw) (auto simp: reconcile_dhcp_process_def dhcp_contract_def exited_mark_def
        split: if_splits)
  ultimately show ?thesis by (simp add: manager_inv_def)
qed

text \<open>Concrete mechanism functions: the world is whether the client runs.\<close>

definition example_dhcp_ports :: "bool DhcpPorts" where
  "example_dhcp_ports = \<lparr> dp_start = Some (\<lambda>w. (True, [], True)), dp_stop = Some (\<lambda>w. False),
     dp_running = Some (\<lambda>w. (w, w)) \<rparr>"

theorem dhcp_lifecycle_truth_witness:
  "wm_dhcp_state (fst (snd (reconcile_dhcp_process example_dhcp_ports
     (fold (seq_step example_dhcp_ports) [Seq_connected, Seq_env (\<lambda>w. False)] (WifiManagerState_default, False)))))
   \<noteq> Dhcp_Starting"
proof -
  have "dhcp_contract (\<lambda>w. w) example_dhcp_ports"
    by (simp add: dhcp_contract_def example_dhcp_ports_def)
  then show ?thesis using dhcp_lifecycle_truth by (metis prod.collapse)
qed

text \<open>C17: an explicit stop that arrives while a start is in progress can be lost. With just
  one CONNECTED event and one \<open>stop_dhcp\<close> call there is an interleaving after which both
  calls have returned, the client is stopped and the lifecycle still says running: the
  completion of the start looks only at the L2 flag, which \<open>stop_dhcp\<close> does not clear.\<close>
theorem stop_during_start_is_lost:
  "\<exists>c. wm_trace [(0, Call_connected), (1, Call_stop)] c \<and> (\<forall>i. cf_pc c i = Outside)
     \<and> wm_dhcp_state (cf_state c) = Dhcp_Running \<and> \<not> cf_client c"
proof -
  let ?sr = "\<lparr> wm_l2_connected = True, wm_dhcp_state = Dhcp_Starting, wm_dhcp_requests = 1, wm_failure_reason = [] \<rparr>"
  let ?si = "?sr\<lparr> wm_dhcp_state := Dhcp_Idle \<rparr>"
  have "connected_reserve (cf_state initial) = (True, ?sr)"
    by (simp add: initial_def WifiManagerState_default_def section_defs dhcp_state_active_def)
  from wm_trace.call [OF wm_trace.start wm_step.connected [where i = 0, OF _ this]]
  have "wm_trace [(0, Call_connected)] (goto 0 Conn_wait (initial\<lparr> cf_state := ?sr \<rparr>))" (is "wm_trace _ ?c1")
    by (simp add: initial_def)
  from wm_trace.internal [OF this wm_step.lock [where i = 0]]
  have "wm_trace [(0, Call_connected)] ((goto 0 Conn_recheck ?c1)\<lparr> cf_lock := Some 0 \<rparr>)" (is "wm_trace _ ?c2")
    by (simp add: initial_def)
  from wm_trace.internal [OF this wm_step.recheck [where i = 0 and go = True and s = ?sr]]
  have "wm_trace [(0, Call_connected)] (goto 0 Conn_start (?c2\<lparr> cf_state := ?sr \<rparr>))" (is "wm_trace _ ?c3")
    by (simp add: section_defs)
  from wm_trace.call [OF this wm_step.stop [where i = 1 and go = True and s = ?si]]
  have "wm_trace [(0, Call_connected), (1, Call_stop)] (goto 1 Stop_wait (?c3\<lparr> cf_state := ?si \<rparr>))" (is "wm_trace ?tr ?c4")
    by (simp add: section_defs dhcp_state_active_def initial_def)
  from wm_trace.internal [OF this wm_step.start_ok [where i = 0]]
  have "wm_trace ?tr (goto 0 (Conn_finish True []) (?c4\<lparr> cf_client := True \<rparr>))" (is "wm_trace _ ?c5") by simp
  from wm_trace.internal [OF this wm_step.conn_finish [where i = 0]]
  have "wm_trace ?tr (leave 0 (?c5\<lparr> cf_state := connected_finish True [] (cf_state ?c5) \<rparr>))" (is "wm_trace _ ?c6") by simp
  from wm_trace.internal [OF this wm_step.lock [where i = 1]]
  have "wm_trace ?tr ((goto 1 Stop_call ?c6)\<lparr> cf_lock := Some 1 \<rparr>)" (is "wm_trace _ ?c7") by simp
  from wm_trace.internal [OF this wm_step.stop_call [where i = 1]]
  have "wm_trace ?tr (leave 1 (?c7\<lparr> cf_client := False \<rparr>))" (is "wm_trace _ ?c8") by simp
  moreover have "\<forall>i. cf_pc ?c8 i = Outside" by (simp add: initial_def)
  moreover have "wm_dhcp_state (cf_state ?c8) = Dhcp_Running" by (simp add: connected_finish_def)
  moreover have "\<not> cf_client ?c8" by simp
  ultimately show ?thesis by blast
qed

end
