(* ===== verification/Wifi_Profile.thy ===== *)
theory Wifi_Profile
  imports Prelude
begin

text \<open>
  The Wi-Fi profile policy (\<^verbatim>\<open>src/service/wifi_profile_policy.cpp\<close>) over injected platform
  functions. A function \<open>bool f(.., std::string &error)\<close> is an action on the pair of the
  error string and the platform's world; an empty \<open>std::function\<close> is None. The lemma
  \<open>connect_new_effect\<close> is the transaction of \<open>connect_new\<close>: a profile that cannot be activated is not left behind.
\<close>

type_synonym 'w err_act = "(string \<times> 'w) act"

record 'w WifiProfilePolicyOps =
  po_ensure_interface_up :: "'w err_act option"
  po_create_profile :: "(string \<Rightarrow> string \<Rightarrow> string \<times> 'w \<Rightarrow> int \<times> string \<times> 'w) option"
  po_find_profile :: "(string \<Rightarrow> string \<times> 'w \<Rightarrow> int \<times> string \<times> 'w) option"
  po_disable_all_profiles :: "'w err_act option"
  po_set_profile_enabled :: "(int \<Rightarrow> bool \<Rightarrow> 'w err_act) option"
  po_select_profile :: "(int \<Rightarrow> 'w err_act) option"
  po_remove_profile :: "(int \<Rightarrow> 'w err_act) option"
  po_save_profiles :: "'w err_act option"

definition fail_with :: "string \<Rightarrow> 'w err_act" where
  "fail_with msg s = (False, msg, snd s)"

text \<open>\<open>std::string ignored; (void)f(ignored)\<close>: only the world changes.\<close>

definition run_ignored :: "'w err_act option \<Rightarrow> 'w \<Rightarrow> 'w" where
  "run_ignored f w = (case f of None \<Rightarrow> w | Some g \<Rightarrow> snd (snd (g ([], w))))"

definition activate_profile :: "'w WifiProfilePolicyOps \<Rightarrow> int \<Rightarrow> bool \<Rightarrow> 'w err_act" where
  "activate_profile ops network_id persist s =
     (if network_id < 0 then fail_with ''invalid Wi-Fi profile id'' s
      else case (po_disable_all_profiles ops, po_set_profile_enabled ops, po_select_profile ops) of
        (Some disable_all, Some set_enabled, Some select) \<Rightarrow>
          act_seq (set_enabled network_id True)
            (act_seq (select network_id)
              (\<lambda>(e, w). (True, [], if persist then run_ignored (po_save_profiles ops) w else w)))
            ([], run_ignored (Some disable_all) (snd s))
      | _ \<Rightarrow> fail_with ''Wi-Fi profile platform ports are unavailable'' s)"

text \<open>What \<open>connect_new\<close> does after a failed activation, with the failure's diagnostic kept.\<close>

definition rollback_profile :: "'w WifiProfilePolicyOps \<Rightarrow> int \<Rightarrow> 'w err_act" where
  "rollback_profile ops network_id s = (case s of (failure, w) \<Rightarrow>
     (False, failure,
      (case po_remove_profile ops of
         None \<Rightarrow> w
       | Some remove \<Rightarrow> (case remove network_id ([], w) of (_, rollback_error, w1) \<Rightarrow>
           if rollback_error = [] then run_ignored (po_save_profiles ops) w1 else w1))))"

definition connect_new :: "'w WifiProfilePolicyOps \<Rightarrow> string \<Rightarrow> string \<Rightarrow> 'w err_act" where
  "connect_new ops ssid password s =
     (if ssid = [] then fail_with ''ssid is required'' s
      else case (po_ensure_interface_up ops, po_create_profile ops) of
        (Some ensure_up, Some create) \<Rightarrow>
          act_seq ensure_up
            (\<lambda>s1. case create ssid password s1 of (network_id, s2) \<Rightarrow>
               if network_id < 0 then (False, s2)
               else case activate_profile ops network_id True s2 of (ok, s3) \<Rightarrow>
                 if ok then (True, s3) else rollback_profile ops network_id s3)
            ([], snd s)
      | _ \<Rightarrow> fail_with ''Wi-Fi profile platform ports are unavailable'' s)"

definition connect_saved :: "'w WifiProfilePolicyOps \<Rightarrow> string \<Rightarrow> 'w err_act" where
  "connect_saved ops ssid s =
     (if ssid = [] then fail_with ''ssid is required'' s
      else case (po_ensure_interface_up ops, po_find_profile ops) of
        (Some ensure_up, Some lookup) \<Rightarrow>
          act_seq ensure_up
            (\<lambda>s1. case lookup ssid s1 of (network_id, s2) \<Rightarrow>
               if network_id < 0 then (False, s2) else activate_profile ops network_id False s2)
            ([], snd s)
      | _ \<Rightarrow> fail_with ''Wi-Fi profile platform ports are unavailable'' s)"

definition forget :: "'w WifiProfilePolicyOps \<Rightarrow> string \<Rightarrow> 'w err_act" where
  "forget ops ssid s =
     (if ssid = [] then fail_with ''ssid is required'' s
      else case (po_find_profile ops, po_remove_profile ops, po_save_profiles ops) of
        (Some lookup, Some remove, Some save) \<Rightarrow>
          (case lookup ssid ([], snd s) of (network_id, s1) \<Rightarrow>
             if network_id < 0 then (False, s1) else act_seq (remove network_id) save s1)
      | _ \<Rightarrow> fail_with ''Wi-Fi profile platform ports are unavailable'' s)"

definition set_autoconnect :: "'w WifiProfilePolicyOps \<Rightarrow> string \<Rightarrow> bool \<Rightarrow> 'w err_act" where
  "set_autoconnect ops ssid enabled s =
     (if ssid = [] then fail_with ''ssid is required'' s
      else case (po_find_profile ops, po_set_profile_enabled ops, po_save_profiles ops) of
        (Some lookup, Some set_enabled, Some save) \<Rightarrow>
          (case lookup ssid ([], snd s) of (network_id, s1) \<Rightarrow>
             if network_id < 0 then (False, s1) else act_seq (set_enabled network_id enabled) save s1)
      | _ \<Rightarrow> fail_with ''Wi-Fi profile platform ports are unavailable'' s)"

section \<open>What the platform promises of its profiles\<close>

text \<open>\<open>keeps profiles f\<close>: the call leaves the set of profiles alone.\<close>

definition keeps :: "('w \<Rightarrow> 'a) \<Rightarrow> (string \<times> 'w \<Rightarrow> 'r \<times> string \<times> 'w) \<Rightarrow> bool" where
  "keeps profiles f \<longleftrightarrow> (\<forall>s. profiles (snd (snd (f s))) = profiles (snd s))"

text \<open>A created profile has a fresh id; a successful removal deletes exactly its id.\<close>

definition creates :: "('w \<Rightarrow> int set) \<Rightarrow> (string \<Rightarrow> string \<Rightarrow> string \<times> 'w \<Rightarrow> int \<times> string \<times> 'w) \<Rightarrow> bool" where
  "creates profiles f \<longleftrightarrow> (\<forall>ssid pw s. case f ssid pw s of (i, s') \<Rightarrow>
     if i < 0 then profiles (snd s') = profiles (snd s)
     else i \<notin> profiles (snd s) \<and> profiles (snd s') = insert i (profiles (snd s)))"

definition removes :: "('w \<Rightarrow> int set) \<Rightarrow> (int \<Rightarrow> 'w err_act) \<Rightarrow> bool" where
  "removes profiles f \<longleftrightarrow> (\<forall>i s. profiles (snd (snd (f i s))) =
     (if fst (f i s) then profiles (snd s) - {i} else profiles (snd s)))"

definition opt_all :: "('a \<Rightarrow> bool) \<Rightarrow> 'a option \<Rightarrow> bool" where
  "opt_all p x \<longleftrightarrow> (case x of None \<Rightarrow> True | Some f \<Rightarrow> p f)"

definition profile_contract :: "('w \<Rightarrow> int set) \<Rightarrow> 'w WifiProfilePolicyOps \<Rightarrow> bool" where
  "profile_contract profiles ops \<longleftrightarrow>
     opt_all (keeps profiles) (po_ensure_interface_up ops)
     \<and> opt_all (creates profiles) (po_create_profile ops)
     \<and> opt_all (\<lambda>f. \<forall>ssid. keeps profiles (f ssid)) (po_find_profile ops)
     \<and> opt_all (keeps profiles) (po_disable_all_profiles ops)
     \<and> opt_all (\<lambda>f. \<forall>i b. keeps profiles (f i b)) (po_set_profile_enabled ops)
     \<and> opt_all (\<lambda>f. \<forall>i. keeps profiles (f i)) (po_select_profile ops)
     \<and> opt_all (removes profiles) (po_remove_profile ops)
     \<and> opt_all (keeps profiles) (po_save_profiles ops)"

lemma keepsD: "keeps profiles f \<Longrightarrow> f s = (r, e, w) \<Longrightarrow> profiles w = profiles (snd s)"
  by (metis keeps_def snd_conv)

lemma keeps_ignored: "opt_all (keeps profiles) f \<Longrightarrow> profiles (run_ignored f w) = profiles w"
  by (auto simp: opt_all_def run_ignored_def keeps_def split: option.splits)

lemma keeps_seq: "keeps profiles f \<Longrightarrow> keeps profiles g \<Longrightarrow> keeps profiles (act_seq f g)"
proof -
  assume f: "keeps profiles f" and g: "keeps profiles g"
  have "profiles (snd (snd (act_seq f g s))) = profiles (snd s)" for s
  proof (cases "f s")
    case (fields b e w)
    with keepsD [OF f] have "profiles w = profiles (snd s)" by blast
    then show ?thesis using g by (simp add: act_seq_def fields keeps_def)
  qed
  then show ?thesis by (simp add: keeps_def)
qed

lemma activate_keeps:
  assumes "profile_contract profiles ops"
  shows "keeps profiles (activate_profile ops i p)"
proof -
  have fin: "keeps profiles (\<lambda>(e, w). (True, [], if p then run_ignored (po_save_profiles ops) w else w))"
    using assms by (auto simp: keeps_def profile_contract_def keeps_ignored)
  have "profiles (snd (snd (activate_profile ops i p s))) = profiles (snd s)" for s
  proof (cases "i < 0 \<or> po_disable_all_profiles ops = None \<or> po_set_profile_enabled ops = None
      \<or> po_select_profile ops = None")
    case True
    then show ?thesis by (auto simp: activate_profile_def fail_with_def split: option.splits)
  next
    case False
    then obtain d f g where ports: "po_disable_all_profiles ops = Some d" "po_set_profile_enabled ops = Some f"
      "po_select_profile ops = Some g" by auto
    with assms have "keeps profiles (f i True)" "keeps profiles (g i)" "opt_all (keeps profiles) (Some d)"
      by (auto simp: profile_contract_def opt_all_def)
    then show ?thesis
      using keeps_seq [OF _ keeps_seq [OF _ fin]] False ports keeps_ignored
      by (fastforce simp: activate_profile_def keeps_def)
  qed
  then show ?thesis by (simp add: keeps_def)
qed

lemma contract_create:
  assumes "profile_contract profiles ops" and "po_create_profile ops = Some f" and "f ssid pw s = (i, s')"
  shows "if i < 0 then profiles (snd s') = profiles (snd s)
     else i \<notin> profiles (snd s) \<and> profiles (snd s') = insert i (profiles (snd s))"
proof -
  have "creates profiles f" using assms(1,2) by (simp add: profile_contract_def opt_all_def)
  then have "case f ssid pw s of (i, s') \<Rightarrow> if i < 0 then profiles (snd s') = profiles (snd s)
     else i \<notin> profiles (snd s) \<and> profiles (snd s') = insert i (profiles (snd s))"
    unfolding creates_def by (elim allE)
  then show ?thesis by (simp only: assms(3) prod.case)
qed

lemma contract_remove:
  assumes "profile_contract profiles ops" and "po_remove_profile ops = Some f"
  shows "profiles (snd (snd (f i s))) = (if fst (f i s) then profiles (snd s) - {i} else profiles (snd s))"
proof -
  have "removes profiles f" using assms by (simp add: profile_contract_def opt_all_def)
  then show ?thesis unfolding removes_def by blast
qed

lemma contract_save: "profile_contract profiles ops \<Longrightarrow> opt_all (keeps profiles) (po_save_profiles ops)"
  by (simp add: profile_contract_def)

lemma rollback_restores:
  assumes "profile_contract profiles ops" and "po_remove_profile ops = Some rm" and "\<And>i s. i \<in> profiles (snd s) \<Longrightarrow> fst (rm i s)"
    and "i \<in> profiles w" and "rollback_profile ops i (e, w) = (ok, e', w')"
  shows "\<not> ok \<and> e' = e \<and> profiles w' = profiles w - {i}"
proof -
  obtain b r w1 where rm: "rm i ([], w) = (b, r, w1)" by (cases "rm i ([], w)") auto
  have "profiles w1 = profiles w - {i}"
    using contract_remove [OF assms(1,2), of i "([], w)"] assms(3) [of i "([], w)"] assms(4) by (simp add: rm)
  then show ?thesis
    using assms(5) keeps_ignored [OF contract_save [OF assms(1)], of w1]
    by (simp add: rollback_profile_def assms(2) rm split: if_splits)
qed

lemma activate_ok_clears: "activate_profile ops i p s = (True, e, w) \<Longrightarrow> e = []"
  by (auto simp: activate_profile_def fail_with_def act_seq_def split: if_splits option.splits prod.splits)

lemma connect_new_effect:
  assumes "profile_contract profiles ops"
    and "po_remove_profile ops = Some rm" and "\<And>i s. i \<in> profiles (snd s) \<Longrightarrow> fst (rm i s)"
    and "connect_new ops ssid pw (e, w) = (ok, e', w')"
  shows "if ok then e' = [] \<and> (\<exists>i. i \<notin> profiles w \<and> profiles w' = insert i (profiles w))
         else profiles w' = profiles w"
proof (cases "ssid = [] \<or> po_ensure_interface_up ops = None \<or> po_create_profile ops = None")
  case True
  then obtain msg where "connect_new ops ssid pw (e, w) = (False, msg, w)"
    by (cases "ssid = []"; cases "po_ensure_interface_up ops"; cases "po_create_profile ops")
      (simp_all add: connect_new_def fail_with_def)
  then show ?thesis using assms(4) by simp
next
  case False
  then obtain up create where ports: "po_ensure_interface_up ops = Some up" "po_create_profile ops = Some create"
    by auto
  obtain b e1 w1 where up: "up ([], w) = (b, e1, w1)" by (cases "up ([], w)") auto
  obtain i e2 w2 where cr: "create ssid pw (e1, w1) = (i, e2, w2)" by (cases "create ssid pw (e1, w1)") auto
  obtain a e3 w3 where act: "activate_profile ops i True (e2, w2) = (a, e3, w3)"
    by (cases "activate_profile ops i True (e2, w2)") auto
  have w1: "profiles w1 = profiles w"
    using assms(1) ports keepsD [where f = up and profiles = profiles, OF _ up] by (simp add: profile_contract_def opt_all_def)
  have w2: "if i < 0 then profiles w2 = profiles w1 else i \<notin> profiles w1 \<and> profiles w2 = insert i (profiles w1)"
    using contract_create [OF assms(1) ports(2) cr] unfolding snd_conv .
  have w3: "profiles w3 = profiles w2" using keepsD [OF activate_keeps [OF assms(1)] act] by simp
  show ?thesis
  proof (cases "b \<and> 0 \<le> i \<and> \<not> a")
    case True
    then have rb: "rollback_profile ops i (e3, w3) = (ok, e', w')"
      using assms(4) False ports up cr act by (simp add: connect_new_def act_seq_def)
    have i: "i \<in> profiles w3" using True w2 w3 by (simp split: if_splits)
    have "\<not> ok \<and> e' = e3 \<and> profiles w' = profiles w3 - {i}"
      by (rule rollback_restores [OF assms(1,2) _ i rb]) (rule assms(3))
    then show ?thesis using True w1 w2 w3 by auto
  next
    case no: False
    then show ?thesis
      using assms(4) False ports up cr act w1 w2 w3 activate_ok_clears
      by (auto simp: connect_new_def act_seq_def split: if_splits)
  qed
qed

end
