(* ===== verification/Control_Plane.thy ===== *)
theory Control_Plane
  imports Network_State Wifi_Profile
begin

text \<open>
  The network control plane (\<^verbatim>\<open>src/service/network_control_plane.cpp\<close> and
  \<^verbatim>\<open>network_control_plane_reconcile.cpp\<close>): DHCP and static Ethernet lifecycles, owned default
  routes, route policy and resolver ownership, over injected platform functions. Every public
  method holds one mutex from start to end, so a method is one action on the record \<open>Run\<close>:
  the object's fields, the caller's error string and the platform's world.
\<close>

section \<open>State and ports\<close>

record 'w NetworkControlPlaneOps =
  op_start_dhcp :: "(string \<Rightarrow> 'w err_act) option"
  op_stop_dhcp :: "(string \<Rightarrow> 'w \<Rightarrow> 'w) option"
  op_read_lease :: "(string \<Rightarrow> string \<times> 'w \<Rightarrow> (bool \<times> DhcpLeaseFact option) \<times> string \<times> 'w) option"
  op_clear_lease :: "(string \<Rightarrow> 'w \<Rightarrow> 'w) option"
  op_apply_ipv4 :: "(string \<Rightarrow> string \<Rightarrow> string \<Rightarrow> 'w err_act) option"
  op_clear_ipv4 :: "(string \<Rightarrow> 'w err_act) option"
  op_set_default_route :: "(string \<Rightarrow> string \<Rightarrow> int \<Rightarrow> 'w err_act) option"
  op_clear_default_route :: "(string \<Rightarrow> string \<Rightarrow> int \<Rightarrow> 'w err_act) option"
  op_set_dns :: "(string \<Rightarrow> 'w err_act) option"
  op_clear_dns :: "'w err_act option"
  op_snapshot :: "('w \<Rightarrow> NetworkSnapshot \<times> 'w) option"

record LinkState =
  ls_managed_dhcp :: bool
  ls_active :: bool
  ls_lease :: DhcpLeaseFact
  ls_fingerprint :: string

definition LinkState_default :: LinkState where
  "LinkState_default = \<lparr> ls_managed_dhcp = False, ls_active = False,
     ls_lease = DhcpLeaseFact_default, ls_fingerprint = [] \<rparr>"

record StaticEthernetState =
  se_active :: bool
  se_ip4 :: string
  se_netmask4 :: string
  se_gateway4 :: string
  se_dns4 :: string
  se_manual_metric :: int

definition StaticEthernetState_default :: StaticEthernetState where
  "StaticEthernetState_default = \<lparr> se_active = False, se_ip4 = [], se_netmask4 = [],
     se_gateway4 = [], se_dns4 = [], se_manual_metric = 10 \<rparr>"

record OwnedRouteState =
  ow_active :: bool
  ow_gateway4 :: string
  ow_metric :: int

definition OwnedRouteState_default :: OwnedRouteState where
  "OwnedRouteState_default = \<lparr> ow_active = False, ow_gateway4 = [], ow_metric = -1 \<rparr>"

record NetworkControlPlane =
  cp_eth_iface :: string
  cp_wifi_iface :: string
  cp_eth :: LinkState
  cp_wifi :: LinkState
  cp_static_eth :: StaticEthernetState
  cp_eth_route :: OwnedRouteState
  cp_wifi_route :: OwnedRouteState
  cp_route_policy :: RoutePolicy
  cp_dns_ownership_initialized :: bool
  cp_managed_dns :: bool
  cp_last_dns :: string

definition new_control_plane :: "string \<Rightarrow> string \<Rightarrow> NetworkControlPlane" where
  "new_control_plane eth_iface wifi_iface =
     \<lparr> cp_eth_iface = eth_iface, cp_wifi_iface = wifi_iface,
       cp_eth = LinkState_default, cp_wifi = LinkState_default,
       cp_static_eth = StaticEthernetState_default,
       cp_eth_route = OwnedRouteState_default, cp_wifi_route = OwnedRouteState_default,
       cp_route_policy = EthernetPreferred, cp_dns_ownership_initialized = False,
       cp_managed_dns = False, cp_last_dns = [] \<rparr>"

record 'w Run =
  plane :: NetworkControlPlane
  err :: string
  world :: 'w

definition known_iface :: "NetworkControlPlane \<Rightarrow> string \<Rightarrow> bool" where
  "known_iface p iface \<longleftrightarrow> iface = cp_eth_iface p \<or> iface = cp_wifi_iface p"

definition link_for :: "NetworkControlPlane \<Rightarrow> string \<Rightarrow> LinkState" where
  "link_for p iface = (if iface = cp_eth_iface p then cp_eth p else cp_wifi p)"

definition set_link :: "string \<Rightarrow> LinkState \<Rightarrow> NetworkControlPlane \<Rightarrow> NetworkControlPlane" where
  "set_link iface l p = (if iface = cp_eth_iface p then p\<lparr> cp_eth := l \<rparr> else p\<lparr> cp_wifi := l \<rparr>)"

definition owned_route_for :: "NetworkControlPlane \<Rightarrow> string \<Rightarrow> OwnedRouteState" where
  "owned_route_for p iface = (if iface = cp_eth_iface p then cp_eth_route p else cp_wifi_route p)"

definition set_owned_route :: "string \<Rightarrow> OwnedRouteState \<Rightarrow> NetworkControlPlane \<Rightarrow> NetworkControlPlane" where
  "set_owned_route iface o' p =
     (if iface = cp_eth_iface p then p\<lparr> cp_eth_route := o' \<rparr> else p\<lparr> cp_wifi_route := o' \<rparr>)"

section \<open>Calling ports\<close>

definition upd_plane :: "(NetworkControlPlane \<Rightarrow> NetworkControlPlane) \<Rightarrow> 'w Run \<Rightarrow> 'w Run" where
  "upd_plane f r = r\<lparr> plane := f (plane r) \<rparr>"

definition clear_err :: "'w Run \<Rightarrow> 'w Run" where
  "clear_err r = r\<lparr> err := [] \<rparr>"

definition refuse :: "string \<Rightarrow> 'w Run act" where
  "refuse msg r = (False, r\<lparr> err := msg \<rparr>)"

definition call_port :: "'w err_act \<Rightarrow> 'w Run act" where
  "call_port f r = (case f (err r, world r) of (ok, e, w) \<Rightarrow> (ok, r\<lparr> err := e, world := w \<rparr>))"

text \<open>A call whose error string and result are dropped.\<close>

definition call_ignored :: "'w err_act option \<Rightarrow> 'w Run \<Rightarrow> 'w Run" where
  "call_ignored f r = r\<lparr> world := run_ignored f (world r) \<rparr>"

definition call_void :: "('w \<Rightarrow> 'w) option \<Rightarrow> 'w Run \<Rightarrow> 'w Run" where
  "call_void f r = (case f of None \<Rightarrow> r | Some g \<Rightarrow> r\<lparr> world := g (world r) \<rparr>)"

section \<open>Owned routes and route policy\<close>

definition clear_owned_route :: "'w NetworkControlPlaneOps \<Rightarrow> string \<Rightarrow> 'w Run act" where
  "clear_owned_route ops iface r0 =
     (let r = clear_err r0; owned = owned_route_for (plane r) iface in
      if \<not> ow_active owned then (True, r)
      else case op_clear_default_route ops of
        None \<Rightarrow> refuse ''default-route clear port is unavailable'' r
      | Some f \<Rightarrow> act_seq (call_port (f iface (ow_gateway4 owned) (ow_metric owned)))
          (\<lambda>r1. (True, upd_plane (set_owned_route iface OwnedRouteState_default) r1)) r)"

definition ensure_owned_route :: "'w NetworkControlPlaneOps \<Rightarrow> string \<Rightarrow> string \<Rightarrow> int \<Rightarrow> 'w Run act" where
  "ensure_owned_route ops iface gateway4 metric r0 =
     (let r = clear_err r0 in
      if gateway4 = [] then clear_owned_route ops iface r
      else case op_set_default_route ops of
        None \<Rightarrow> refuse ''default-route port is unavailable'' r
      | Some f \<Rightarrow>
          (let owned = owned_route_for (plane r) iface in
           act_seq (if ow_active owned \<and> (ow_gateway4 owned \<noteq> gateway4 \<or> ow_metric owned \<noteq> metric)
                    then clear_owned_route ops iface else act_true)
             (act_seq (call_port (f iface gateway4 metric))
               (\<lambda>r1. (True, upd_plane (set_owned_route iface
                   \<lparr> ow_active = True, ow_gateway4 = gateway4, ow_metric = metric \<rparr>) r1))) r))"

definition route_allowed :: "NetworkControlPlane \<Rightarrow> string \<Rightarrow> bool" where
  "route_allowed p iface \<longleftrightarrow> \<not> (cp_route_policy p = WifiOnly \<and> iface = cp_eth_iface p)"

definition route_metric :: "NetworkControlPlane \<Rightarrow> string \<Rightarrow> int \<Rightarrow> int" where
  "route_metric p iface manual_metric = (case cp_route_policy p of
     WifiPreferred \<Rightarrow> (if iface = cp_wifi_iface p then 10 else 20)
   | WifiOnly \<Rightarrow> (if iface = cp_wifi_iface p then 10 else 20)
   | ManualMetric \<Rightarrow> (if manual_metric \<ge> 0 then manual_metric
                      else if iface = cp_eth_iface p then 10 else 20)
   | EthernetPreferred \<Rightarrow> (if iface = cp_eth_iface p then 10 else 20))"

text \<open>\<open>if (error.empty()) error = msg; return false\<close> after a failed call.\<close>

definition or_message :: "string \<Rightarrow> 'w Run act \<Rightarrow> 'w Run act" where
  "or_message msg f r = (case f r of (ok, r1) \<Rightarrow>
     if ok then (True, r1) else (False, if err r1 = [] then r1\<lparr> err := msg \<rparr> else r1))"

definition apply_eth_route :: "'w NetworkControlPlaneOps \<Rightarrow> 'w Run act" where
  "apply_eth_route ops r =
     (let p = plane r; eth = cp_eth_iface p; st = cp_static_eth p in
      if se_active st \<and> route_allowed p eth \<and> se_gateway4 st \<noteq> [] then
        or_message ''failed to apply Ethernet static route''
          (ensure_owned_route ops eth (se_gateway4 st) (route_metric p eth (se_manual_metric st))) r
      else if ls_active (cp_eth p) \<and> route_allowed p eth \<and> lf_gateway4 (ls_lease (cp_eth p)) \<noteq> [] then
        or_message ''failed to apply Ethernet DHCP route''
          (ensure_owned_route ops eth (lf_gateway4 (ls_lease (cp_eth p))) (route_metric p eth (-1))) r
      else clear_owned_route ops eth r)"

definition apply_wifi_route :: "'w NetworkControlPlaneOps \<Rightarrow> 'w Run act" where
  "apply_wifi_route ops r =
     (let p = plane r; wifi = cp_wifi_iface p in
      if ls_active (cp_wifi p) \<and> route_allowed p wifi \<and> lf_gateway4 (ls_lease (cp_wifi p)) \<noteq> [] then
        or_message ''failed to apply Wi-Fi DHCP route''
          (ensure_owned_route ops wifi (lf_gateway4 (ls_lease (cp_wifi p))) (route_metric p wifi (-1))) r
      else clear_owned_route ops wifi r)"

definition apply_routes :: "'w NetworkControlPlaneOps \<Rightarrow> 'w Run act" where
  "apply_routes ops r = act_seq (apply_eth_route ops) (apply_wifi_route ops) (clear_err r)"

section \<open>Resolver ownership\<close>

definition static_eth_route :: "NetworkControlPlane \<Rightarrow> bool" where
  "static_eth_route p \<longleftrightarrow> se_active (cp_static_eth p) \<and> route_allowed p (cp_eth_iface p)
     \<and> se_gateway4 (cp_static_eth p) \<noteq> []"

definition dhcp_eth_route :: "NetworkControlPlane \<Rightarrow> bool" where
  "dhcp_eth_route p \<longleftrightarrow> ls_active (cp_eth p) \<and> route_allowed p (cp_eth_iface p)
     \<and> lf_gateway4 (ls_lease (cp_eth p)) \<noteq> []"

definition wifi_route :: "NetworkControlPlane \<Rightarrow> bool" where
  "wifi_route p \<longleftrightarrow> ls_active (cp_wifi p) \<and> route_allowed p (cp_wifi_iface p)
     \<and> lf_gateway4 (ls_lease (cp_wifi p)) \<noteq> []"

definition eth_dns :: "NetworkControlPlane \<Rightarrow> string" where
  "eth_dns p = (if se_active (cp_static_eth p) then se_dns4 (cp_static_eth p) else lf_dns4 (ls_lease (cp_eth p)))"

definition wifi_dns :: "NetworkControlPlane \<Rightarrow> string" where
  "wifi_dns p = lf_dns4 (ls_lease (cp_wifi p))"

text \<open>\<open>load_live\<close>: the snapshot of this pass, taken at most once; without the port it is the
  default-constructed one.\<close>

type_synonym 'w live = "NetworkSnapshot option \<times> 'w"

definition load_live :: "'w NetworkControlPlaneOps \<Rightarrow> 'w live \<Rightarrow> NetworkSnapshot \<times> 'w live" where
  "load_live ops l = (case l of
     (Some live, w) \<Rightarrow> (live, Some live, w)
   | (None, w) \<Rightarrow> (case op_snapshot ops of
       None \<Rightarrow> (NetworkSnapshot_default, None, w)
     | Some f \<Rightarrow> (case f w of (live, w1) \<Rightarrow> (live, Some live, w1))))"

definition recover_dns_ownership :: "'w NetworkControlPlaneOps \<Rightarrow> NetworkControlPlane \<Rightarrow> 'w live \<Rightarrow>
    NetworkControlPlane \<times> 'w live" where
  "recover_dns_ownership ops p l =
     (if cp_dns_ownership_initialized p then (p, l)
      else if op_snapshot ops = None then (p\<lparr> cp_dns_ownership_initialized := True \<rparr>, l)
      else case load_live ops l of (current, l1) \<Rightarrow>
        (if ns_dns_managed_by_network_service current
         then p\<lparr> cp_managed_dns := True, cp_last_dns := ns_dns4 current, cp_dns_ownership_initialized := True \<rparr>
         else p\<lparr> cp_managed_dns := False, cp_last_dns := [], cp_dns_ownership_initialized := True \<rparr>, l1))"

text \<open>The resolver to use (empty for none), whether a foreign Ethernet route makes us keep
  our hands off, and the snapshot cache.\<close>

definition select_dns :: "'w NetworkControlPlaneOps \<Rightarrow> NetworkControlPlane \<Rightarrow> 'w live \<Rightarrow> (string \<times> bool) \<times> 'w live" where
  "select_dns ops p l =
     (let eth_route = (static_eth_route p \<or> dhcp_eth_route p) in
      case cp_route_policy p of
        WifiPreferred \<Rightarrow>
          ((if wifi_route p \<and> wifi_dns p \<noteq> [] then wifi_dns p
            else if eth_route \<and> eth_dns p \<noteq> [] then eth_dns p else [], False), l)
      | WifiOnly \<Rightarrow> ((if wifi_route p \<and> wifi_dns p \<noteq> [] then wifi_dns p else [], False), l)
      | ManualMetric \<Rightarrow>
          (let eth_metric = route_metric p (cp_eth_iface p) (se_manual_metric (cp_static_eth p));
               wifi_metric = route_metric p (cp_wifi_iface p) (-1) in
           ((if wifi_route p \<and> (\<not> eth_route \<or> wifi_metric < eth_metric) then wifi_dns p
             else if eth_route \<and> eth_dns p \<noteq> [] then eth_dns p else [], False), l))
      | EthernetPreferred \<Rightarrow>
          (if eth_route \<and> eth_dns p \<noteq> [] then ((eth_dns p, False), l)
           else case (if op_snapshot ops = None then (False, l)
                      else case load_live ops l of (current, l1) \<Rightarrow>
                        (if_has_default_route (ns_eth current) \<and> \<not> eth_route, l1)) of
             (preserve_external, l1) \<Rightarrow>
               ((if \<not> preserve_external \<and> wifi_route p \<and> wifi_dns p \<noteq> [] then wifi_dns p else [],
                 preserve_external), l1)))"

definition release_dns :: "'w NetworkControlPlaneOps \<Rightarrow> 'w Run act" where
  "release_dns ops r =
     (if \<not> cp_managed_dns (plane r) then (True, r)
      else case op_clear_dns ops of
        None \<Rightarrow> refuse ''DNS clear port is unavailable'' r
      | Some f \<Rightarrow> act_seq (call_port f)
          (\<lambda>r1. (True, upd_plane (\<lambda>p. p\<lparr> cp_managed_dns := False, cp_last_dns := [] \<rparr>) r1)) r)"

definition recompute_dns :: "'w NetworkControlPlaneOps \<Rightarrow> 'w Run act" where
  "recompute_dns ops r0 =
     (case recover_dns_ownership ops (plane r0) (None, world r0) of (p, l) \<Rightarrow>
      case select_dns ops p l of ((selected, preserve_external), l1) \<Rightarrow>
      let r = r0\<lparr> err := [], plane := p, world := snd l1 \<rparr> in
      if preserve_external then release_dns ops r
      else if selected \<noteq> [] then
        (case (if cp_managed_dns p \<and> selected = cp_last_dns p then
                 (if op_snapshot ops = None then (True, l1)
                  else case load_live ops l1 of (current, l2) \<Rightarrow> (ns_dns4 current = selected, l2))
               else (False, l1)) of (up_to_date, l2) \<Rightarrow>
           let r1 = r\<lparr> world := snd l2 \<rparr> in
           if up_to_date then (True, r1)
           else case op_set_dns ops of
             None \<Rightarrow> refuse ''DNS configuration port is unavailable'' r1
           | Some f \<Rightarrow> act_seq (call_port (f selected))
               (\<lambda>r2. (True, upd_plane (\<lambda>p. p\<lparr> cp_managed_dns := True, cp_last_dns := selected \<rparr>) r2)) r1)
      else release_dns ops r)"

section \<open>Lifecycles\<close>

text \<open>\<open>start_dhcp\<close> between the route clean-up and the resolver pass: stop, forget the lease,
  flush the address, reset the recorded state.\<close>

definition reset_for_dhcp ::
  "'w NetworkControlPlaneOps \<Rightarrow> string \<Rightarrow> (string \<Rightarrow> 'w \<Rightarrow> 'w) \<Rightarrow> (string \<Rightarrow> 'w \<Rightarrow> 'w) \<Rightarrow> 'w Run \<Rightarrow> 'w Run" where
  "reset_for_dhcp ops iface stop clear_lease r =
     (let r2 = call_void (Some (clear_lease iface)) (call_void (Some (stop iface)) r);
          r3 = call_ignored (map_option (\<lambda>f. f iface) (op_clear_ipv4 ops)) r2 in
      upd_plane (\<lambda>p. let p1 = set_link iface LinkState_default p in
        if iface = cp_eth_iface p1 then p1\<lparr> cp_static_eth := StaticEthernetState_default \<rparr> else p1) r3)"

text \<open>The resolver pass writes its own \<open>dns_error\<close>, copied to \<open>error\<close> only when it fails.\<close>

definition launch_dhcp :: "'w NetworkControlPlaneOps \<Rightarrow> string \<Rightarrow> (string \<Rightarrow> 'w err_act) \<Rightarrow> 'w Run act" where
  "launch_dhcp ops iface start =
     act_seq (\<lambda>r. case recompute_dns ops r of (ok, r1) \<Rightarrow> (ok, if ok then r1\<lparr> err := err r \<rparr> else r1))
       (act_seq (call_port (start iface))
         (\<lambda>r. (True, upd_plane (\<lambda>p. set_link iface ((link_for p iface)\<lparr> ls_managed_dhcp := True \<rparr>) p) r)))"

definition start_dhcp :: "'w NetworkControlPlaneOps \<Rightarrow> string \<Rightarrow> 'w Run act" where
  "start_dhcp ops iface r0 =
     (let r = clear_err r0 in
      if \<not> known_iface (plane r) iface then refuse ''unknown DHCP interface'' r
      else case (op_start_dhcp ops, op_stop_dhcp ops, op_clear_lease ops) of
        (Some start, Some stop, Some clear_lease) \<Rightarrow>
          act_seq (clear_owned_route ops iface)
            (\<lambda>r1. launch_dhcp ops iface start (reset_for_dhcp ops iface stop clear_lease r1)) r
      | _ \<Rightarrow> refuse ''DHCP platform ports are unavailable'' r)"

definition stop_dhcp :: "'w NetworkControlPlaneOps \<Rightarrow> string \<Rightarrow> 'w Run \<Rightarrow> 'w Run" where
  "stop_dhcp ops iface r =
     (if \<not> known_iface (plane r) iface then r
      else let r1 = snd (clear_owned_route ops iface r);
               r2 = call_void (map_option (\<lambda>f. f iface) (op_clear_lease ops))
                      (call_void (map_option (\<lambda>f. f iface) (op_stop_dhcp ops)) r1);
               r3 = (case op_clear_ipv4 ops of None \<Rightarrow> r2 | Some f \<Rightarrow> snd (call_port (f iface) r2));
               r4 = upd_plane (set_link iface LinkState_default) r3 in
           snd (recompute_dns ops r4)\<lparr> err := err r \<rparr>)"

definition reset_for_static :: "string \<Rightarrow> (string \<Rightarrow> 'w \<Rightarrow> 'w) \<Rightarrow> (string \<Rightarrow> 'w \<Rightarrow> 'w) \<Rightarrow> 'w Run \<Rightarrow> 'w Run" where
  "reset_for_static eth stop clear_lease r =
     upd_plane (\<lambda>p. p\<lparr> cp_eth := LinkState_default, cp_static_eth := StaticEthernetState_default \<rparr>)
       (call_void (Some (clear_lease eth)) (call_void (Some (stop eth)) r))"

definition apply_ethernet_static ::
  "'w NetworkControlPlaneOps \<Rightarrow> string \<Rightarrow> string \<Rightarrow> string \<Rightarrow> string \<Rightarrow> int \<Rightarrow> 'w Run act" where
  "apply_ethernet_static ops ip4 netmask4 gateway4 dns4 manual_metric r0 =
     (let r = clear_err r0; eth = cp_eth_iface (plane r) in
      case (op_apply_ipv4 ops, op_stop_dhcp ops, op_clear_lease ops) of
        (Some apply_ipv4, Some stop, Some clear_lease) \<Rightarrow>
          act_seq (clear_owned_route ops eth)
            (\<lambda>r1. act_seq (call_port (apply_ipv4 eth ip4 netmask4))
              (\<lambda>r2. act_seq (apply_routes ops) (recompute_dns ops)
                (upd_plane (\<lambda>p. p\<lparr> cp_static_eth := \<lparr> se_active = True, se_ip4 = ip4,
                   se_netmask4 = netmask4, se_gateway4 = gateway4, se_dns4 = dns4,
                   se_manual_metric = manual_metric \<rparr> \<rparr>) r2))
              (reset_for_static eth stop clear_lease r1)) r
      | _ \<Rightarrow> refuse ''static IPv4 platform ports are unavailable'' r)"

definition adopt_dhcp :: "'w NetworkControlPlaneOps \<Rightarrow> string \<Rightarrow> 'w Run act" where
  "adopt_dhcp ops iface r0 =
     (let r = clear_err r0 in
      if \<not> known_iface (plane r) iface then refuse ''unknown DHCP interface'' r
      else if op_read_lease ops = None then refuse ''DHCP lease reader is unavailable'' r
      else (True, upd_plane (\<lambda>p.
        let p1 = set_owned_route iface OwnedRouteState_default
                   (set_link iface (LinkState_default\<lparr> ls_managed_dhcp := True \<rparr>) p) in
        if iface = cp_eth_iface p1 then p1\<lparr> cp_static_eth := StaticEthernetState_default \<rparr> else p1) r))"

section \<open>Reconciliation\<close>

text \<open>The \<open>LinkState &\<close> parameter is one of the object's two links; \<open>link\<close> and \<open>put_link\<close>
  select it.\<close>

datatype Link = Eth | Wifi

definition link_iface :: "NetworkControlPlane \<Rightarrow> Link \<Rightarrow> string" where
  "link_iface p k = (case k of Eth \<Rightarrow> cp_eth_iface p | Wifi \<Rightarrow> cp_wifi_iface p)"

definition link :: "NetworkControlPlane \<Rightarrow> Link \<Rightarrow> LinkState" where
  "link p k = (case k of Eth \<Rightarrow> cp_eth p | Wifi \<Rightarrow> cp_wifi p)"

definition put_link :: "Link \<Rightarrow> LinkState \<Rightarrow> NetworkControlPlane \<Rightarrow> NetworkControlPlane" where
  "put_link k l p = (case k of Eth \<Rightarrow> p\<lparr> cp_eth := l \<rparr> | Wifi \<Rightarrow> p\<lparr> cp_wifi := l \<rparr>)"

text \<open>Record a consumed lease fact; \<open>act\<close> is the new value of \<open>active\<close>.\<close>

definition commit_lease :: "Link \<Rightarrow> DhcpLeaseFact \<Rightarrow> bool \<Rightarrow> 'w Run \<Rightarrow> 'w Run" where
  "commit_lease k lease act = upd_plane (\<lambda>p. put_link k ((link p k)\<lparr> ls_active := act,
     ls_lease := lease, ls_fingerprint := fingerprint lease \<rparr>) p)"

definition consume_deconfig :: "'w NetworkControlPlaneOps \<Rightarrow> string \<Rightarrow> 'w Run act" where
  "consume_deconfig ops iface =
     act_seq (clear_owned_route ops iface)
       (\<lambda>r. case op_clear_ipv4 ops of
          None \<Rightarrow> (True, r)
        | Some f \<Rightarrow> (case f iface ([], world r) of (ok, clear_error, w) \<Rightarrow>
            if \<not> ok then (False, r\<lparr> err := clear_error, world := w \<rparr>) else (True, r\<lparr> world := w \<rparr>)))"

definition consume_configured :: "'w NetworkControlPlaneOps \<Rightarrow> string \<Rightarrow> DhcpLeaseFact \<Rightarrow> 'w Run act" where
  "consume_configured ops iface lease r =
     (case op_apply_ipv4 ops of
        None \<Rightarrow> refuse ''IPv4 configuration port is unavailable'' r
      | Some apply_ipv4 \<Rightarrow>
          act_seq (call_port (apply_ipv4 iface (lf_ip4 lease) (lf_netmask4 lease)))
            (\<lambda>r1. if route_allowed (plane r1) iface \<and> lf_gateway4 lease \<noteq> []
                  then ensure_owned_route ops iface (lf_gateway4 lease) (route_metric (plane r1) iface (-1)) r1
                  else clear_owned_route ops iface r1) r)"

text \<open>The result is the returned bool, the value of \<open>changed\<close> and the state.\<close>

definition reconcile_link :: "'w NetworkControlPlaneOps \<Rightarrow> Link \<Rightarrow> 'w Run \<Rightarrow> bool \<times> bool \<times> 'w Run" where
  "reconcile_link ops k r =
     (let iface = link_iface (plane r) k; state = link (plane r) k in
      if \<not> ls_managed_dhcp state then (True, False, r)
      else case op_read_lease ops of
        None \<Rightarrow> (False, False, r\<lparr> err := ''DHCP lease reader is unavailable'' \<rparr>)
      | Some read \<Rightarrow> (case read iface (err r, world r) of ((ok, found), e, w) \<Rightarrow>
          let r1 = r\<lparr> err := e, world := w \<rparr> in
          if \<not> ok then (False, False, r1)
          else case found of
            None \<Rightarrow> (True, False, r1)
          | Some lease \<Rightarrow>
              if fingerprint lease = ls_fingerprint state then (True, False, r1)
              else if lf_event lease = Lease_Deconfig then
                (case consume_deconfig ops iface r1 of (ok, r2) \<Rightarrow>
                   if ok then (True, True, commit_lease k lease False r2) else (False, False, r2))
              else if \<not> configured lease then
                (False, False, r1\<lparr> err := ''unsupported DHCP lease fact'' \<rparr>)
              else (case consume_configured ops iface lease r1 of (ok, r2) \<Rightarrow>
                   if ok then (True, True, commit_lease k lease True r2) else (False, False, r2))))"

definition repair_ipv4 :: "'w NetworkControlPlaneOps \<Rightarrow> string \<Rightarrow> InterfaceSnapshot \<Rightarrow> string \<Rightarrow> string \<Rightarrow> 'w Run act" where
  "repair_ipv4 ops iface observed ip4 netmask4 r =
     (if \<not> if_exists observed \<or> ip4 = [] \<or> netmask4 = [] then (True, r)
      else if if_has_ip observed \<and> if_ip4 observed = ip4 \<and> if_netmask4 observed = netmask4 then (True, r)
      else case op_apply_ipv4 ops of
        None \<Rightarrow> refuse ''IPv4 repair port is unavailable'' r
      | Some f \<Rightarrow> call_port (f iface ip4 netmask4) r)"

definition repair_route :: "'w NetworkControlPlaneOps \<Rightarrow> string \<Rightarrow> InterfaceSnapshot \<Rightarrow> string \<Rightarrow> int \<Rightarrow> 'w Run act" where
  "repair_route ops iface observed gateway4 metric r =
     (if \<not> if_exists observed \<or> \<not> route_allowed (plane r) iface \<or> gateway4 = [] then (True, r)
      else let owned = owned_route_for (plane r) iface in
        if ow_active owned \<and> ow_gateway4 owned = gateway4 \<and> ow_metric owned = metric
           \<and> if_has_default_route observed \<and> if_gateway4 observed = gateway4
           \<and> if_route_metric observed = metric then (True, r)
        else ensure_owned_route ops iface gateway4 metric r)"

definition repair_eth :: "'w NetworkControlPlaneOps \<Rightarrow> NetworkSnapshot \<Rightarrow> 'w Run act" where
  "repair_eth ops live r =
     (let p = plane r; eth = cp_eth_iface p; st = cp_static_eth p; lease = ls_lease (cp_eth p) in
      if se_active st then
        act_seq (repair_ipv4 ops eth (ns_eth live) (se_ip4 st) (se_netmask4 st))
          (repair_route ops eth (ns_eth live) (se_gateway4 st) (route_metric p eth (se_manual_metric st))) r
      else if ls_active (cp_eth p) \<and> configured lease then
        act_seq (repair_ipv4 ops eth (ns_eth live) (lf_ip4 lease) (lf_netmask4 lease))
          (repair_route ops eth (ns_eth live) (lf_gateway4 lease) (route_metric p eth (-1))) r
      else (True, r))"

definition repair_wifi :: "'w NetworkControlPlaneOps \<Rightarrow> NetworkSnapshot \<Rightarrow> 'w Run act" where
  "repair_wifi ops live r =
     (let p = plane r; wifi = cp_wifi_iface p; lease = ls_lease (cp_wifi p) in
      if ls_active (cp_wifi p) \<and> configured lease then
        act_seq (repair_ipv4 ops wifi (ns_wifi live) (lf_ip4 lease) (lf_netmask4 lease))
          (repair_route ops wifi (ns_wifi live) (lf_gateway4 lease) (route_metric p wifi (-1))) r
      else (True, r))"

definition repair_owned_state :: "'w NetworkControlPlaneOps \<Rightarrow> 'w Run act" where
  "repair_owned_state ops r0 =
     (let r = clear_err r0 in
      case op_snapshot ops of
        None \<Rightarrow> (True, r)
      | Some f \<Rightarrow> (case f (world r) of (live, w) \<Rightarrow>
          act_seq (repair_eth ops live) (repair_wifi ops live) (r\<lparr> world := w \<rparr>)))"

definition reconcile_full :: "'w NetworkControlPlaneOps \<Rightarrow> 'w Run act" where
  "reconcile_full ops r =
     (case reconcile_link ops Eth (clear_err r) of (ok1, _, r1) \<Rightarrow>
        if \<not> ok1 then (False, r1)
        else case reconcile_link ops Wifi r1 of (ok2, _, r2) \<Rightarrow>
          if \<not> ok2 then (False, r2)
          else act_seq (repair_owned_state ops) (recompute_dns ops) r2)"

definition refresh_external_state :: "'w NetworkControlPlaneOps \<Rightarrow> 'w Run act" where
  "refresh_external_state ops r = act_seq (repair_owned_state ops) (recompute_dns ops) (clear_err r)"

definition reconcile_changed :: "'w NetworkControlPlaneOps \<Rightarrow> 'w Run \<Rightarrow> bool \<times> bool \<times> 'w Run" where
  "reconcile_changed ops r =
     (case reconcile_link ops Eth (clear_err r) of (ok1, eth_changed, r1) \<Rightarrow>
        if \<not> ok1 then (False, False, r1)
        else case reconcile_link ops Wifi r1 of (ok2, wifi_changed, r2) \<Rightarrow>
          if \<not> ok2 then (False, False, r2)
          else let changed = (eth_changed \<or> wifi_changed \<or> \<not> cp_dns_ownership_initialized (plane r2)) in
            if \<not> changed then (True, False, r2)
            else case recompute_dns ops r2 of (ok, r3) \<Rightarrow> (ok, changed, r3))"

definition set_route_policy :: "'w NetworkControlPlaneOps \<Rightarrow> RoutePolicy \<Rightarrow> 'w Run act" where
  "set_route_policy ops policy r0 =
     (let r = clear_err r0; previous = cp_route_policy (plane r) in
      case act_seq (apply_routes ops) (recompute_dns ops) (upd_plane (\<lambda>p. p\<lparr> cp_route_policy := policy \<rparr>) r) of
        (ok, r1) \<Rightarrow>
          if ok then (True, r1)
          else (False, (snd (act_ignore (apply_routes ops) (recompute_dns ops)
                 (upd_plane (\<lambda>p. p\<lparr> cp_route_policy := previous \<rparr>) r1)))\<lparr> err := err r1 \<rparr>))"

end
