(* ===== verification/Control_Routes.thy ===== *)
theory Control_Routes
  imports Control_Plane
begin

text \<open>
  The control plane's routes. \<open>own_eth\<close> and \<open>own_wifi\<close> read the routes the object records as
  its own, \<open>desired_eth\<close> and \<open>desired_wifi\<close> are what policy, static configuration and leases
  ask for; a successful pass makes them equal, and whatever platform calls fail, a route the
  object believes to own is one it installed and has not removed.
\<close>

section \<open>Owned and desired routes\<close>

definition own_route :: "OwnedRouteState \<Rightarrow> (string \<times> int) option" where
  "own_route o' = (if ow_active o' then Some (ow_gateway4 o', ow_metric o') else None)"

definition own_eth :: "NetworkControlPlane \<Rightarrow> (string \<times> int) option" where
  "own_eth p = own_route (cp_eth_route p)"

definition own_wifi :: "NetworkControlPlane \<Rightarrow> (string \<times> int) option" where
  "own_wifi p = own_route (cp_wifi_route p)"

definition desired_eth :: "NetworkControlPlane \<Rightarrow> (string \<times> int) option" where
  "desired_eth p =
     (if static_eth_route p
      then Some (se_gateway4 (cp_static_eth p), route_metric p (cp_eth_iface p) (se_manual_metric (cp_static_eth p)))
      else if dhcp_eth_route p
      then Some (lf_gateway4 (ls_lease (cp_eth p)), route_metric p (cp_eth_iface p) (-1))
      else None)"

definition desired_wifi :: "NetworkControlPlane \<Rightarrow> (string \<times> int) option" where
  "desired_wifi p =
     (if wifi_route p then Some (lf_gateway4 (ls_lease (cp_wifi p)), route_metric p (cp_wifi_iface p) (-1))
      else None)"

text \<open>The rest of the object's state, that route operations leave alone.\<close>

definition routeless :: "NetworkControlPlane \<Rightarrow> NetworkControlPlane" where
  "routeless p = p\<lparr> cp_eth_route := OwnedRouteState_default, cp_wifi_route := OwnedRouteState_default \<rparr>"

lemma routeless_set_owned [simp]: "routeless (set_owned_route i o' p) = routeless p"
  by (simp add: set_owned_route_def routeless_def)

lemma upd_plane_fields [simp]:
  "plane (upd_plane f r) = f (plane r)" "world (upd_plane f r) = world r" "err (upd_plane f r) = err r"
  by (simp_all add: upd_plane_def)

lemma clear_err_fields [simp]:
  "plane (clear_err r) = plane r" "world (clear_err r) = world r" "err (clear_err r) = []"
  by (simp_all add: clear_err_def)

lemma call_port_plane: "call_port f r = (ok, r') \<Longrightarrow> plane r' = plane r"
  by (auto simp: call_port_def split: prod.splits)

lemma refuse_fields [simp]: "fst (refuse m r) = False" "plane (snd (refuse m r)) = plane r" "world (snd (refuse m r)) = world r"
  by (simp_all add: refuse_def)

lemma clear_owned_route_plane:
  assumes "clear_owned_route ops i r = (ok, r')"
  shows "plane r' = (if ok \<and> ow_active (owned_route_for (plane r) i)
    then set_owned_route i OwnedRouteState_default (plane r) else plane r)"
  using assms by (auto simp: clear_owned_route_def refuse_def act_seq_def Let_def
      dest!: call_port_plane split: if_splits option.splits prod.splits)

lemma owned_route_for_set [simp]: "owned_route_for (set_owned_route i o' p) i = o'"
  by (simp add: owned_route_for_def set_owned_route_def)

lemma set_owned_twice [simp]: "set_owned_route i a (set_owned_route i b p) = set_owned_route i a p"
  by (simp add: set_owned_route_def)

lemma ensure_owned_route_plane:
  assumes "gw \<noteq> []" and "ensure_owned_route ops i gw m r = (ok, r')"
  shows "if ok then plane r' = set_owned_route i \<lparr> ow_active = True, ow_gateway4 = gw, ow_metric = m \<rparr> (plane r)
    else plane r' = plane r \<or> plane r' = set_owned_route i OwnedRouteState_default (plane r)"
proof -
  let ?c = "ow_active (owned_route_for (plane r) i) \<and>
      (ow_gateway4 (owned_route_for (plane r) i) \<noteq> gw \<or> ow_metric (owned_route_for (plane r) i) \<noteq> m)"
  obtain b r1 where b: "(if ?c then clear_owned_route ops i else act_true) (clear_err r) = (b, r1)"
    by (cases "(if ?c then clear_owned_route ops i else act_true) (clear_err r)") auto
  have r1: "plane r1 = plane r \<or> plane r1 = set_owned_route i OwnedRouteState_default (plane r)"
    using b by (auto simp: act_true_def dest!: clear_owned_route_plane split: if_splits)
  show ?thesis
    using assms b r1
    by (auto simp: ensure_owned_route_def refuse_def act_seq_def Let_def
        dest!: call_port_plane split: if_splits option.splits prod.splits)
qed

lemma or_message_true: "or_message m f r = (True, r') \<longleftrightarrow> f r = (True, r')"
  by (auto simp: or_message_def split: prod.splits if_splits)

lemma or_message_plane: "or_message m f r = (ok, r') \<Longrightarrow> \<exists>r''. f r = (ok, r'') \<and> plane r' = plane r'' \<and> world r' = world r''"
  by (auto simp: or_message_def split: prod.splits if_splits)

section \<open>A successful pass installs what is desired\<close>

lemma own_route_new [simp]:
  "own_route \<lparr> ow_active = True, ow_gateway4 = g, ow_metric = m \<rparr> = Some (g, m)"
  "own_route OwnedRouteState_default = None"
  by (simp_all add: own_route_def OwnedRouteState_default_def)

lemma set_owned_eth: "own_eth (set_owned_route (cp_eth_iface p) o' p) = own_route o'"
  "cp_wifi_route (set_owned_route (cp_eth_iface p) o' p) = cp_wifi_route p"
  by (simp_all add: own_eth_def set_owned_route_def)

lemma set_owned_wifi:
  "cp_eth_iface p \<noteq> cp_wifi_iface p \<Longrightarrow> own_wifi (set_owned_route (cp_wifi_iface p) o' p) = own_route o'"
  "cp_eth_iface p \<noteq> cp_wifi_iface p \<Longrightarrow> cp_eth_route (set_owned_route (cp_wifi_iface p) o' p) = cp_eth_route p"
  by (auto simp: own_wifi_def set_owned_route_def)

lemma routeless_fields:
  assumes "routeless p = routeless q"
  shows "cp_eth_iface p = cp_eth_iface q" "cp_wifi_iface p = cp_wifi_iface q" "cp_eth p = cp_eth q"
    "cp_wifi p = cp_wifi q" "cp_static_eth p = cp_static_eth q" "cp_route_policy p = cp_route_policy q"
  using assms by (cases p; cases q; simp add: routeless_def)+

lemma desired_cong:
  assumes "routeless p = routeless q"
  shows "desired_eth p = desired_eth q" "desired_wifi p = desired_wifi q"
  using routeless_fields [OF assms]
  by (simp_all add: desired_eth_def desired_wifi_def static_eth_route_def dhcp_eth_route_def
      wifi_route_def route_allowed_def route_metric_def)

lemma clear_eth_own:
  assumes "clear_owned_route ops (cp_eth_iface (plane r)) r = (True, r')"
  shows "own_eth (plane r') = None \<and> cp_wifi_route (plane r') = cp_wifi_route (plane r)
    \<and> routeless (plane r') = routeless (plane r)"
  using clear_owned_route_plane [OF assms]
  by (auto simp: set_owned_eth own_eth_def own_route_def owned_route_for_def split: if_splits)
    (auto simp: set_owned_route_def OwnedRouteState_default_def)

lemma clear_wifi_own:
  assumes "cp_eth_iface (plane r) \<noteq> cp_wifi_iface (plane r)"
    and "clear_owned_route ops (cp_wifi_iface (plane r)) r = (True, r')"
  shows "own_wifi (plane r') = None \<and> cp_eth_route (plane r') = cp_eth_route (plane r)
    \<and> routeless (plane r') = routeless (plane r)"
  using clear_owned_route_plane [OF assms(2)] assms(1)
  by (auto simp: set_owned_wifi own_wifi_def own_route_def owned_route_for_def split: if_splits)
    (auto simp: set_owned_route_def OwnedRouteState_default_def)

lemma apply_eth_route_exact:
  assumes "apply_eth_route ops r = (True, r')"
  shows "own_eth (plane r') = desired_eth (plane r') \<and> cp_wifi_route (plane r') = cp_wifi_route (plane r)
    \<and> routeless (plane r') = routeless (plane r)"
proof -
  have set: "own_eth (plane r') = Some (g, m) \<and> cp_wifi_route (plane r') = cp_wifi_route (plane r)
      \<and> routeless (plane r') = routeless (plane r)"
    if "ensure_owned_route ops (cp_eth_iface (plane r)) g m r = (True, r')" "g \<noteq> []" for g m
    using ensure_owned_route_plane [OF that(2,1)] by (simp add: set_owned_eth)
  let ?d = "desired_eth (plane r)"
  have "own_eth (plane r') = ?d \<and> cp_wifi_route (plane r') = cp_wifi_route (plane r)
    \<and> routeless (plane r') = routeless (plane r)"
    using assms set clear_eth_own [of ops r r']
    by (auto simp: apply_eth_route_def or_message_true desired_eth_def static_eth_route_def
        dhcp_eth_route_def Let_def split: if_splits)
  then show ?thesis using desired_cong(1) by metis
qed

lemma apply_wifi_route_exact:
  assumes "cp_eth_iface (plane r) \<noteq> cp_wifi_iface (plane r)" and "apply_wifi_route ops r = (True, r')"
  shows "own_wifi (plane r') = desired_wifi (plane r') \<and> cp_eth_route (plane r') = cp_eth_route (plane r)
    \<and> routeless (plane r') = routeless (plane r)"
proof -
  have set: "own_wifi (plane r') = Some (g, m) \<and> cp_eth_route (plane r') = cp_eth_route (plane r)
      \<and> routeless (plane r') = routeless (plane r)"
    if "ensure_owned_route ops (cp_wifi_iface (plane r)) g m r = (True, r')" "g \<noteq> []" for g m
    using ensure_owned_route_plane [OF that(2,1)] assms(1) by (simp add: set_owned_wifi)
  have "own_wifi (plane r') = desired_wifi (plane r) \<and> cp_eth_route (plane r') = cp_eth_route (plane r)
    \<and> routeless (plane r') = routeless (plane r)"
    using assms(2) set clear_wifi_own [OF assms(1), of ops r']
    by (auto simp: apply_wifi_route_def or_message_true desired_wifi_def wifi_route_def Let_def split: if_splits)
  then show ?thesis using desired_cong(2) by metis
qed

lemma apply_routes_installs:
  assumes "cp_eth_iface (plane r) \<noteq> cp_wifi_iface (plane r)" and "apply_routes ops r = (True, r')"
  shows "own_eth (plane r') = desired_eth (plane r') \<and> own_wifi (plane r') = desired_wifi (plane r')
    \<and> routeless (plane r') = routeless (plane r)"
proof -
  obtain r1 where e: "apply_eth_route ops (clear_err r) = (True, r1)" and w: "apply_wifi_route ops r1 = (True, r')"
    using assms(2) unfolding apply_routes_def act_seq_true_iff by blast
  note e' = apply_eth_route_exact [OF e]
  then have ne: "cp_eth_iface (plane r1) \<noteq> cp_wifi_iface (plane r1)"
    using assms(1) routeless_fields [of "plane r1" "plane r"] by simp
  note w' = apply_wifi_route_exact [OF ne w]
  have "desired_eth (plane r') = desired_eth (plane r1)" using desired_cong(1) w' by blast
  with e' w' show ?thesis by (simp add: own_eth_def)
qed

section \<open>Resolver passes leave routes alone\<close>

definition dnsless :: "NetworkControlPlane \<Rightarrow> NetworkControlPlane" where
  "dnsless p = p\<lparr> cp_dns_ownership_initialized := False, cp_managed_dns := False, cp_last_dns := [] \<rparr>"

lemma release_dns_plane: "release_dns ops r = (ok, r') \<Longrightarrow> dnsless (plane r') = dnsless (plane r)"
  by (auto simp: release_dns_def refuse_def act_seq_def dnsless_def dest!: call_port_plane
      split: if_splits option.splits prod.splits)

lemma recover_plane: "recover_dns_ownership ops p l = (p', l') \<Longrightarrow> dnsless p' = dnsless p"
  by (auto simp: recover_dns_ownership_def dnsless_def split: if_splits prod.splits)

lemma recompute_dns_plane:
  assumes "recompute_dns ops r = (ok, r')"
  shows "dnsless (plane r') = dnsless (plane r)"
proof -
  obtain p l where rec: "recover_dns_ownership ops (plane r) (None, world r) = (p, l)"
    by (cases "recover_dns_ownership ops (plane r) (None, world r)")
  obtain s e l1 where sel: "select_dns ops p l = ((s, e), l1)" by (cases "select_dns ops p l") auto
  have "dnsless (plane r') = dnsless p"
    using assms unfolding recompute_dns_def rec sel
    by (auto simp: Let_def refuse_def act_seq_def dest!: call_port_plane release_dns_plane
        split: if_splits option.splits prod.splits) (simp_all add: dnsless_def)
  with recover_plane [OF rec] show ?thesis by simp
qed

lemma dnsless_fields:
  assumes "dnsless p = dnsless q"
  shows "cp_eth_route p = cp_eth_route q" "cp_wifi_route p = cp_wifi_route q"
    "cp_eth_iface p = cp_eth_iface q" "cp_wifi_iface p = cp_wifi_iface q"
    "cp_eth p = cp_eth q" "cp_wifi p = cp_wifi q"
    "cp_static_eth p = cp_static_eth q" "cp_route_policy p = cp_route_policy q"
  using assms by (cases p; cases q; simp add: dnsless_def)+

lemma own_dnsless:
  assumes "dnsless p = dnsless q"
  shows "own_eth p = own_eth q" "own_wifi p = own_wifi q" "desired_eth p = desired_eth q" "desired_wifi p = desired_wifi q"
  using dnsless_fields [OF assms]
  by (simp_all add: own_eth_def own_wifi_def desired_eth_def desired_wifi_def static_eth_route_def
      dhcp_eth_route_def wifi_route_def route_allowed_def route_metric_def)

lemma clear_owned_route_frame: "clear_owned_route ops i r = (ok, r') \<Longrightarrow> routeless (plane r') = routeless (plane r)"
  by (drule clear_owned_route_plane) (simp split: if_splits)

lemma ensure_owned_route_frame:
  assumes "ensure_owned_route ops i gw m r = (ok, r')"
  shows "routeless (plane r') = routeless (plane r)"
proof (cases "gw = []")
  case True
  with assms show ?thesis by (auto simp: ensure_owned_route_def dest!: clear_owned_route_frame)
next
  case False
  from ensure_owned_route_plane [OF this assms] show ?thesis by (auto split: if_splits)
qed

lemma apply_routes_frame:
  assumes "apply_routes ops r = (ok, r')"
  shows "routeless (plane r') = routeless (plane r)"
proof -
  have e: "apply_eth_route ops r = (ok, r') \<Longrightarrow> routeless (plane r') = routeless (plane r)" for r ok r'
    by (auto simp: apply_eth_route_def Let_def split: if_splits
        dest!: or_message_plane ensure_owned_route_frame clear_owned_route_frame)
  have w: "apply_wifi_route ops r = (ok, r') \<Longrightarrow> routeless (plane r') = routeless (plane r)" for r ok r'
    by (auto simp: apply_wifi_route_def Let_def split: if_splits
        dest!: or_message_plane ensure_owned_route_frame clear_owned_route_frame)
  show ?thesis
    using assms by (auto simp: apply_routes_def act_seq_def split: prod.splits if_splits dest!: e w)
qed

end
