(* ===== verification/Control_Ledger.thy ===== *)
theory Control_Ledger
  imports Control_Routes
begin

text \<open>
  Route ownership against the platform. \<open>mine w\<close> is the ledger of default routes (interface,
  gateway, metric) that were installed or confirmed through \<open>set_default_route\<close> and not deleted
  through \<open>clear_default_route\<close> since: a successful call of the first adds exactly its argument, one
  of the second removes exactly its argument and no other function touches the ledger
  (\<open>route_contract\<close>). Under every sequence of the object's methods, whichever platform calls
  fail, each route the object records as owned is in the ledger, hence it never asks the
  platform to delete a route that it did not install or confirm. After a successful
  \<open>set_route_policy\<close> the owned routes are exactly the desired ones.
\<close>

type_synonym route = "string \<times> string \<times> int"

definition slot_routes :: "string \<Rightarrow> (string \<times> int) option \<Rightarrow> route set" where
  "slot_routes i o' = (case o' of None \<Rightarrow> {} | Some (g, m) \<Rightarrow> {(i, g, m)})"

definition owned_routes :: "NetworkControlPlane \<Rightarrow> route set" where
  "owned_routes p = slot_routes (cp_eth_iface p) (own_eth p) \<union> slot_routes (cp_wifi_iface p) (own_wifi p)"

definition installs :: "('w \<Rightarrow> route set) \<Rightarrow> (string \<Rightarrow> string \<Rightarrow> int \<Rightarrow> 'w err_act) \<Rightarrow> bool" where
  "installs mine f \<longleftrightarrow> (\<forall>i g m s ok e w. f i g m s = (ok, e, w) \<longrightarrow>
     mine w = (if ok then insert (i, g, m) (mine (snd s)) else mine (snd s)))"

definition uninstalls :: "('w \<Rightarrow> route set) \<Rightarrow> (string \<Rightarrow> string \<Rightarrow> int \<Rightarrow> 'w err_act) \<Rightarrow> bool" where
  "uninstalls mine f \<longleftrightarrow> (\<forall>i g m s ok e w. f i g m s = (ok, e, w) \<longrightarrow>
     mine w = (if ok then mine (snd s) - {(i, g, m)} else mine (snd s)))"

definition untouched :: "('w \<Rightarrow> 'a) \<Rightarrow> ('w \<Rightarrow> 'w) \<Rightarrow> bool" where
  "untouched mine f \<longleftrightarrow> (\<forall>w. mine (f w) = mine w)"

text \<open>\<open>quiet_contract v ops\<close>: the functions other than the two route functions leave \<open>v\<close> alone.\<close>

definition quiet_contract :: "('w \<Rightarrow> 'a) \<Rightarrow> 'w NetworkControlPlaneOps \<Rightarrow> bool" where
  "quiet_contract v ops \<longleftrightarrow>
     opt_all (\<lambda>f. \<forall>i. keeps v (f i)) (op_start_dhcp ops)
     \<and> opt_all (\<lambda>f. \<forall>i. untouched v (f i)) (op_stop_dhcp ops)
     \<and> opt_all (\<lambda>f. \<forall>i. keeps v (f i)) (op_read_lease ops)
     \<and> opt_all (\<lambda>f. \<forall>i. untouched v (f i)) (op_clear_lease ops)
     \<and> opt_all (\<lambda>f. \<forall>i a n. keeps v (f i a n)) (op_apply_ipv4 ops)
     \<and> opt_all (\<lambda>f. \<forall>i. keeps v (f i)) (op_clear_ipv4 ops)
     \<and> opt_all (\<lambda>f. \<forall>d. keeps v (f d)) (op_set_dns ops)
     \<and> opt_all (keeps v) (op_clear_dns ops)
     \<and> opt_all (\<lambda>f. untouched v (\<lambda>w. snd (f w))) (op_snapshot ops)"

definition route_contract :: "('w \<Rightarrow> route set) \<Rightarrow> 'w NetworkControlPlaneOps \<Rightarrow> bool" where
  "route_contract mine ops \<longleftrightarrow>
     opt_all (installs mine) (op_set_default_route ops)
     \<and> opt_all (uninstalls mine) (op_clear_default_route ops)
     \<and> quiet_contract mine ops"

section \<open>The invariant\<close>

definition owned_inv :: "('w \<Rightarrow> route set) \<Rightarrow> string \<Rightarrow> string \<Rightarrow> 'w Run \<Rightarrow> bool" where
  "owned_inv mine e w r \<longleftrightarrow> cp_eth_iface (plane r) = e \<and> cp_wifi_iface (plane r) = w \<and> e \<noteq> w
     \<and> owned_routes (plane r) \<subseteq> mine (world r)"

abbreviation preserves :: "('w Run \<Rightarrow> bool) \<Rightarrow> 'w Run act \<Rightarrow> bool" where
  "preserves J f \<equiv> valid J f J J"

lemma preservesI: "(\<And>r ok r'. J r \<Longrightarrow> f r = (ok, r') \<Longrightarrow> J r') \<Longrightarrow> preserves J f"
  by (rule validI) (metis prod.collapse)

lemma preservesD: "preserves J f \<Longrightarrow> J r \<Longrightarrow> f r = (ok, r') \<Longrightarrow> J r'"
  by (auto simp: valid_def split: if_splits dest!: spec [of _ r])

lemma preserves_seq: "preserves J f \<Longrightarrow> preserves J g \<Longrightarrow> preserves J (act_seq f g)"
  by (rule valid_seq)

lemma owned_inv_plane:
  "owned_inv mine e w r \<Longrightarrow> world r' = world r \<Longrightarrow> cp_eth_iface (plane r') = cp_eth_iface (plane r) \<Longrightarrow>
   cp_wifi_iface (plane r') = cp_wifi_iface (plane r) \<Longrightarrow> own_eth (plane r') = own_eth (plane r) \<Longrightarrow>
   own_wifi (plane r') = own_wifi (plane r) \<Longrightarrow> owned_inv mine e w r'"
  by (auto simp: owned_inv_def owned_routes_def)

lemma owned_inv_world:
  "owned_inv mine e w r \<Longrightarrow> plane r' = plane r \<Longrightarrow> mine (world r') = mine (world r) \<Longrightarrow> owned_inv mine e w r'"
  by (simp add: owned_inv_def)

lemma preserves_port: "keeps mine f \<Longrightarrow> preserves (owned_inv mine e w) (call_port f)"
proof (rule preservesI)
  fix r ok r' assume keep: "keeps mine f" and inv: "owned_inv mine e w r" and run: "call_port f r = (ok, r')"
  obtain b x y where f: "f (err r, world r) = (b, x, y)" by (cases "f (err r, world r)") auto
  have "mine y = mine (world r)" using keepsD [OF keep f] by simp
  then show "owned_inv mine e w r'" using run f inv by (auto simp: call_port_def owned_inv_def)
qed

lemma preserves_refuse: "preserves (owned_inv mine e w) (refuse m)"
  by (rule preservesI) (auto simp: refuse_def intro: owned_inv_world)

lemma preserves_clear:
  assumes "route_contract mine ops" and "i = e \<or> i = w"
  shows "preserves (owned_inv mine e w) (clear_owned_route ops i)"
proof (rule preservesI)
  fix r ok r' assume inv: "owned_inv mine e w r" and run: "clear_owned_route ops i r = (ok, r')"
  note pl = clear_owned_route_plane [OF run]
  let ?o = "owned_route_for (plane r) i"
  show "owned_inv mine e w r'"
  proof (cases "ow_active ?o \<and> op_clear_default_route ops \<noteq> None")
    case False
    then have "plane r' = plane r" and "world r' = world r"
      using run by (auto simp: clear_owned_route_def Let_def refuse_def split: if_splits)
    then show ?thesis using inv owned_inv_world by metis
  next
    case True
    then obtain f where f: "op_clear_default_route ops = Some f" by auto
    obtain b er w1 where c: "f i (ow_gateway4 ?o) (ow_metric ?o) ([], world r) = (b, er, w1)"
      by (cases "f i (ow_gateway4 ?o) (ow_metric ?o) ([], world r)") auto
    have "uninstalls mine f" using assms(1) f by (simp add: route_contract_def opt_all_def)
    then have m: "mine w1 = (if b then mine (world r) - {(i, ow_gateway4 ?o, ow_metric ?o)} else mine (world r))"
      using c unfolding uninstalls_def by fastforce
    have "ok = b" and "world r' = w1"
      using run True f c by (auto simp: clear_owned_route_def Let_def act_seq_def call_port_def split: if_splits)
    then show ?thesis
      using inv pl True m assms(2)
      by (cases b) (auto simp: owned_inv_def owned_routes_def slot_routes_def own_eth_def own_wifi_def
          set_owned_route_def owned_route_for_def own_route_def OwnedRouteState_default_def split: if_splits)
  qed
qed

lemma preserves_ensure:
  assumes "route_contract mine ops" and "i = e \<or> i = w"
  shows "preserves (owned_inv mine e w) (ensure_owned_route ops i g m)"
proof (rule preservesI)
  fix r ok r' assume inv: "owned_inv mine e w r" and run: "ensure_owned_route ops i g m r = (ok, r')"
  have inv0: "owned_inv mine e w (clear_err r)" using inv by (rule owned_inv_world) simp_all
  show "owned_inv mine e w r'"
  proof (cases "g = [] \<or> op_set_default_route ops = None")
    case True
    then show ?thesis
      using run inv0 preservesD [OF preserves_clear [OF assms]] preservesD [OF preserves_refuse]
      by (auto simp: ensure_owned_route_def Let_def split: if_splits option.splits)
  next
    case False
    then obtain f where f: "op_set_default_route ops = Some f" by auto
    define c where "c = (if ow_active (owned_route_for (plane r) i) \<and>
        (ow_gateway4 (owned_route_for (plane r) i) \<noteq> g \<or> ow_metric (owned_route_for (plane r) i) \<noteq> m)
        then clear_owned_route ops i else act_true)"
    obtain b r1 where c1: "c (clear_err r) = (b, r1)" by (cases "c (clear_err r)")
    have "preserves (owned_inv mine e w) act_true" by (rule valid_true)
    then have "preserves (owned_inv mine e w) c" using preserves_clear [OF assms] by (simp add: c_def)
    from preservesD [OF this inv0 c1] have inv1: "owned_inv mine e w r1" .
    obtain b2 er w2 where f2: "f i g m (err r1, world r1) = (b2, er, w2)"
      by (cases "f i g m (err r1, world r1)") auto
    have "installs mine f" using assms(1) f by (simp add: route_contract_def opt_all_def)
    then have mine: "mine w2 = (if b2 then insert (i, g, m) (mine (world r1)) else mine (world r1))"
      using f2 unfolding installs_def by fastforce
    have "ensure_owned_route ops i g m r = act_seq c (act_seq (call_port (f i g m))
        (\<lambda>r1. (True, upd_plane (set_owned_route i
            \<lparr> ow_active = True, ow_gateway4 = g, ow_metric = m \<rparr>) r1))) (clear_err r)"
      using False f by (simp add: ensure_owned_route_def Let_def c_def)
    then have "r' = (if b \<and> b2 then upd_plane (set_owned_route i \<lparr> ow_active = True, ow_gateway4 = g, ow_metric = m \<rparr>)
         (r1\<lparr> err := er, world := w2 \<rparr>) else if b then r1\<lparr> err := er, world := w2 \<rparr> else r1)"
      using run c1 f2 by (auto simp: act_seq_def call_port_def split: if_splits)
    then show ?thesis
      using inv1 mine assms(2)
      by (auto simp: owned_inv_def owned_routes_def slot_routes_def own_eth_def own_wifi_def
          set_owned_route_def split: if_splits option.splits)
  qed
qed

text \<open>Changes of the object that concern neither routes nor interface names.\<close>

definition route_neutral :: "(NetworkControlPlane \<Rightarrow> NetworkControlPlane) \<Rightarrow> bool" where
  "route_neutral f \<longleftrightarrow> (\<forall>p. cp_eth_iface (f p) = cp_eth_iface p \<and> cp_wifi_iface (f p) = cp_wifi_iface p
     \<and> cp_eth_route (f p) = cp_eth_route p \<and> cp_wifi_route (f p) = cp_wifi_route p)"

lemma owned_inv_upd: "route_neutral f \<Longrightarrow> owned_inv mine e w r \<Longrightarrow> owned_inv mine e w (upd_plane f r)"
  by (erule owned_inv_plane) (simp_all add: route_neutral_def own_eth_def own_wifi_def)

lemma owned_inv_err: "owned_inv mine e w (r\<lparr> err := x \<rparr>) = owned_inv mine e w r"
  by (simp add: owned_inv_def)

lemma owned_inv_clear_err [simp]: "owned_inv mine e w (clear_err r) = owned_inv mine e w r"
  by (simp add: clear_err_def owned_inv_err)

lemma preserves_cleared:
  "preserves (owned_inv mine e w) f \<Longrightarrow> preserves (owned_inv mine e w) (\<lambda>r. f (clear_err r))"
  by (rule preservesI) (metis preservesD owned_inv_clear_err)

lemma preserves_or_message:
  "preserves (owned_inv mine e w) f \<Longrightarrow> preserves (owned_inv mine e w) (or_message msg f)"
  by (rule preservesI)
    (auto simp: or_message_def owned_inv_err split: prod.splits if_splits dest: preservesD)

lemma preserves_apply_routes:
  assumes "route_contract mine ops"
  shows "preserves (owned_inv mine e w) (apply_routes ops)"
proof -
  note rules = preservesD [OF preserves_or_message [OF preserves_ensure [OF assms]]]
    preservesD [OF preserves_clear [OF assms]]
  have "preserves (owned_inv mine e w) (apply_eth_route ops)"
  proof (rule preservesI)
    fix r ok r' assume "owned_inv mine e w r" and "apply_eth_route ops r = (ok, r')"
    moreover from this(1) have "cp_eth_iface (plane r) = e" by (simp add: owned_inv_def)
    ultimately show "owned_inv mine e w r'"
      by (auto simp: apply_eth_route_def Let_def split: if_splits intro: rules)
  qed
  moreover have "preserves (owned_inv mine e w) (apply_wifi_route ops)"
  proof (rule preservesI)
    fix r ok r' assume "owned_inv mine e w r" and "apply_wifi_route ops r = (ok, r')"
    moreover from this(1) have "cp_wifi_iface (plane r) = w" by (simp add: owned_inv_def)
    ultimately show "owned_inv mine e w r'"
      by (auto simp: apply_wifi_route_def Let_def split: if_splits intro: rules)
  qed
  ultimately have "preserves (owned_inv mine e w) (act_seq (apply_eth_route ops) (apply_wifi_route ops))"
    by (rule preserves_seq)
  from preserves_cleared [OF this] show ?thesis by (simp add: apply_routes_def [abs_def])
qed

section \<open>Resolver passes\<close>

lemma quiet_ports:
  assumes "quiet_contract mine ops"
  shows "op_start_dhcp ops = Some f1 \<Longrightarrow> keeps mine (f1 i)"
    and "op_stop_dhcp ops = Some f2 \<Longrightarrow> untouched mine (f2 i)"
    and "op_read_lease ops = Some f3 \<Longrightarrow> keeps mine (f3 i)"
    and "op_clear_lease ops = Some f4 \<Longrightarrow> untouched mine (f4 i)"
    and "op_apply_ipv4 ops = Some f5 \<Longrightarrow> keeps mine (f5 i a n)"
    and "op_clear_ipv4 ops = Some f6 \<Longrightarrow> keeps mine (f6 i)"
    and "op_set_dns ops = Some f7 \<Longrightarrow> keeps mine (f7 d)"
    and "op_clear_dns ops = Some f8 \<Longrightarrow> keeps mine f8"
    and "op_snapshot ops = Some f9 \<Longrightarrow> untouched mine (\<lambda>w. snd (f9 w))"
  using assms by (simp_all add: quiet_contract_def opt_all_def)

lemma untouchedD: "untouched mine f \<Longrightarrow> mine (f w) = mine w"
  by (simp add: untouched_def)

lemma snapshot_mine: "quiet_contract mine ops \<Longrightarrow> op_snapshot ops = Some f \<Longrightarrow> f w = (x, w') \<Longrightarrow> mine w' = mine w"
  using quiet_ports(9) [of mine ops f] untouchedD [of mine "\<lambda>w. snd (f w)" w] by simp

lemma load_live_mine:
  "quiet_contract mine ops \<Longrightarrow> load_live ops l = (c, l') \<Longrightarrow> mine (snd l') = mine (snd l)"
  by (auto simp: load_live_def split: prod.splits option.splits dest: snapshot_mine)

lemma recover_mine:
  "quiet_contract mine ops \<Longrightarrow> recover_dns_ownership ops p l = (p', l') \<Longrightarrow> mine (snd l') = mine (snd l)"
  by (auto simp: recover_dns_ownership_def split: if_splits prod.splits dest: load_live_mine)

lemma select_mine:
  "quiet_contract mine ops \<Longrightarrow> select_dns ops p l = (c, l') \<Longrightarrow> mine (snd l') = mine (snd l)"
  by (auto simp: select_dns_def Let_def split: if_splits prod.splits RoutePolicy.splits dest: load_live_mine)

lemma call_port_mine: "keeps mine f \<Longrightarrow> call_port f r = (ok, r') \<Longrightarrow> mine (world r') = mine (world r)"
  by (auto simp: call_port_def split: prod.splits dest: keepsD)

lemma release_dns_mine:
  "quiet_contract mine ops \<Longrightarrow> release_dns ops r = (ok, r') \<Longrightarrow> mine (world r') = mine (world r)"
  using call_port_mine [OF quiet_ports(8)]
  by (fastforce simp: release_dns_def refuse_def act_seq_def split: if_splits option.splits prod.splits)

lemma recompute_dns_mine:
  assumes "quiet_contract mine ops" and "recompute_dns ops r = (ok, r')"
  shows "mine (world r') = mine (world r)"
proof -
  obtain p l where rec: "recover_dns_ownership ops (plane r) (None, world r) = (p, l)"
    by (cases "recover_dns_ownership ops (plane r) (None, world r)")
  obtain s x l1 where sel: "select_dns ops p l = ((s, x), l1)" by (cases "select_dns ops p l") auto
  have l1: "mine (snd l1) = mine (world r)"
    using select_mine [OF assms(1) sel] recover_mine [OF assms(1) rec] by simp
  define q where "q = r\<lparr> err := [], plane := p, world := snd l1 \<rparr>"
  have q: "mine (world q) = mine (world r)" by (simp add: q_def l1)
  define upd where "upd = (if cp_managed_dns p \<and> s = cp_last_dns p then
      (if op_snapshot ops = None then (True, l1)
       else case load_live ops l1 of (current, l2) \<Rightarrow> (ns_dns4 current = s, l2)) else (False, l1))"
  obtain u l2 where u: "upd = (u, l2)" by (cases upd)
  have l2: "mine (snd l2) = mine (world r)"
    using u l1 load_live_mine [OF assms(1)] by (auto simp: upd_def split: if_splits prod.splits)
  show ?thesis
    using assms(2) l1 l2 q release_dns_mine [OF assms(1), of q ok r']
      call_port_mine [OF quiet_ports(7) [OF assms(1)]]
    unfolding recompute_dns_def rec sel prod.case Let_def q_def [symmetric] upd_def [symmetric] u
    by (auto simp: refuse_def act_seq_def split: if_splits option.splits prod.splits)
qed

lemma route_quiet: "route_contract mine ops \<Longrightarrow> quiet_contract mine ops"
  by (simp add: route_contract_def)

lemmas contract_ports = quiet_ports [OF route_quiet]

lemma preserves_recompute:
  assumes "route_contract mine ops"
  shows "preserves (owned_inv mine e w) (recompute_dns ops)"
proof (rule preservesI)
  fix r ok r' assume inv: "owned_inv mine e w r" and run: "recompute_dns ops r = (ok, r')"
  note pl = recompute_dns_plane [OF run]
  show "owned_inv mine e w r'"
    using inv recompute_dns_mine [OF route_quiet [OF assms] run] dnsless_fields [OF pl] own_dnsless [OF pl]
    by (auto simp: owned_inv_def owned_routes_def)
qed

section \<open>Methods\<close>

lemma owned_inv_void: "opt_all (untouched mine) f \<Longrightarrow> owned_inv mine e w r \<Longrightarrow> owned_inv mine e w (call_void f r)"
  by (auto simp: call_void_def owned_inv_def opt_all_def untouched_def split: option.splits)

lemma owned_inv_ignored: "opt_all (keeps mine) f \<Longrightarrow> owned_inv mine e w r \<Longrightarrow> owned_inv mine e w (call_ignored f r)"
  using keeps_ignored [of mine f "world r"] by (simp add: call_ignored_def owned_inv_def)

lemma contract_opt:
  assumes "route_contract mine ops"
  shows "opt_all (untouched mine) (map_option (\<lambda>f. f i) (op_stop_dhcp ops))"
    and "opt_all (untouched mine) (map_option (\<lambda>f. f i) (op_clear_lease ops))"
    and "opt_all (keeps mine) (map_option (\<lambda>f. f i) (op_clear_ipv4 ops))"
  using route_quiet [OF assms] by (auto simp: quiet_contract_def opt_all_def split: option.splits)

lemma neutral_links:
  "route_neutral (set_link i l)" "route_neutral (put_link k l)"
  "route_neutral (\<lambda>p. p\<lparr> cp_eth := l, cp_static_eth := x \<rparr>)" "route_neutral (\<lambda>p. p\<lparr> cp_static_eth := x \<rparr>)"
  "route_neutral (\<lambda>p. p\<lparr> cp_route_policy := pol \<rparr>)"
  by (simp_all add: route_neutral_def set_link_def put_link_def split: Link.splits)

lemma neutral_start:
  "route_neutral (\<lambda>p. let p1 = set_link i l p in
     if i = cp_eth_iface p1 then p1\<lparr> cp_static_eth := x \<rparr> else p1)"
  "route_neutral (\<lambda>p. set_link i (g p) p)" "route_neutral (\<lambda>p. put_link k (h p) p)"
  by (simp_all add: route_neutral_def set_link_def put_link_def Let_def split: Link.splits)

lemma owned_inv_known: "owned_inv mine e w r \<Longrightarrow> known_iface (plane r) i \<longleftrightarrow> i = e \<or> i = w"
  by (auto simp: owned_inv_def known_iface_def)

lemma preserves_cond:
  "(\<And>r. J r \<Longrightarrow> \<not> c r \<Longrightarrow> b) \<Longrightarrow> preserves J f \<Longrightarrow> (b \<Longrightarrow> preserves J g) \<Longrightarrow>
   preserves J (\<lambda>r. if c r then f r else g r)"
  by (rule preservesI) (metis preservesD)

lemma preserves_pre: "(\<And>r. J r \<Longrightarrow> J (h r)) \<Longrightarrow> preserves J f \<Longrightarrow> preserves J (\<lambda>r. f (h r))"
  by (rule preservesI) (metis preservesD)

lemma preserves_upd: "route_neutral f \<Longrightarrow> preserves (owned_inv mine e w) (\<lambda>r. (True, upd_plane f r))"
  by (rule preservesI) (auto intro: owned_inv_upd)

lemma owned_inv_reset:
  assumes "route_contract mine ops" and "op_stop_dhcp ops = Some sp" and "op_clear_lease ops = Some cl"
    and "owned_inv mine e w r"
  shows "owned_inv mine e w (reset_for_dhcp ops i sp cl r)" "owned_inv mine e w (reset_for_static i sp cl r)"
proof -
  have "owned_inv mine e w (call_void (Some (cl i)) (call_void (Some (sp i)) r))"
    using contract_ports(2) [OF assms(1,2)] contract_ports(4) [OF assms(1,3)] assms(4)
    by (intro owned_inv_void) (simp_all add: opt_all_def)
  then show "owned_inv mine e w (reset_for_dhcp ops i sp cl r)" "owned_inv mine e w (reset_for_static i sp cl r)"
    unfolding reset_for_dhcp_def reset_for_static_def Let_def [of "call_void _ _"] Let_def [of "call_ignored _ _"]
    by (intro owned_inv_upd neutral_start neutral_links owned_inv_ignored contract_opt [OF assms(1)]; assumption)+
qed

lemma preserves_launch:
  assumes "route_contract mine ops" and "op_start_dhcp ops = Some st"
  shows "preserves (owned_inv mine e w) (launch_dhcp ops i st)"
proof -
  have "preserves (owned_inv mine e w)
      (\<lambda>r. case recompute_dns ops r of (ok, r1) \<Rightarrow> (ok, if ok then r1\<lparr> err := err r \<rparr> else r1))"
    by (rule preservesI) (auto simp: owned_inv_err split: prod.splits if_splits
        dest: preservesD [OF preserves_recompute [OF assms(1)]])
  then show ?thesis
    unfolding launch_dhcp_def
    by (rule preserves_seq) (intro preserves_seq preserves_port preserves_upd neutral_start contract_ports(1) [OF assms])
qed

lemma preserves_start:
  assumes "route_contract mine ops"
  shows "preserves (owned_inv mine e w) (start_dhcp ops i)"
proof (rule preservesI)
  fix r ok r' assume inv: "owned_inv mine e w r" and run: "start_dhcp ops i r = (ok, r')"
  show "owned_inv mine e w r'"
  proof (cases "known_iface (plane r) i \<and> op_start_dhcp ops \<noteq> None \<and> op_stop_dhcp ops \<noteq> None \<and> op_clear_lease ops \<noteq> None")
    case False
    then have "r' = r\<lparr> err := err r' \<rparr>"
      using run by (auto simp: start_dhcp_def refuse_def clear_err_def Let_def split: if_splits option.splits)
    with inv show ?thesis by (metis owned_inv_err)
  next
    case True
    then obtain st sp cl where ports: "op_start_dhcp ops = Some st" "op_stop_dhcp ops = Some sp"
      "op_clear_lease ops = Some cl" by auto
    have i: "i = e \<or> i = w" using True owned_inv_known [OF inv] by blast
    have "preserves (owned_inv mine e w)
        (act_seq (clear_owned_route ops i) (\<lambda>r1. launch_dhcp ops i st (reset_for_dhcp ops i sp cl r1)))"
      by (rule preserves_seq [OF preserves_clear [OF assms i]], rule preserves_pre [where h = "reset_for_dhcp ops i sp cl"])
        (use owned_inv_reset(1) [OF assms ports(2,3)] preserves_launch [OF assms ports(1)] in auto)
    from preservesD [OF this, of "clear_err r"] show ?thesis
      using run inv True ports by (simp add: start_dhcp_def Let_def)
  qed
qed

lemma preserves_static:
  assumes "route_contract mine ops"
  shows "preserves (owned_inv mine e w) (apply_ethernet_static ops ip nm gw dns met)"
proof (rule preservesI)
  fix r ok r' assume inv: "owned_inv mine e w r" and run: "apply_ethernet_static ops ip nm gw dns met r = (ok, r')"
  show "owned_inv mine e w r'"
  proof (cases "op_apply_ipv4 ops \<noteq> None \<and> op_stop_dhcp ops \<noteq> None \<and> op_clear_lease ops \<noteq> None")
    case False
    then have "r' = r\<lparr> err := err r' \<rparr>"
      using run by (auto simp: apply_ethernet_static_def refuse_def clear_err_def Let_def split: if_splits option.splits)
    with inv show ?thesis by (metis owned_inv_err)
  next
    case True
    then obtain ap sp cl where ports: "op_apply_ipv4 ops = Some ap" "op_stop_dhcp ops = Some sp"
      "op_clear_lease ops = Some cl" by auto
    have e: "cp_eth_iface (plane r) = e" using inv by (simp add: owned_inv_def)
    let ?up = "upd_plane (\<lambda>p. p\<lparr> cp_static_eth := \<lparr> se_active = True, se_ip4 = ip, se_netmask4 = nm,
        se_gateway4 = gw, se_dns4 = dns, se_manual_metric = met \<rparr> \<rparr>)"
    have fin: "preserves (owned_inv mine e w) (\<lambda>r2. act_seq (apply_routes ops) (recompute_dns ops) (?up r2))"
      by (rule preserves_pre [where h = ?up])
        (auto intro: owned_inv_upd neutral_links preserves_seq preserves_apply_routes preserves_recompute assms)
    have "preserves (owned_inv mine e w) (act_seq (clear_owned_route ops e)
        (\<lambda>r1. act_seq (call_port (ap e ip nm)) (\<lambda>r2. act_seq (apply_routes ops) (recompute_dns ops) (?up r2))
          (reset_for_static e sp cl r1)))"
      by (rule preserves_seq [OF preserves_clear [OF assms]], simp,
          rule preserves_pre [where h = "reset_for_static e sp cl"])
        (use owned_inv_reset(2) [OF assms ports(2,3)] preserves_port [OF contract_ports(5) [OF assms ports(1)]] fin
          in \<open>auto intro: preserves_seq\<close>)
    from preservesD [OF this, of "clear_err r"] show ?thesis
      using run inv ports by (simp add: apply_ethernet_static_def Let_def e)
  qed
qed

lemma owned_inv_stop:
  assumes "route_contract mine ops" and "owned_inv mine e w r"
  shows "owned_inv mine e w (stop_dhcp ops i r)"
proof (cases "known_iface (plane r) i")
  case False
  then show ?thesis using assms(2) by (simp add: stop_dhcp_def)
next
  case True
  then have i: "i = e \<or> i = w" using owned_inv_known [OF assms(2)] by blast
  define r1 where "r1 = snd (clear_owned_route ops i r)"
  define r2 where "r2 = call_void (map_option (\<lambda>f. f i) (op_clear_lease ops))
      (call_void (map_option (\<lambda>f. f i) (op_stop_dhcp ops)) r1)"
  define r3 where "r3 = (case op_clear_ipv4 ops of None \<Rightarrow> r2 | Some f \<Rightarrow> snd (call_port (f i) r2))"
  define r4 where "r4 = upd_plane (set_link i LinkState_default) r3"
  have "owned_inv mine e w r1" unfolding r1_def by (rule valid_snd [OF preserves_clear [OF assms(1) i] assms(2)])
  then have "owned_inv mine e w r2" unfolding r2_def by (intro owned_inv_void contract_opt [OF assms(1)])
  then have "owned_inv mine e w r3"
    unfolding r3_def using valid_snd [OF preserves_port [OF contract_ports(6) [OF assms(1)]]]
    by (auto split: option.splits)
  then have "owned_inv mine e w r4" unfolding r4_def by (intro owned_inv_upd neutral_links)
  from valid_snd [OF preserves_recompute [OF assms(1)] this] show ?thesis
    using True unfolding r4_def r3_def r2_def r1_def
    by (simp add: stop_dhcp_def Let_def owned_inv_err)
qed

lemma owned_inv_upd_subset:
  "owned_inv mine e w r \<Longrightarrow> world r' = world r \<Longrightarrow> cp_eth_iface (plane r') = cp_eth_iface (plane r) \<Longrightarrow>
   cp_wifi_iface (plane r') = cp_wifi_iface (plane r) \<Longrightarrow> owned_routes (plane r') \<subseteq> owned_routes (plane r) \<Longrightarrow> owned_inv mine e w r'"
  by (auto simp: owned_inv_def)

lemma preserves_adopt: "preserves (owned_inv mine e w) (adopt_dhcp ops i)"
  by (rule preservesI, erule owned_inv_upd_subset)
    (auto simp: adopt_dhcp_def Let_def refuse_def owned_inv_def owned_routes_def own_eth_def own_wifi_def
      own_route_def OwnedRouteState_default_def clear_err_def
      set_owned_route_def set_link_def slot_routes_def split: if_splits)

lemma owned_inv_iface: "owned_inv mine e w r \<Longrightarrow> link_iface (plane r) k = e \<or> link_iface (plane r) k = w"
  by (cases k) (auto simp: owned_inv_def link_iface_def)

lemma preserves_deconfig:
  assumes "route_contract mine ops" and "i = e \<or> i = w"
  shows "preserves (owned_inv mine e w) (consume_deconfig ops i)"
  unfolding consume_deconfig_def
proof (rule preserves_seq [OF preserves_clear [OF assms]], rule preservesI)
  fix r ok r'
  assume "owned_inv mine e w r"
    and "(case op_clear_ipv4 ops of None \<Rightarrow> (True, r) | Some f \<Rightarrow> (case f i ([], world r) of (ok, ce, w) \<Rightarrow>
        if \<not> ok then (False, r\<lparr> err := ce, world := w \<rparr>) else (True, r\<lparr> world := w \<rparr>))) = (ok, r')"
  then show "owned_inv mine e w r'"
    using keepsD [OF contract_ports(6) [OF assms(1)]]
    by (fastforce simp: owned_inv_def split: option.splits prod.splits if_splits)
qed

lemma preserves_configured:
  assumes "route_contract mine ops" and "i = e \<or> i = w"
  shows "preserves (owned_inv mine e w) (consume_configured ops i lease)"
proof (cases "op_apply_ipv4 ops")
  case None
  then show ?thesis by (simp add: consume_configured_def [abs_def] preserves_refuse)
next
  case (Some ap)
  have "preserves (owned_inv mine e w) (\<lambda>r1. if route_allowed (plane r1) i \<and> lf_gateway4 lease \<noteq> []
      then ensure_owned_route ops i (lf_gateway4 lease) (route_metric (plane r1) i (-1)) r1
      else clear_owned_route ops i r1)"
    by (rule preservesI) (auto split: if_splits
        intro: preservesD [OF preserves_ensure [OF assms]] preservesD [OF preserves_clear [OF assms]])
  with preserves_port [OF contract_ports(5) [OF assms(1) Some]] show ?thesis
    unfolding consume_configured_def [abs_def] Some option.case by (rule preserves_seq)
qed

lemma owned_inv_commit: "owned_inv mine e w r \<Longrightarrow> owned_inv mine e w (commit_lease k lease b r)"
  unfolding commit_lease_def by (rule owned_inv_upd [OF neutral_start(3)])

lemma reconcile_link_cases:
  assumes "reconcile_link ops k r = (ok, c, r')"
  obtains (skip) x where "\<not> c" and "r' = r\<lparr> err := x \<rparr>"
  | (seen) f b o' er w x where "\<not> c" and "op_read_lease ops = Some f"
      and "f (link_iface (plane r) k) (err r, world r) = ((b, o'), er, w)" and "r' = r\<lparr> err := x, world := w \<rparr>"
  | (deconfig) f er w lease r2 where "op_read_lease ops = Some f"
      and "f (link_iface (plane r) k) (err r, world r) = ((True, Some lease), er, w)"
      and "consume_deconfig ops (link_iface (plane r) k) (r\<lparr> err := er, world := w \<rparr>) = (ok, r2)"
      and "c = ok" and "r' = (if ok then commit_lease k lease False r2 else r2)"
  | (configured) f er w lease r2 where "op_read_lease ops = Some f"
      and "f (link_iface (plane r) k) (err r, world r) = ((True, Some lease), er, w)"
      and "consume_configured ops (link_iface (plane r) k) lease (r\<lparr> err := er, world := w \<rparr>) = (ok, r2)"
      and "c = ok" and "r' = (if ok then commit_lease k lease True r2 else r2)"
proof (cases "ls_managed_dhcp (link (plane r) k) \<and> op_read_lease ops \<noteq> None")
  case False
  then have "\<not> c" and "r' = r\<lparr> err := err r \<rparr> \<or> r' = r\<lparr> err := ''DHCP lease reader is unavailable'' \<rparr>"
    using assms by (auto simp: reconcile_link_def Let_def split: if_splits)
  then show thesis using skip by metis
next
  case True
  then obtain f where f: "op_read_lease ops = Some f" by auto
  obtain b o' er w where rd: "f (link_iface (plane r) k) (err r, world r) = ((b, o'), er, w)"
    by (cases "f (link_iface (plane r) k) (err r, world r)") auto
  let ?fresh = "\<lambda>lease. b \<and> o' = Some lease \<and> fingerprint lease \<noteq> ls_fingerprint (link (plane r) k)
    \<and> (lf_event lease = Lease_Deconfig \<or> configured lease)"
  show thesis
  proof (cases "\<exists>lease. ?fresh lease")
    case False
    then have "\<not> c" and "r' = r\<lparr> err := er, world := w \<rparr> \<or> r' = r\<lparr> err := ''unsupported DHCP lease fact'', world := w \<rparr>"
      using assms True f rd by (auto simp: reconcile_link_def Let_def split: if_splits option.splits)
    then show thesis using seen [OF _ f rd] by metis
  next
    case True': True
    then obtain lease where fr: "?fresh lease" by blast
    show thesis
    proof (cases "lf_event lease = Lease_Deconfig")
      case True
      obtain x r2 where go: "consume_deconfig ops (link_iface (plane r) k) (r\<lparr> err := er, world := w \<rparr>) = (x, r2)"
        by (cases "consume_deconfig ops (link_iface (plane r) k) (r\<lparr> err := er, world := w \<rparr>)")
      have "ok = x" and "c = x" and r': "r' = (if x then commit_lease k lease False r2 else r2)"
        using assms \<open>ls_managed_dhcp _ \<and> _\<close> f rd fr True go by (auto simp: reconcile_link_def split: if_splits)
      with f rd fr go show thesis by (intro deconfig [of f lease er w r2]) simp_all
    next
      case False
      obtain x r2 where go: "consume_configured ops (link_iface (plane r) k) lease (r\<lparr> err := er, world := w \<rparr>) = (x, r2)"
        by (cases "consume_configured ops (link_iface (plane r) k) lease (r\<lparr> err := er, world := w \<rparr>)")
      have "ok = x" and "c = x" and r': "r' = (if x then commit_lease k lease True r2 else r2)"
        using assms \<open>ls_managed_dhcp _ \<and> _\<close> f rd fr False go by (auto simp: reconcile_link_def split: if_splits)
      with f rd fr go show thesis by (intro configured [of f lease er w r2]) simp_all
    qed
  qed
qed

lemma owned_inv_link:
  assumes "route_contract mine ops" and "owned_inv mine e w r" and "reconcile_link ops k r = (ok, c, r')"
  shows "owned_inv mine e w r'"
proof -
  note i = owned_inv_iface [OF assms(2), of k]
  have rd: "owned_inv mine e w (r\<lparr> err := x, world := w1 \<rparr>)"
    if "op_read_lease ops = Some f" "f (link_iface (plane r) k) (err r, world r) = (bo, er, w1)" for f bo er w1 x
    using keepsD [OF contract_ports(3) [OF assms(1) that(1)] that(2)] assms(2) by (simp add: owned_inv_def)
  from assms(3) show ?thesis
  proof (cases rule: reconcile_link_cases)
    case skip
    then show ?thesis using assms(2) by (simp add: owned_inv_err)
  next
    case seen
    then show ?thesis using rd by blast
  next
    case (deconfig f er w1 lease r2)
    from preservesD [OF preserves_deconfig [OF assms(1) i] rd [OF deconfig(1,2)] deconfig(3)]
    show ?thesis using deconfig(5) by (simp add: owned_inv_commit)
  next
    case (configured f er w1 lease r2)
    from preservesD [OF preserves_configured [OF assms(1) i] rd [OF configured(1,2)] configured(3)]
    show ?thesis using configured(5) by (simp add: owned_inv_commit)
  qed
qed

lemma preserves_repair:
  assumes "route_contract mine ops" and "i = e \<or> i = w"
  shows "preserves (owned_inv mine e w) (repair_ipv4 ops i x a n)" (is ?ip)
    and "preserves (owned_inv mine e w) (repair_route ops i x g m)" (is ?rt)
proof -
  show ?ip
    by (rule preservesI)
      (auto simp: repair_ipv4_def split: if_splits option.splits
        dest: preservesD [OF preserves_port [OF contract_ports(5) [OF assms(1)]]] preservesD [OF preserves_refuse])
  show ?rt
    by (rule preservesI)
      (auto simp: repair_route_def Let_def split: if_splits dest: preservesD [OF preserves_ensure [OF assms]])
qed

lemma preserves_repair_owned:
  assumes "route_contract mine ops"
  shows "preserves (owned_inv mine e w) (repair_owned_state ops)"
proof -
  have two: "preserves (owned_inv mine e w) (act_seq (repair_ipv4 ops i x a n) (repair_route ops i x g m))"
    if "i = e \<or> i = w" for i x a n g m
    by (rule preserves_seq [OF preserves_repair(1) [OF assms that] preserves_repair(2) [OF assms that]])
  have "preserves (owned_inv mine e w) (repair_eth ops live)" for live
  proof (rule preservesI)
    fix r ok r' assume inv: "owned_inv mine e w r" and run: "repair_eth ops live r = (ok, r')"
    have e: "cp_eth_iface (plane r) = e" using inv by (simp add: owned_inv_def)
    have "r' = r \<or> (\<exists>x a n g m. act_seq (repair_ipv4 ops e x a n) (repair_route ops e x g m) r = (ok, r'))"
      using run unfolding repair_eth_def Let_def e by (metis prod.inject)
    then show "owned_inv mine e w r'" using inv preservesD [OF two [of e]] by blast
  qed
  moreover have "preserves (owned_inv mine e w) (repair_wifi ops live)" for live
  proof (rule preservesI)
    fix r ok r' assume inv: "owned_inv mine e w r" and run: "repair_wifi ops live r = (ok, r')"
    have wi: "cp_wifi_iface (plane r) = w" using inv by (simp add: owned_inv_def)
    have "r' = r \<or> (\<exists>x a n g m. act_seq (repair_ipv4 ops w x a n) (repair_route ops w x g m) r = (ok, r'))"
      using run unfolding repair_wifi_def Let_def wi by (metis prod.inject)
    then show "owned_inv mine e w r'" using inv preservesD [OF two [of w]] by blast
  qed
  ultimately have both: "preserves (owned_inv mine e w) (act_seq (repair_eth ops live) (repair_wifi ops live))" for live
    by (rule preserves_seq)
  show ?thesis
  proof (rule preservesI)
    fix r ok r' assume inv: "owned_inv mine e w r" and run: "repair_owned_state ops r = (ok, r')"
    show "owned_inv mine e w r'"
    proof (cases "op_snapshot ops")
      case None
      then show ?thesis using inv run by (auto simp: repair_owned_state_def Let_def)
    next
      case (Some f)
      obtain live w1 where f: "f (world r) = (live, w1)" by (cases "f (world r)")
      have "owned_inv mine e w (clear_err r\<lparr> world := w1 \<rparr>)"
        using inv snapshot_mine [OF route_quiet [OF assms] Some f] by (simp add: owned_inv_def clear_err_def)
      then show ?thesis
        using preservesD [OF both] run Some f by (simp add: repair_owned_state_def Let_def clear_err_def)
    qed
  qed
qed

section \<open>Every sequence of method calls\<close>

datatype plane_call =
  StartDhcp string | StopDhcp string | AdoptDhcp string
| ApplyStatic string string string string int
| ReconcileFull | ReconcileChanged | RefreshExternal | SetPolicy RoutePolicy

fun run_call :: "'w NetworkControlPlaneOps \<Rightarrow> plane_call \<Rightarrow> 'w Run \<Rightarrow> 'w Run" where
  "run_call ops (StartDhcp i) r = snd (start_dhcp ops i r)"
| "run_call ops (StopDhcp i) r = stop_dhcp ops i r"
| "run_call ops (AdoptDhcp i) r = snd (adopt_dhcp ops i r)"
| "run_call ops (ApplyStatic a n g d m) r = snd (apply_ethernet_static ops a n g d m r)"
| "run_call ops ReconcileFull r = snd (reconcile_full ops r)"
| "run_call ops ReconcileChanged r = snd (snd (reconcile_changed ops r))"
| "run_call ops RefreshExternal r = snd (refresh_external_state ops r)"
| "run_call ops (SetPolicy pol) r = snd (set_route_policy ops pol r)"

lemma owned_inv_full:
  assumes "route_contract mine ops" and "owned_inv mine e w r"
  shows "owned_inv mine e w (snd (reconcile_full ops r))"
    and "owned_inv mine e w (snd (snd (reconcile_changed ops r)))"
    and "owned_inv mine e w (snd (refresh_external_state ops r))"
proof -
  note link = owned_inv_link [OF assms(1)]
  have tail: "preserves (owned_inv mine e w) (act_seq (repair_owned_state ops) (recompute_dns ops))"
    by (intro preserves_seq preserves_repair_owned preserves_recompute assms(1))
  obtain ok1 c1 r1 where l1: "reconcile_link ops Eth (clear_err r) = (ok1, c1, r1)" by (cases "reconcile_link ops Eth (clear_err r)")
  obtain ok2 c2 r2 where l2: "reconcile_link ops Wifi r1 = (ok2, c2, r2)" by (cases "reconcile_link ops Wifi r1")
  have i1: "owned_inv mine e w r1" using link [OF _ l1] assms(2) by simp
  have i2: "owned_inv mine e w r2" using link [OF i1 l2] .
  show "owned_inv mine e w (snd (reconcile_full ops r))"
    using i1 i2 valid_snd [OF tail i2] by (simp add: reconcile_full_def l1 l2)
  show "owned_inv mine e w (snd (snd (reconcile_changed ops r)))"
    using i1 i2 preservesD [OF preserves_recompute [OF assms(1)] i2]
    by (auto simp: reconcile_changed_def l1 l2 Let_def split: prod.splits)
  show "owned_inv mine e w (snd (refresh_external_state ops r))"
    using valid_snd [OF tail, of "clear_err r"] assms(2) by (simp add: refresh_external_state_def)
qed

lemma owned_inv_policy:
  assumes "route_contract mine ops" and "owned_inv mine e w r"
  shows "owned_inv mine e w (snd (set_route_policy ops pol r))"
proof -
  have both: "preserves (owned_inv mine e w) (act_seq (apply_routes ops) (recompute_dns ops))"
    "preserves (owned_inv mine e w) (act_ignore (apply_routes ops) (recompute_dns ops))"
    by (rule preserves_seq [OF preserves_apply_routes preserves_recompute] valid_ignore [OF preserves_apply_routes preserves_recompute],
        rule assms(1), rule assms(1))+
  let ?set = "\<lambda>x. upd_plane (\<lambda>p. p\<lparr> cp_route_policy := x \<rparr>)"
  obtain ok r1 where 1: "act_seq (apply_routes ops) (recompute_dns ops) (?set pol (clear_err r)) = (ok, r1)"
    by (cases "act_seq (apply_routes ops) (recompute_dns ops) (?set pol (clear_err r))")
  have i1: "owned_inv mine e w r1"
    by (rule preservesD [OF both(1) _ 1]) (simp add: owned_inv_upd neutral_links(5) assms(2))
  have "owned_inv mine e w (snd (act_ignore (apply_routes ops) (recompute_dns ops) (?set x r1)))" for x
    by (rule valid_snd [OF both(2) owned_inv_upd [OF neutral_links(5) i1]])
  then show ?thesis
    using i1 by (simp add: set_route_policy_def Let_def 1 owned_inv_err)
qed

lemma owned_inv_call:
  assumes "route_contract mine ops" and "owned_inv mine e w r"
  shows "owned_inv mine e w (run_call ops c r)"
  using assms owned_inv_full [OF assms] owned_inv_policy [OF assms] owned_inv_stop [OF assms]
  by (cases c) (auto intro: valid_snd [OF preserves_start] valid_snd [OF preserves_adopt] valid_snd [OF preserves_static])

interpretation ledger: invariant_machine "run_call ops" "\<lambda>r. route_contract mine ops \<and> owned_inv mine e w r"
  for ops mine e w
  by unfold_locales (auto intro: owned_inv_call)

text \<open>A platform whose world is its set of routes; address \<open>10.0.0.9\<close> cannot be configured.\<close>

definition table_ops :: "route set NetworkControlPlaneOps" where
  "table_ops = \<lparr> op_start_dhcp = Some (\<lambda>i s. (True, s)), op_stop_dhcp = Some (\<lambda>i w. w),
     op_read_lease = Some (\<lambda>i s. ((True, None), s)), op_clear_lease = Some (\<lambda>i w. w),
     op_apply_ipv4 = Some (\<lambda>i a n s. (a \<noteq> ''10.0.0.9'', s)), op_clear_ipv4 = Some (\<lambda>i s. (True, s)),
     op_set_default_route = Some (\<lambda>i g m s. (True, fst s, insert (i, g, m) (snd s))),
     op_clear_default_route = Some (\<lambda>i g m s. (True, fst s, snd s - {(i, g, m)})),
     op_set_dns = Some (\<lambda>d s. (True, s)), op_clear_dns = Some (\<lambda>s. (True, s)), op_snapshot = None \<rparr>"

definition idle_run :: "route set Run" where
  "idle_run = \<lparr> plane = new_control_plane ''eth0'' ''wlan0'', err = [], world = {} \<rparr>"

lemma table_contract: "route_contract id table_ops"
  by (auto simp: route_contract_def quiet_contract_def table_ops_def opt_all_def installs_def uninstalls_def keeps_def untouched_def)

lemmas table_eval = table_ops_def idle_run_def new_control_plane_def apply_ethernet_static_def Let_def
  clear_err_def clear_owned_route_def owned_route_for_def act_seq_def call_port_def call_void_def
  reset_for_static_def upd_plane_def apply_routes_def apply_eth_route_def apply_wifi_route_def
  ensure_owned_route_def route_allowed_def route_metric_def or_message_def set_owned_route_def act_true_def
  recompute_dns_def recover_dns_ownership_def select_dns_def static_eth_route_def dhcp_eth_route_def
  wifi_route_def eth_dns_def wifi_dns_def release_dns_def set_route_policy_def refuse_def
  LinkState_default_def StaticEthernetState_default_def OwnedRouteState_default_def DhcpLeaseFact_default_def

section \<open>Properties\<close>

text \<open>C13: from a fresh control plane, after any sequence of its methods and whichever platform
  calls fail, every default route the object records as owned is one that was installed or
  confirmed through \<open>set_default_route\<close> and not deleted since.\<close>
theorem owned_routes_installed:
  assumes "route_contract mine ops" and "eth \<noteq> wifi"
    and "plane r = new_control_plane eth wifi"
  shows "owned_routes (plane (fold (run_call ops) calls r)) \<subseteq> mine (world (fold (run_call ops) calls r))"
proof -
  have "owned_inv mine eth wifi r"
    using assms(2,3) by (auto simp: owned_inv_def owned_routes_def new_control_plane_def own_eth_def own_wifi_def
        own_route_def slot_routes_def OwnedRouteState_default_def)
  with ledger.run_inv [of mine ops eth wifi r calls] assms(1) show ?thesis by (simp add: owned_inv_def)
qed

theorem owned_routes_installed_witness:
  "owned_routes (plane (fold (run_call table_ops)
     [ApplyStatic ''10.0.0.2'' ''255.0.0.0'' ''10.0.0.1'' ''1.1.1.1'' 5, SetPolicy ManualMetric] idle_run))
   \<subseteq> world (fold (run_call table_ops)
     [ApplyStatic ''10.0.0.2'' ''255.0.0.0'' ''10.0.0.1'' ''1.1.1.1'' 5, SetPolicy ManualMetric] idle_run)"
  using owned_routes_installed [OF table_contract, of "''eth0''" "''wlan0''" idle_run
      "[ApplyStatic ''10.0.0.2'' ''255.0.0.0'' ''10.0.0.1'' ''1.1.1.1'' 5, SetPolicy ManualMetric]"]
  by (simp add: idle_run_def)

text \<open>C14: a successful \<open>set_route_policy\<close> leaves exactly the routes the new policy asks for:
  each interface's owned route is the desired one, with Wi-Fi-only there is no Ethernet
  route, and under a preference the preferred interface has the smaller metric. A failed one
  restores the previous policy.\<close>
theorem set_route_policy_exact:
  assumes "cp_eth_iface (plane r) \<noteq> cp_wifi_iface (plane r)"
    and "set_route_policy ops policy r = (ok, r')"
  shows "if ok then cp_route_policy (plane r') = policy
      \<and> own_eth (plane r') = desired_eth (plane r') \<and> own_wifi (plane r') = desired_wifi (plane r')
      \<and> (policy = WifiOnly \<longrightarrow> own_eth (plane r') = None)
      \<and> (\<forall>g m g' m'. own_eth (plane r') = Some (g, m) \<and> own_wifi (plane r') = Some (g', m') \<longrightarrow>
           (policy = EthernetPreferred \<longrightarrow> m < m') \<and> (policy = WifiPreferred \<longrightarrow> m' < m))
    else cp_route_policy (plane r') = cp_route_policy (plane r)"
proof (cases ok)
  case True
  let ?r = "upd_plane (\<lambda>p. p\<lparr> cp_route_policy := policy \<rparr>) (clear_err r)"
  obtain r1 where a: "apply_routes ops ?r = (True, r1)" and d: "recompute_dns ops r1 = (True, r')"
    using assms(2) True act_seq_true_iff [of "apply_routes ops" "recompute_dns ops" ?r r']
    by (auto simp: set_route_policy_def Let_def split: prod.splits if_splits)
  note dns = recompute_dns_plane [OF d]
  have "cp_eth_iface (plane ?r) \<noteq> cp_wifi_iface (plane ?r)" using assms(1) by simp
  note inst = apply_routes_installs [OF this a]
  have "routeless (plane r1) = routeless (plane ?r)" using inst by blast
  then have "cp_route_policy (plane r1) = policy"
    and ifs: "cp_eth_iface (plane r1) = cp_eth_iface (plane r)" "cp_wifi_iface (plane r1) = cp_wifi_iface (plane r)"
    using routeless_fields [of "plane r1" "plane ?r"] by simp_all
  then have pol: "cp_route_policy (plane r') = policy"
    and ne: "cp_eth_iface (plane r') \<noteq> cp_wifi_iface (plane r')"
    using dnsless_fields [OF dns] assms(1) by simp_all
  have eq: "own_eth (plane r') = desired_eth (plane r')" "own_wifi (plane r') = desired_wifi (plane r')"
    using inst own_dnsless [OF dns] by simp_all
  have "policy = WifiOnly \<longrightarrow> desired_eth (plane r') = None"
    using pol by (simp add: desired_eth_def static_eth_route_def dhcp_eth_route_def route_allowed_def)
  moreover have "desired_eth (plane r') = Some (g, m) \<and> desired_wifi (plane r') = Some (g', m') \<longrightarrow>
      (policy = EthernetPreferred \<longrightarrow> m < m') \<and> (policy = WifiPreferred \<longrightarrow> m' < m)" for g m g' m'
    using pol ne by (auto simp: desired_eth_def desired_wifi_def route_metric_def split: if_splits)
  ultimately show ?thesis using True pol eq by auto
next
  case False
  let ?r = "upd_plane (\<lambda>p. p\<lparr> cp_route_policy := policy \<rparr>) (clear_err r)"
  obtain b r1 where "act_seq (apply_routes ops) (recompute_dns ops) ?r = (b, r1)"
    by (cases "act_seq (apply_routes ops) (recompute_dns ops) ?r")
  let ?q = "upd_plane (\<lambda>p. p\<lparr> cp_route_policy := cp_route_policy (plane r) \<rparr>) r1"
  have "plane r' = plane (snd (act_ignore (apply_routes ops) (recompute_dns ops) ?q))"
    using assms(2) False \<open>_ = (b, r1)\<close> by (auto simp: set_route_policy_def Let_def split: if_splits)
  moreover obtain c q1 where q1: "apply_routes ops ?q = (c, q1)" by (cases "apply_routes ops ?q")
  moreover obtain d q2 where q2: "recompute_dns ops q1 = (d, q2)" by (cases "recompute_dns ops q1")
  ultimately have "plane r' = plane q2" by (simp add: act_ignore_def)
  moreover have "cp_route_policy (plane q2) = cp_route_policy (plane q1)"
    using dnsless_fields [OF recompute_dns_plane [OF q2]] by blast
  moreover have "cp_route_policy (plane q1) = cp_route_policy (plane ?q)"
    using routeless_fields [OF apply_routes_frame [OF q1]] by blast
  ultimately show ?thesis using False by simp
qed

theorem set_route_policy_exact_witness:
  "(let r = snd (apply_ethernet_static table_ops ''10.0.0.2'' ''255.0.0.0'' ''10.0.0.1'' ''1.1.1.1'' 5 idle_run);
        r' = snd (set_route_policy table_ops WifiOnly r) in
    own_eth (plane r) = Some (''10.0.0.1'', 10) \<and> own_eth (plane r') = None)"
proof -
  define r where "r = snd (apply_ethernet_static table_ops ''10.0.0.2'' ''255.0.0.0'' ''10.0.0.1'' ''1.1.1.1'' 5 idle_run)"
  obtain r' where ok: "set_route_policy table_ops WifiOnly r = (True, r')"
    by (simp add: r_def table_eval)
  have r: "own_eth (plane r) = Some (''10.0.0.1'', 10)" "cp_eth_iface (plane r) = ''eth0''" "cp_wifi_iface (plane r) = ''wlan0''"
    by (simp_all add: r_def own_eth_def own_route_def table_eval)
  have "own_eth (plane r') = None" using set_route_policy_exact [OF _ ok] r by auto
  with r show ?thesis by (simp add: r_def [symmetric] ok)
qed

end
