(* ===== verification/Text_Lines.thy ===== *)
theory Text_Lines
  imports Prelude
begin

text \<open>
  The text processing that configuration, lease, resolver and supplicant parsing share:
  \<open>std::getline\<close>, the \<open>trim\<close> helper of several source files, splitting at the first \<open>=\<close>,
  stream extraction of words, \<open>strtol\<close>/\<open>atoi\<close> in base ten, \<open>std::string::c_str\<close>. The lemmas give
  the inverse of printing for each: lines, key-value lines and decimal numbers.
\<close>

section \<open>Lines\<close>

definition newline :: char where
  "newline = CHR 0x0A"

function getlines :: "string \<Rightarrow> string list" where
  "getlines [] = []"
| "getlines (c # cs) =
     takeWhile (\<lambda>x. x \<noteq> newline) (c # cs) # getlines (tl (dropWhile (\<lambda>x. x \<noteq> newline) (c # cs)))"
  by pat_completeness auto
termination
proof (relation "measure length")
  fix c :: char and cs
  have "length (dropWhile (\<lambda>x. x \<noteq> newline) cs) \<le> length cs" by (rule length_dropWhile_le)
  then show "(tl (dropWhile (\<lambda>x. x \<noteq> newline) (c # cs)), c # cs) \<in> measure length"
    by (auto simp: less_Suc_eq_le)
qed simp

lemma getlines_line:
  assumes "newline \<notin> set l"
  shows "getlines (l @ newline # r) = l # getlines r"
proof (cases "l @ newline # r")
  case (Cons c cs)
  have "takeWhile (\<lambda>x. x \<noteq> newline) (l @ newline # r) = l"
    and "dropWhile (\<lambda>x. x \<noteq> newline) (l @ newline # r) = newline # r"
    using assms by (auto simp: takeWhile_append takeWhile_eq_all_conv dropWhile_append)
  then show ?thesis using getlines.simps(2) [of c cs] unfolding Cons by simp
qed simp

definition unlines :: "string list \<Rightarrow> string" where
  "unlines ls = concat (map (\<lambda>l. l @ [newline]) ls)"

lemma getlines_unlines: "\<forall>l \<in> set ls. newline \<notin> set l \<Longrightarrow> getlines (unlines ls) = ls"
  by (induction ls) (auto simp: unlines_def getlines_line)

text \<open>One \<open>getline\<close> on a fresh stream: the first line, or the cleared string at end of file.\<close>

definition first_line :: "string \<Rightarrow> string" where
  "first_line s = (case getlines s of [] \<Rightarrow> [] | l # _ \<Rightarrow> l)"

section \<open>Trimming\<close>

definition is_blank :: "char \<Rightarrow> bool" where
  "is_blank c \<longleftrightarrow> c = CHR 0x20 \<or> c = CHR 0x09 \<or> c = CHR 0x0D \<or> c = newline"

definition trim :: "string \<Rightarrow> string" where
  "trim s = rev (dropWhile is_blank (rev (dropWhile is_blank s)))"

definition trimmed :: "string \<Rightarrow> bool" where
  "trimmed s \<longleftrightarrow> s = [] \<or> (\<not> is_blank (hd s) \<and> \<not> is_blank (last s))"

lemma dropWhile_hd: "s = [] \<or> \<not> P (hd s) \<Longrightarrow> dropWhile P s = s"
  by (cases s) auto

lemma trim_trimmed: "trimmed s \<Longrightarrow> trim s = s"
  by (auto simp: trim_def trimmed_def dropWhile_hd hd_rev)

lemma trimmed_trim: "trimmed (trim s)"
proof -
  define t where "t = dropWhile is_blank s"
  have h: "t \<noteq> [] \<Longrightarrow> \<not> is_blank (hd t)" unfolding t_def by (rule hd_dropWhile)
  obtain u where u: "rev t = takeWhile is_blank (rev t) @ u" and ud: "u = dropWhile is_blank (rev t)" by simp
  have t: "t = rev u @ rev (takeWhile is_blank (rev t))" using arg_cong [OF u, of rev] by simp
  have "u \<noteq> [] \<Longrightarrow> \<not> is_blank (hd u)" unfolding ud by (rule hd_dropWhile)
  moreover have "u \<noteq> [] \<Longrightarrow> hd (rev u) = hd t"
    using arg_cong [OF t, of hd] by (simp add: hd_append)
  moreover have "trim s = rev u" by (simp add: trim_def ud t_def)
  moreover have "u \<noteq> [] \<Longrightarrow> t \<noteq> []" using t by auto
  ultimately show ?thesis using h by (auto simp: trimmed_def last_rev)
qed

lemma trim_trim [simp]: "trim (trim s) = trim s"
  by (rule trim_trimmed [OF trimmed_trim])

section \<open>Splitting and words\<close>

definition split_eq :: "string \<Rightarrow> (string \<times> string) option" where
  "split_eq line = (if CHR ''='' \<in> set line
     then Some (takeWhile (\<lambda>c. c \<noteq> CHR ''='') line, tl (dropWhile (\<lambda>c. c \<noteq> CHR ''='') line)) else None)"

lemma split_eq_kv: "CHR ''='' \<notin> set k \<Longrightarrow> split_eq (k @ CHR ''='' # v) = Some (k, v)"
  by (auto simp: split_eq_def takeWhile_append takeWhile_eq_all_conv dropWhile_append)

text \<open>Repeated \<open>stream >> word\<close>.\<close>

function stream_words :: "string \<Rightarrow> string list" where
  "stream_words s = (let t = dropWhile isspace s in
     if t = [] then [] else takeWhile (\<lambda>c. \<not> isspace c) t # stream_words (dropWhile (\<lambda>c. \<not> isspace c) t))"
  by pat_completeness auto
termination
proof (relation "measure length")
  fix s t :: string
  assume t: "t = dropWhile isspace s" and "t \<noteq> []"
  then obtain c cs where c: "t = c # cs" and "\<not> isspace c" by (metis hd_dropWhile list.exhaust list.sel(1))
  then have "length (dropWhile (\<lambda>c. \<not> isspace c) t) < length t"
    using length_dropWhile_le [of "\<lambda>c. \<not> isspace c" cs] by simp
  also have "length t \<le> length s" unfolding t by (rule length_dropWhile_le)
  finally show "(dropWhile (\<lambda>c. \<not> isspace c) t, s) \<in> measure length" by simp
qed simp

declare stream_words.simps [simp del]

definition first_token :: "string \<Rightarrow> string" where
  "first_token s = (case stream_words s of [] \<Rightarrow> [] | w # _ \<Rightarrow> w)"

definition word_like :: "string \<Rightarrow> bool" where
  "word_like w \<longleftrightarrow> w \<noteq> [] \<and> list_all (\<lambda>c. \<not> isspace c) w"

lemma first_token_word: "word_like w \<Longrightarrow> first_token w = w"
  by (subst (asm) word_like_def)
    (cases w; subst first_token_def; subst stream_words.simps; auto simp: Let_def list_all_iff takeWhile_eq_all_conv)

lemma first_token_empty [simp]: "first_token [] = []"
  by (simp add: first_token_def stream_words.simps)

section \<open>Numbers\<close>

text \<open>\<open>strtol (s, &end, 10)\<close>: the value and the rest at \<open>end\<close>, or \<open>None\<close> when nothing was
  converted. The value is not clamped to \<open>long\<close>: every caller that looks at it rejects values
  far inside that range.\<close>

definition strtol10 :: "string \<Rightarrow> (int \<times> string) option" where
  "strtol10 s =
     (let t = dropWhile isspace s;
          (neg, u) = (case t of c # cs \<Rightarrow> if c = CHR ''-'' then (True, cs) else if c = CHR ''+'' then (False, cs) else (False, t)
                      | [] \<Rightarrow> (False, t));
          ds = takeWhile isdigit u in
      if ds = [] then None
      else Some ((if neg then - int (digits_value 0 ds) else int (digits_value 0 ds)), dropWhile isdigit u))"

text \<open>\<open>atoi\<close>; its behaviour outside the range of \<open>int\<close> is undefined in C.\<close>

definition atoi :: "string \<Rightarrow> int" where
  "atoi s = (case strtol10 s of None \<Rightarrow> 0 | Some (v, _) \<Rightarrow> v)"

lemma digit_not_space: "isdigit c \<Longrightarrow> \<not> isspace c \<and> c \<noteq> CHR ''-'' \<and> c \<noteq> CHR ''+''"
  by (auto simp: isdigit_def isspace_def ord_def)

lemma strtol10_show_int: "list_all (\<lambda>c. \<not> isdigit c) (take 1 r) \<Longrightarrow> strtol10 (show_int i @ r) = Some (i, r)"
proof -
  assume r: "list_all (\<lambda>c. \<not> isdigit c) (take 1 r)"
  have d: "takeWhile isdigit (show_nat n @ r) = show_nat n" "dropWhile isdigit (show_nat n @ r) = r" for n
    using r show_nat_digits [of n] by (cases r; auto simp: takeWhile_append dropWhile_append list_all_iff)+
  obtain c cs where h: "show_nat (nat i) = c # cs" by (cases "show_nat (nat i)") auto
  then have c: "\<not> isspace c" "c \<noteq> CHR ''-''" "c \<noteq> CHR ''+''"
    using show_nat_digits [of "nat i"] digit_not_space [of c] by auto
  show ?thesis
  proof (cases "i < 0")
    case True
    then show ?thesis by (simp add: strtol10_def show_int_def isspace_def ord_def d Let_def)
  next
    case False
    then show ?thesis using c d [of "nat i"] digits_value_show_nat [of "nat i"] by (simp add: strtol10_def show_int_def h Let_def)
  qed
qed

lemma atoi_show_int [simp]: "atoi (show_int i) = i"
  using strtol10_show_int [of "[]" i] by (simp add: atoi_def)

section \<open>C strings\<close>

definition c_str :: "string \<Rightarrow> string" where
  "c_str s = takeWhile (\<lambda>c. c \<noteq> CHR 0x00) s"

lemma c_str_id: "CHR 0x00 \<notin> set s \<Longrightarrow> c_str s = s"
  by (auto simp: c_str_def takeWhile_eq_all_conv)

section \<open>Fields and names\<close>

fun split_char :: "char \<Rightarrow> string \<Rightarrow> string list" where
  "split_char d [] = [[]]"
| "split_char d (c # cs) =
     (if c = d then [] # split_char d cs
      else case split_char d cs of w # ws \<Rightarrow> (c # w) # ws | [] \<Rightarrow> [[c]])"

lemma split_char_nonempty [simp]: "split_char d s \<noteq> []"
  by (cases s) (auto split: list.splits)

lemma split_char_field: "d \<notin> set w \<Longrightarrow> split_char d (w @ d # r) = w # split_char d r"
  by (induction w) auto

lemma split_char_last: "d \<notin> set w \<Longrightarrow> split_char d w = [w]"
  by (induction w) auto

lemma split_char_join: "concat (map (\<lambda>w. w @ [d]) (split_char d s)) = s @ [d]"
  by (induction s) (auto split: list.splits)

definition name_char :: "char \<Rightarrow> bool" where
  "name_char c \<longleftrightarrow> (97 \<le> ord c \<and> ord c \<le> 122) \<or> (65 \<le> ord c \<and> ord c \<le> 90) \<or> isdigit c
     \<or> c = CHR ''_'' \<or> c = CHR ''-'' \<or> c = CHR ''.''"

definition is_safe_iface :: "string \<Rightarrow> bool" where
  "is_safe_iface value \<longleftrightarrow> value \<noteq> [] \<and> length value \<le> 15 \<and> list_all name_char value"

end
