(* ===== verification/Host.thy ===== *)
theory Host
  imports Text_Lines
begin

text \<open>
  The part of POSIX and iostreams that the configuration and platform sources call, over an
  explicit host: a map from paths to contents, \<open>errno\<close> and a finite script of outcomes. Every
  call that can fail takes the next outcome of the script, so one run covers one pattern of
  failures and the theorems, which quantify over hosts, cover all of them; an exhausted script
  means success. \<open>Count n\<close> is a short write of \<open>n\<close> bytes. Directories, permissions and other
  processes are not part of the state.
\<close>

datatype outcome = Ok | Err nat | Count nat

record Host =
  h_files :: "string \<rightharpoonup> string"
  h_script :: "outcome list"
  h_errno :: nat
  h_pid :: nat

definition EINTR :: nat where "EINTR = 4"
definition ENOENT :: nat where "ENOENT = 2"
definition EEXIST :: nat where "EEXIST = 17"

definition pop :: "Host \<Rightarrow> outcome \<times> Host" where
  "pop h = (case h_script h of [] \<Rightarrow> (Ok, h) | x # xs \<Rightarrow> (x, h\<lparr> h_script := xs \<rparr>))"

text \<open>A call that returns 0 or \<open>-1\<close> and has no effect on files.\<close>

definition sys_status :: "Host \<Rightarrow> bool \<times> Host" where
  "sys_status h = (case pop h of (Err e, h1) \<Rightarrow> (False, h1\<lparr> h_errno := e \<rparr>) | (_, h1) \<Rightarrow> (True, h1))"

definition fail_errno :: "nat \<Rightarrow> Host \<Rightarrow> bool \<times> Host" where
  "fail_errno e h = (False, h\<lparr> h_errno := e \<rparr>)"

definition put_file :: "string \<Rightarrow> string \<Rightarrow> Host \<Rightarrow> Host" where
  "put_file p d h = h\<lparr> h_files := (h_files h)(p \<mapsto> d) \<rparr>"

definition contents :: "Host \<Rightarrow> string \<Rightarrow> string" where
  "contents h p = (case h_files h p of None \<Rightarrow> [] | Some d \<Rightarrow> d)"

section \<open>System calls\<close>

definition open_excl :: "string \<Rightarrow> Host \<Rightarrow> bool \<times> Host" where
  "open_excl p h = (if h_files h p \<noteq> None then fail_errno EEXIST h
     else case sys_status h of (ok, h1) \<Rightarrow> (ok, if ok then put_file p [] h1 else h1))"

definition sys_write :: "string \<Rightarrow> string \<Rightarrow> Host \<Rightarrow> int \<times> Host" where
  "sys_write p d h = (case pop h of
     (Ok, h1) \<Rightarrow> (int (length d), put_file p (contents h1 p @ d) h1)
   | (Count n, h1) \<Rightarrow> (int (min n (length d)), put_file p (contents h1 p @ take n d) h1)
   | (Err e, h1) \<Rightarrow> (-1, h1\<lparr> h_errno := e \<rparr>))"

definition sys_rename :: "string \<Rightarrow> string \<Rightarrow> Host \<Rightarrow> bool \<times> Host" where
  "sys_rename a b h = (case h_files h a of
     None \<Rightarrow> fail_errno ENOENT h
   | Some d \<Rightarrow> (case sys_status h of (ok, h1) \<Rightarrow>
       (ok, if ok then h1\<lparr> h_files := (h_files h1)(a := None, b \<mapsto> d) \<rparr> else h1)))"

definition sys_unlink :: "string \<Rightarrow> Host \<Rightarrow> Host" where
  "sys_unlink p h = (case sys_status h of (ok, h1) \<Rightarrow>
     if ok then h1\<lparr> h_files := (h_files h1)(p := None) \<rparr> else h1)"

section \<open>Streams\<close>

text \<open>\<open>std::ifstream\<close>: the contents, or \<open>None\<close> when it cannot be opened.\<close>

definition read_stream :: "string \<Rightarrow> Host \<Rightarrow> string option \<times> Host" where
  "read_stream p h = (case h_files h p of
     None \<Rightarrow> (None, h\<lparr> h_errno := ENOENT \<rparr>)
   | Some d \<Rightarrow> (case sys_status h of (ok, h1) \<Rightarrow> (if ok then Some d else None, h1)))"

text \<open>\<open>std::ofstream\<close> with \<open>trunc\<close>, one buffered write of \<open>d\<close> and \<open>close\<close>. The result is
  \<open>None\<close> when the stream cannot be opened and otherwise whether it is good after \<open>close\<close>.\<close>

definition write_stream :: "string \<Rightarrow> string \<Rightarrow> Host \<Rightarrow> bool option \<times> Host" where
  "write_stream p d h = (case sys_status h of (ok, h1) \<Rightarrow>
     if \<not> ok then (None, h1)
     else case pop (put_file p [] h1) of
       (Ok, h2) \<Rightarrow> (Some True, put_file p d h2)
     | (Count n, h2) \<Rightarrow> (Some (length d \<le> n), put_file p (take n d) h2)
     | (Err e, h2) \<Rightarrow> (Some False, h2\<lparr> h_errno := e \<rparr>))"

section \<open>Frame lemmas\<close>

lemma sys_status_files [simp]: "h_files (snd (sys_status h)) = h_files h" "h_pid (snd (sys_status h)) = h_pid h"
  by (simp_all add: sys_status_def pop_def split: list.splits outcome.splits)

lemma pop_files: "pop h = (x, h1) \<Longrightarrow> h_files h1 = h_files h \<and> h_pid h1 = h_pid h"
  by (auto simp: pop_def split: list.splits)

lemma sys_status_filesD: "sys_status h = (ok, h1) \<Longrightarrow> h_files h1 = h_files h \<and> h_pid h1 = h_pid h"
  using sys_status_files [of h] by simp

lemma read_stream_files: "read_stream p h = (x, h1) \<Longrightarrow> h_files h1 = h_files h \<and> h_pid h1 = h_pid h"
  by (auto simp: read_stream_def split: option.splits prod.splits dest: sys_status_filesD)

lemma read_stream_Some: "read_stream p h = (Some d, h1) \<Longrightarrow> h_files h p = Some d"
  by (auto simp: read_stream_def split: option.splits prod.splits if_splits)

lemma read_stream_quiet: "h_script h = [] \<Longrightarrow> fst (read_stream p h) = h_files h p"
  by (simp add: read_stream_def sys_status_def pop_def split: option.splits)

lemma write_stream_other: "write_stream p d h = (x, h1) \<Longrightarrow> q \<noteq> p \<Longrightarrow> h_files h1 q = h_files h q"
  by (auto simp: write_stream_def put_file_def split: prod.splits outcome.splits if_splits
      dest!: sys_status_filesD pop_files)

lemma write_stream_good: "write_stream p d h = (Some True, h1) \<Longrightarrow> h_files h1 p = Some d"
  by (auto simp: write_stream_def put_file_def split: prod.splits outcome.splits if_splits)

lemma write_stream_pid: "write_stream p d h = (x, h1) \<Longrightarrow> h_pid h1 = h_pid h"
  by (auto simp: write_stream_def put_file_def split: prod.splits outcome.splits if_splits
      dest!: sys_status_filesD pop_files)

lemma sys_rename_result:
  assumes "sys_rename a b h = (ok, h1)"
  shows "h_files h1 = (if ok then (h_files h)(a := None, b := h_files h a) else h_files h)"
    and "ok \<Longrightarrow> h_files h a \<noteq> None"
  using assms
  by (auto simp: sys_rename_def fail_errno_def split: option.splits prod.splits if_splits dest!: sys_status_filesD)

lemma sys_unlink_files:
  "h_files (sys_unlink p h) = h_files h \<or> h_files (sys_unlink p h) = (h_files h)(p := None)"
  by (auto simp: sys_unlink_def split: prod.splits dest!: sys_status_filesD)

lemma sys_unlink_other [simp]: "q \<noteq> p \<Longrightarrow> h_files (sys_unlink p h) q = h_files h q"
  by (metis fun_upd_apply sys_unlink_files)

lemma sys_unlink_quiet: "h_script h = [] \<Longrightarrow> h_files (sys_unlink p h) = (h_files h)(p := None)"
  by (simp add: sys_unlink_def sys_status_def pop_def)

end
