(* ===== verification/Eth_Config.thy ===== *)
theory Eth_Config
  imports Contracts Host
begin

text \<open>
  The Ethernet configuration file (\<^verbatim>\<open>src/config/ethernet_config.cpp\<close>): printing, loading and
  the two-phase commit by a staged file, \<open>fsync\<close> and \<open>rename\<close>. The file-level state is a
  \<open>Host\<close>; \<open>strerror\<close> is a parameter. \<open>StageRun\<close> is what a caller holds: the stage object, its
  error string, the process-wide stage counter and the host.
\<close>

section \<open>Text format\<close>

definition kv :: "string \<Rightarrow> string \<Rightarrow> string" where
  "kv key value = key @ CHR ''='' # value"

definition serialize_ethernet_config :: "EthernetConfig \<Rightarrow> string" where
  "serialize_ethernet_config config = unlines
     [kv ''iface'' (ec_iface config), kv ''method'' (ec_method config), kv ''ip4'' (ec_ip4 config),
      kv ''netmask4'' (ec_netmask4 config), kv ''gateway4'' (ec_gateway4 config), kv ''dns4'' (ec_dns4 config),
      kv ''route_metric'' (show_int (ec_route_metric config)),
      kv ''dns_enabled'' (if ec_dns_enabled config then ''1'' else ''0'')]"

definition config_directory :: "string \<Rightarrow> string" where
  "config_directory config_dir =
     (let dir = (if config_dir = [] then ''/dnake/data'' else config_dir) in
      if dir \<noteq> [] \<and> last dir = CHR ''/'' then butlast dir else dir)"

definition ethernet_config_path :: "string \<Rightarrow> string" where
  "ethernet_config_path config_dir = config_directory config_dir @ ''/smart_hmi_ethernet.conf''"

definition config_line :: "string \<Rightarrow> EthernetConfig \<Rightarrow> EthernetConfig" where
  "config_line line config = (case split_eq line of
     None \<Rightarrow> config
   | Some (k, v) \<Rightarrow>
      (let key = trim k; value = trim v in
       if key = ''iface'' then config\<lparr> ec_iface := value \<rparr>
       else if key = ''method'' then config\<lparr> ec_method := value \<rparr>
       else if key = ''ip4'' then config\<lparr> ec_ip4 := value \<rparr>
       else if key = ''netmask4'' then config\<lparr> ec_netmask4 := value \<rparr>
       else if key = ''gateway4'' then config\<lparr> ec_gateway4 := value \<rparr>
       else if key = ''dns4'' then config\<lparr> ec_dns4 := value \<rparr>
       else if key = ''route_metric'' then config\<lparr> ec_route_metric := atoi value \<rparr>
       else if key = ''dns_enabled'' then config\<lparr> ec_dns_enabled := (value \<noteq> ''0'') \<rparr>
       else config))"

definition load_ethernet_config :: "string \<Rightarrow> string \<Rightarrow> Host \<Rightarrow> EthernetConfig \<times> Host" where
  "load_ethernet_config config_dir iface h =
     (let dflt = (if iface = [] then ''eth0'' else iface);
          config = EthernetConfig_default\<lparr> ec_iface := dflt \<rparr> in
      case read_stream (ethernet_config_path config_dir) h of
        (None, h1) \<Rightarrow> (config, h1)
      | (Some data, h1) \<Rightarrow>
          (let c1 = fold config_line (getlines data) config;
               c2 = (if ec_iface c1 = [] then c1\<lparr> ec_iface := dflt \<rparr> else c1);
               c3 = (if ec_method c2 \<noteq> ''static'' then c2\<lparr> ec_method := ''dhcp'' \<rparr> else c2) in
           (c3, h1)))"

section \<open>Staging\<close>

record EthernetConfigStage =
  st_temp_path :: string
  st_final_path :: string
  st_directory :: string
  st_valid :: bool

definition EthernetConfigStage_default :: EthernetConfigStage where
  "EthernetConfigStage_default = \<lparr> st_temp_path = [], st_final_path = [], st_directory = [], st_valid = False \<rparr>"

datatype EthernetConfigCommitResult = Commit_Failed | CommittedDurable | CommittedDurabilityUncertain

record StageRun =
  sr_stage :: EthernetConfigStage
  sr_error :: string
  sr_sequence :: u64
  sr_host :: Host

lemma pop_script: "pop h = (x, h1) \<Longrightarrow> length (h_script h1) \<le> length (h_script h) \<and>
   (x \<noteq> Ok \<longrightarrow> length (h_script h1) < length (h_script h))"
  by (auto simp: pop_def split: list.splits)

function write_all :: "string \<Rightarrow> string \<Rightarrow> Host \<Rightarrow> bool \<times> Host" where
  "write_all p data h =
     (if data = [] then (True, h)
      else case sys_write p data h of (n, h1) \<Rightarrow>
        if n > 0 then write_all p (drop (nat n) data) h1
        else if n < 0 \<and> h_errno h1 = EINTR then write_all p data h1
        else (False, h1))"
  by pat_completeness auto

lemma sys_write_cases:
  assumes "sys_write p d h = (n, h1)"
  shows "n \<le> int (length d)" and "h_files h1 = (if n < 0 then h_files h else (h_files h)(p \<mapsto> contents h p @ take (nat n) d))"
    and "length (h_script h1) \<le> length (h_script h)" and "n < 0 \<Longrightarrow> length (h_script h1) < length (h_script h)"
  using assms
  by (auto simp: sys_write_def put_file_def contents_def min_def split: prod.splits outcome.splits
      dest: pop_script pop_files)

termination write_all
proof (relation "measure (\<lambda>(p, data, h). length data + length (h_script h))")
  fix p data h and n :: int and h1
  assume "data \<noteq> []" and x: "(n, h1) = sys_write p data h" and "n > 0"
  moreover have "length (h_script h1) \<le> length (h_script h)" by (rule sys_write_cases(3) [of p data h n]) (simp add: x)
  moreover have "length data - nat n < length data" using \<open>data \<noteq> []\<close> \<open>n > 0\<close> by (simp add: diff_less)
  ultimately have "length data - nat n + length (h_script h1) < length data + length (h_script h)" by linarith
  then show "((p, drop (nat n) data, h1), p, data, h) \<in> measure (\<lambda>(p, data, h). length data + length (h_script h))"
    by simp
next
  fix p data h and n :: int and h1
  assume "(n, h1) = sys_write p data h" and "n < 0 \<and> h_errno h1 = EINTR"
  then have "length (h_script h1) < length (h_script h)" by (intro sys_write_cases(4) [of p data h n]) simp_all
  then show "((p, data, h1), p, data, h) \<in> measure (\<lambda>(p, data, h). length data + length (h_script h))" by simp
qed simp

declare write_all.simps [simp del]

definition ensure_dir :: "(nat \<Rightarrow> string) \<Rightarrow> string \<Rightarrow> Host \<Rightarrow> bool \<times> string \<times> Host" where
  "ensure_dir strerror dir h =
     (if dir = [] then (False, ''ethernet config directory is empty'', h)
      else case sys_status h of (ok, h1) \<Rightarrow>
        if ok \<or> h_errno h1 = EEXIST then (True, [], h1)
        else (False, ''failed to create ethernet config directory: '' @ strerror (h_errno h1), h1))"

definition fsync_directory :: "Host \<Rightarrow> bool \<times> Host" where
  "fsync_directory h = (case sys_status h of (opened, h1) \<Rightarrow>
     if \<not> opened then (False, h1)
     else case sys_status h1 of (ok, h2) \<Rightarrow> (ok, snd (sys_status h2)))"

text \<open>Write, \<open>fsync\<close> and \<open>close\<close> the staged file; the message is that of the first failure.\<close>

definition write_staged :: "(nat \<Rightarrow> string) \<Rightarrow> string \<Rightarrow> string \<Rightarrow> Host \<Rightarrow> bool \<times> string \<times> Host" where
  "write_staged strerror tmp data h =
     (case write_all tmp data h of (written, h1) \<Rightarrow>
      case (if written then sys_status h1 else (False, h1)) of (synced, h2) \<Rightarrow>
      let msg = (if \<not> written then ''failed to write staged ethernet config: '' @ strerror (h_errno h1)
                 else if \<not> synced then ''failed to fsync staged ethernet config: '' @ strerror (h_errno h2)
                 else []) in
      case sys_status h2 of (closed, h3) \<Rightarrow>
        if \<not> closed \<and> synced
        then (False, ''failed to close staged ethernet config: '' @ strerror (h_errno h3), h3)
        else (synced, msg, h3))"

definition discard_ethernet_config :: "StageRun \<Rightarrow> StageRun" where
  "discard_ethernet_config r = r\<lparr>
     sr_host := (if st_valid (sr_stage r) \<and> st_temp_path (sr_stage r) \<noteq> []
                 then sys_unlink (st_temp_path (sr_stage r)) (sr_host r) else sr_host r),
     sr_stage := EthernetConfigStage_default \<rparr>"

definition stage_path :: "string \<Rightarrow> nat \<Rightarrow> u64 \<Rightarrow> string" where
  "stage_path config_dir pid seq =
     ethernet_config_path config_dir @ ''.'' @ show_nat pid @ ''.'' @ show_u64 seq @ ''.stage''"

definition stage_ethernet_config :: "(nat \<Rightarrow> string) \<Rightarrow> string \<Rightarrow> EthernetConfig \<Rightarrow> StageRun act" where
  "stage_ethernet_config strerror config_dir config r0 =
     (let r = (discard_ethernet_config r0)\<lparr> sr_error := [] \<rparr>; dir = config_directory config_dir in
      case ensure_dir strerror dir (sr_host r) of (ok, msg, h) \<Rightarrow>
      if \<not> ok then (False, r\<lparr> sr_error := msg, sr_host := h \<rparr>)
      else let tmp = stage_path config_dir (h_pid h) (sr_sequence r);
               r1 = r\<lparr> sr_sequence := sr_sequence r + 1 \<rparr> in
        case open_excl tmp h of (opened, h1) \<Rightarrow>
        if \<not> opened then
          (False, r1\<lparr> sr_error := ''failed to create staged ethernet config: '' @ strerror (h_errno h1), sr_host := h1 \<rparr>)
        else case write_staged strerror tmp (serialize_ethernet_config config) h1 of (ok, msg, h2) \<Rightarrow>
          if \<not> ok then (False, r1\<lparr> sr_error := msg, sr_host := sys_unlink tmp h2 \<rparr>)
          else (True, r1\<lparr> sr_stage := \<lparr> st_temp_path = tmp, st_final_path = ethernet_config_path config_dir,
                            st_directory = dir, st_valid = True \<rparr>, sr_host := h2 \<rparr>))"

definition commit_ethernet_config :: "(nat \<Rightarrow> string) \<Rightarrow> StageRun \<Rightarrow> EthernetConfigCommitResult \<times> StageRun" where
  "commit_ethernet_config strerror r0 =
     (let r = r0\<lparr> sr_error := [] \<rparr>; stage = sr_stage r in
      if \<not> st_valid stage \<or> st_temp_path stage = [] \<or> st_final_path stage = [] \<or> st_directory stage = []
      then (Commit_Failed, r\<lparr> sr_error := ''ethernet config stage is invalid'' \<rparr>)
      else case sys_rename (st_temp_path stage) (st_final_path stage) (sr_host r) of (ok, h) \<Rightarrow>
        if \<not> ok then (Commit_Failed, r\<lparr> sr_error := ''failed to commit ethernet config: '' @ strerror (h_errno h), sr_host := h \<rparr>)
        else case fsync_directory h of (durable, h1) \<Rightarrow>
          let r1 = r\<lparr> sr_stage := EthernetConfigStage_default, sr_host := h1 \<rparr> in
          if \<not> durable then (CommittedDurabilityUncertain,
            r1\<lparr> sr_error := ''ethernet config committed but directory fsync failed: '' @ strerror (h_errno h1) \<rparr>)
          else (CommittedDurable, r1))"

definition save_ethernet_config :: "(nat \<Rightarrow> string) \<Rightarrow> string \<Rightarrow> EthernetConfig \<Rightarrow> u64 \<times> Host \<Rightarrow> bool \<times> u64 \<times> Host" where
  "save_ethernet_config strerror config_dir config s =
     (case stage_ethernet_config strerror config_dir config
        \<lparr> sr_stage = EthernetConfigStage_default, sr_error = [], sr_sequence = fst s, sr_host = snd s \<rparr> of (ok, r) \<Rightarrow>
      if \<not> ok then (False, sr_sequence r, sr_host r)
      else case commit_ethernet_config strerror r of (result, r1) \<Rightarrow>
        if result = Commit_Failed then
          (let r2 = discard_ethernet_config r1 in (False, sr_sequence r2, sr_host r2))
        else (result = CommittedDurable, sr_sequence r1, sr_host r1))"

section \<open>Printing and parsing\<close>

definition clean_field :: "string \<Rightarrow> bool" where
  "clean_field v \<longleftrightarrow> trimmed v \<and> newline \<notin> set v"

definition clean_config :: "EthernetConfig \<Rightarrow> bool" where
  "clean_config c \<longleftrightarrow> list_all clean_field [ec_iface c, ec_method c, ec_ip4 c, ec_netmask4 c, ec_gateway4 c, ec_dns4 c]
     \<and> ec_iface c \<noteq> [] \<and> (ec_method c = ''static'' \<or> ec_method c = ''dhcp'')"

lemma show_int_clean: "clean_field (show_int i)"
proof -
  have d: "list_all (\<lambda>c. \<not> is_blank c) (show_nat n)" for n
    using show_nat_digits [of n] by (auto simp: list_all_iff is_blank_def isdigit_def newline_def ord_def dest!: bspec)
  have "\<not> is_blank (hd (show_nat n))" "\<not> is_blank (last (show_nat n))" "newline \<notin> set (show_nat n)" for n
    using d [of n] hd_in_set [of "show_nat n"] last_in_set [of "show_nat n"]
    by (auto simp: list_all_iff is_blank_def)
  then show ?thesis
    by (auto simp: clean_field_def trimmed_def show_int_def is_blank_def newline_def)
qed

lemma config_line_kv:
  assumes "CHR ''='' \<notin> set k" and "trim k = k" and "trim v = v"
  shows "config_line (kv k v) config =
     (if k = ''iface'' then config\<lparr> ec_iface := v \<rparr>
      else if k = ''method'' then config\<lparr> ec_method := v \<rparr>
      else if k = ''ip4'' then config\<lparr> ec_ip4 := v \<rparr>
      else if k = ''netmask4'' then config\<lparr> ec_netmask4 := v \<rparr>
      else if k = ''gateway4'' then config\<lparr> ec_gateway4 := v \<rparr>
      else if k = ''dns4'' then config\<lparr> ec_dns4 := v \<rparr>
      else if k = ''route_metric'' then config\<lparr> ec_route_metric := atoi v \<rparr>
      else if k = ''dns_enabled'' then config\<lparr> ec_dns_enabled := (v \<noteq> ''0'') \<rparr>
      else config)"
  by (simp add: config_line_def kv_def split_eq_kv [OF assms(1)] assms(2,3))

lemma parse_serialize:
  assumes "clean_config c"
  shows "fold config_line (getlines (serialize_ethernet_config c)) d = c"
proof -
  have cl: "clean_field (if b then ''1'' else ''0'')" for b
    by (simp add: clean_field_def trimmed_def is_blank_def newline_def)
  note fields = assms [unfolded clean_config_def list.pred_inject] show_int_clean [of "ec_route_metric c"] cl
  have tr: "clean_field v \<Longrightarrow> trim v = v" for v by (simp add: clean_field_def trim_trimmed)
  have "newline \<notin> set (kv k v)" if "newline \<notin> set k" "clean_field v" for k v
    using that by (simp add: kv_def clean_field_def newline_def)
  then have "getlines (serialize_ethernet_config c) =
     [kv ''iface'' (ec_iface c), kv ''method'' (ec_method c), kv ''ip4'' (ec_ip4 c),
      kv ''netmask4'' (ec_netmask4 c), kv ''gateway4'' (ec_gateway4 c), kv ''dns4'' (ec_dns4 c),
      kv ''route_metric'' (show_int (ec_route_metric c)),
      kv ''dns_enabled'' (if ec_dns_enabled c then ''1'' else ''0'')]"
    unfolding serialize_ethernet_config_def using fields by (intro getlines_unlines) (simp add: newline_def)
  moreover have "trim k = k" if "trimmed k" for k using that by (rule trim_trimmed)
  ultimately show ?thesis
    using fields by (simp add: config_line_kv tr trimmed_def is_blank_def newline_def)
qed

section \<open>The two-phase commit\<close>

lemma write_all_files:
  "write_all p d h = (ok, h1) \<Longrightarrow>
     (\<forall>q. q \<noteq> p \<longrightarrow> h_files h1 q = h_files h q) \<and> (ok \<and> d \<noteq> [] \<longrightarrow> h_files h1 p = Some (contents h p @ d))"
proof (induction p d h arbitrary: ok h1 rule: write_all.induct)
  case (1 p d h)
  show ?case
  proof (cases "d = []")
    case True
    then show ?thesis using 1(3) by (simp add: write_all.simps)
  next
    case False
    obtain n h2 where w: "sys_write p d h = (n, h2)" by (cases "sys_write p d h")
    note f = sys_write_cases(1,2) [OF w]
    consider (some) "n > 0" "write_all p (drop (nat n) d) h2 = (ok, h1)"
      | (again) "n < 0" "h_errno h2 = EINTR" "write_all p d h2 = (ok, h1)"
      | (stop) "\<not> ok" "h1 = h2"
      using 1(3) False by (subst (asm) write_all.simps) (auto simp: w split: if_splits)
    then show ?thesis
    proof cases
      case some
      note ih = 1(1) [OF False w [symmetric] some]
      show ?thesis
      proof (cases "drop (nat n) d = []")
        case True
        then have "ok" "h1 = h2" using some(2) by (auto simp: write_all.simps)
        then show ?thesis using f some(1) True by (auto simp: contents_def)
      next
        case False
        then show ?thesis using ih f some(1) by (auto simp: contents_def)
      qed
    next
      case again
      then show ?thesis using 1(2) [OF False w [symmetric]] f by (auto simp: contents_def)
    next
      case stop
      then show ?thesis using f by auto
    qed
  qed
qed

lemma serialize_nonempty [simp]: "serialize_ethernet_config c \<noteq> []"
  by (simp add: serialize_ethernet_config_def unlines_def)

lemma write_staged_files:
  assumes "write_staged strerror tmp d h = (ok, msg, h1)" and "d \<noteq> []"
  shows "q \<noteq> tmp \<Longrightarrow> h_files h1 q = h_files h q" and "ok \<Longrightarrow> h_files h1 tmp = Some (contents h tmp @ d)"
proof -
  obtain b h2 where w: "write_all tmp d h = (b, h2)" by (cases "write_all tmp d h")
  have "h_files h1 = h_files h2" and "ok \<Longrightarrow> b"
    using assms(1) w by (auto simp: write_staged_def Let_def split: prod.splits if_splits dest!: sys_status_filesD)
  then show "q \<noteq> tmp \<Longrightarrow> h_files h1 q = h_files h q" "ok \<Longrightarrow> h_files h1 tmp = Some (contents h tmp @ d)"
    using write_all_files [OF w] assms(2) by simp_all
qed

lemma ensure_dir_files: "ensure_dir strerror d h = (ok, msg, h1) \<Longrightarrow> h_files h1 = h_files h \<and> h_pid h1 = h_pid h"
  by (auto simp: ensure_dir_def split: prod.splits if_splits dest!: sys_status_filesD)

lemma open_excl_files:
  "open_excl p h = (ok, h1) \<Longrightarrow> h_files h1 = (if ok then (h_files h)(p \<mapsto> []) else h_files h) \<and> (ok \<longrightarrow> h_files h p = None)"
  by (auto simp: open_excl_def fail_errno_def put_file_def split: prod.splits if_splits dest!: sys_status_filesD)

lemma fsync_directory_files: "fsync_directory h = (ok, h1) \<Longrightarrow> h_files h1 = h_files h"
  by (auto simp: fsync_directory_def split: prod.splits if_splits dest!: sys_status_filesD)

lemma stage_result:
  assumes "stage_ethernet_config strerror dir c r = (ok, r1)" and "sr_stage r = EthernetConfigStage_default"
  defines "tmp \<equiv> stage_path dir (h_pid (sr_host r)) (sr_sequence r)"
  shows "q \<noteq> tmp \<Longrightarrow> h_files (sr_host r1) q = h_files (sr_host r) q"
    and "ok \<Longrightarrow> h_files (sr_host r1) tmp = Some (serialize_ethernet_config c) \<and> sr_stage r1 =
      \<lparr> st_temp_path = tmp, st_final_path = ethernet_config_path dir, st_directory = config_directory dir, st_valid = True \<rparr>
      \<and> config_directory dir \<noteq> []"
proof -
  have d: "discard_ethernet_config r = r"
    using assms(2) by (simp add: discard_ethernet_config_def EthernetConfigStage_default_def)
  obtain b msg h where e: "ensure_dir strerror (config_directory dir) (sr_host r) = (b, msg, h)"
    by (cases "ensure_dir strerror (config_directory dir) (sr_host r)") auto
  note ef = ensure_dir_files [OF e]
  obtain b2 h2 where o: "open_excl tmp h = (b2, h2)" by (cases "open_excl tmp h")
  note of = open_excl_files [OF o]
  obtain b3 msg3 h3 where w: "write_staged strerror tmp (serialize_ethernet_config c) h2 = (b3, msg3, h3)"
    by (cases "write_staged strerror tmp (serialize_ethernet_config c) h2") auto
  note wf = write_staged_files [OF w serialize_nonempty]
  have run: "stage_ethernet_config strerror dir c r =
    (if \<not> b then (False, r\<lparr> sr_error := msg, sr_host := h \<rparr>)
     else if \<not> b2 then (False, r\<lparr> sr_error := ''failed to create staged ethernet config: '' @ strerror (h_errno h2),
        sr_sequence := sr_sequence r + 1, sr_host := h2 \<rparr>)
     else if \<not> b3 then (False, r\<lparr> sr_error := msg3, sr_sequence := sr_sequence r + 1, sr_host := sys_unlink tmp h3 \<rparr>)
     else (True, r\<lparr> sr_error := [], sr_sequence := sr_sequence r + 1,
        sr_stage := \<lparr> st_temp_path = tmp, st_final_path = ethernet_config_path dir, st_directory = config_directory dir,
          st_valid = True \<rparr>, sr_host := h3 \<rparr>))"
    using e o w ef by (simp add: stage_ethernet_config_def d Let_def tmp_def)
  show "q \<noteq> tmp \<Longrightarrow> h_files (sr_host r1) q = h_files (sr_host r) q"
    using assms(1) run wf(1) [of q] of ef by (auto split: if_splits)
  have "b \<Longrightarrow> config_directory dir \<noteq> []" using e by (auto simp: ensure_dir_def)
  then show "ok \<Longrightarrow> h_files (sr_host r1) tmp = Some (serialize_ethernet_config c) \<and> sr_stage r1 =
      \<lparr> st_temp_path = tmp, st_final_path = ethernet_config_path dir, st_directory = config_directory dir, st_valid = True \<rparr>
      \<and> config_directory dir \<noteq> []"
    using assms(1) run wf(2) of by (auto simp: contents_def split: if_splits)
qed

lemma stage_path_ne: "stage_path dir pid seq \<noteq> ethernet_config_path dir" "stage_path dir pid seq \<noteq> []"
  by (simp_all add: stage_path_def)

lemma commit_result:
  assumes "commit_ethernet_config strerror r = (res, r1)" and "sr_stage r =
      \<lparr> st_temp_path = t, st_final_path = p, st_directory = d, st_valid = True \<rparr>"
    and "t \<noteq> []" and "p \<noteq> []" and "d \<noteq> []"
  shows "h_files (sr_host r1) = (if res = Commit_Failed then h_files (sr_host r)
      else (h_files (sr_host r))(t := None, p := h_files (sr_host r) t))"
    and "res = Commit_Failed \<Longrightarrow> sr_stage r1 = sr_stage r"
  using assms
  by (auto simp: commit_ethernet_config_def Let_def split: prod.splits if_splits
      dest!: sys_rename_result(1) fsync_directory_files)

lemma discard_files: "q \<noteq> st_temp_path (sr_stage r) \<Longrightarrow> h_files (sr_host (discard_ethernet_config r)) q = h_files (sr_host r) q"
  by (simp add: discard_ethernet_config_def)

lemma save_result:
  assumes "save_ethernet_config strerror dir c (seq, h) = (ok, seq', h')"
  shows "h_files h' (ethernet_config_path dir) \<in> {h_files h (ethernet_config_path dir), Some (serialize_ethernet_config c)}"
    and "ok \<Longrightarrow> h_files h' (ethernet_config_path dir) = Some (serialize_ethernet_config c)"
    and "ok \<Longrightarrow> h_files h' (stage_path dir (h_pid h) seq) = None"
    and "q \<noteq> ethernet_config_path dir \<Longrightarrow> q \<noteq> stage_path dir (h_pid h) seq \<Longrightarrow> h_files h' q = h_files h q"
proof -
  let ?r = "\<lparr> sr_stage = EthernetConfigStage_default, sr_error = [], sr_sequence = seq, sr_host = h \<rparr>"
  let ?p = "ethernet_config_path dir" and ?t = "stage_path dir (h_pid h) seq"
  obtain b r where s: "stage_ethernet_config strerror dir c ?r = (b, r)" by (cases "stage_ethernet_config strerror dir c ?r")
  note sr = stage_result [OF s, simplified]
  obtain res r1 where c: "commit_ethernet_config strerror r = (res, r1)" by (cases "commit_ethernet_config strerror r")
  have p: "?p \<noteq> []" by (simp add: ethernet_config_path_def)
  have cr: "b \<Longrightarrow> h_files (sr_host r1) = (if res = Commit_Failed then h_files (sr_host r)
      else (h_files (sr_host r))(?t := None, ?p := Some (serialize_ethernet_config c)))"
    and cs: "b \<Longrightarrow> res = Commit_Failed \<Longrightarrow> st_temp_path (sr_stage r1) = ?t"
    using commit_result [OF c, of ?t ?p "config_directory dir"] sr(2) p stage_path_ne by auto
  have run: "save_ethernet_config strerror dir c (seq, h) = (if \<not> b then (False, sr_sequence r, sr_host r)
     else if res = Commit_Failed then (False, sr_sequence (discard_ethernet_config r1), sr_host (discard_ethernet_config r1))
     else (res = CommittedDurable, sr_sequence r1, sr_host r1))"
    by (simp add: save_ethernet_config_def s c Let_def)
  have ne: "?p \<noteq> ?t" using stage_path_ne by metis
  have old: "\<not> b \<or> res = Commit_Failed \<Longrightarrow> q \<noteq> ?t \<Longrightarrow> h_files h' q = h_files h q" for q
    using assms run sr(1) [of q] cr cs discard_files [of q r1] by (auto split: if_splits)
  have new: "b \<Longrightarrow> res \<noteq> Commit_Failed \<Longrightarrow>
      h_files h' = (h_files (sr_host r))(?t := None, ?p := Some (serialize_ethernet_config c))"
    using assms run cr by (auto split: if_splits)
  have ok: "ok \<Longrightarrow> b \<and> res \<noteq> Commit_Failed" using assms run by (auto split: if_splits)
  show "h_files h' ?p \<in> {h_files h ?p, Some (serialize_ethernet_config c)}"
    using old [of ?p] new ne by (cases "b \<and> res \<noteq> Commit_Failed") auto
  show "ok \<Longrightarrow> h_files h' ?p = Some (serialize_ethernet_config c)" using ok new by simp
  show "ok \<Longrightarrow> h_files h' ?t = None" using ok new ne by simp
  show "q \<noteq> ?p \<Longrightarrow> q \<noteq> ?t \<Longrightarrow> h_files h' q = h_files h q"
    using old [of q] new sr(1) [of q] by (cases "b \<and> res \<noteq> Commit_Failed") auto
qed

section \<open>Properties\<close>

text \<open>C21: saving is atomic under every pattern of failing, interrupted and short system calls:
  the committed path afterwards holds its old contents or the complete new file, a true result
  means the new one with no staged file left, and no other file is touched.\<close>
theorem save_is_atomic:
  assumes "save_ethernet_config strerror dir c (seq, h) = (ok, seq', h')"
  shows "h_files h' (ethernet_config_path dir) \<in> {h_files h (ethernet_config_path dir), Some (serialize_ethernet_config c)}
    \<and> (ok \<longrightarrow> h_files h' (ethernet_config_path dir) = Some (serialize_ethernet_config c)
          \<and> h_files h' (stage_path dir (h_pid h) seq) = None)
    \<and> (\<forall>q. q \<noteq> ethernet_config_path dir \<and> q \<noteq> stage_path dir (h_pid h) seq \<longrightarrow> h_files h' q = h_files h q)"
  using save_result [OF assms] by auto

definition example_config :: EthernetConfig where
  "example_config = \<lparr> ec_iface = ''eth0'', ec_method = ''static'', ec_ip4 = ''10.0.0.2'', ec_netmask4 = ''255.0.0.0'',
     ec_gateway4 = ''10.0.0.1'', ec_dns4 = [], ec_route_metric = -3, ec_dns_enabled = False \<rparr>"

definition flaky_host :: Host where
  "flaky_host = \<lparr> h_files = [''/d/smart_hmi_ethernet.conf'' \<mapsto> ''old''],
     h_script = [Err EEXIST, Ok, Count 3, Err EINTR, Ok, Ok, Ok, Err ENOENT], h_errno = 0, h_pid = 7 \<rparr>"

theorem save_is_atomic_witness:
  "h_files (snd (snd (save_ethernet_config (\<lambda>e. []) ''/d/'' example_config (0, flaky_host)))) ''/etc/passwd'' = None"
proof -
  obtain ok s' h' where run: "save_ethernet_config (\<lambda>e. []) ''/d/'' example_config (0, flaky_host) = (ok, s', h')"
    by (cases "save_ethernet_config (\<lambda>e. []) ''/d/'' example_config (0, flaky_host)") auto
  have "''/etc/passwd'' \<noteq> ethernet_config_path ''/d/''" "''/etc/passwd'' \<noteq> stage_path ''/d/'' (h_pid flaky_host) 0"
    by (simp_all add: stage_path_def ethernet_config_path_def config_directory_def)
  with save_is_atomic [OF run] have "h_files h' ''/etc/passwd'' = h_files flaky_host ''/etc/passwd''" by metis
  then show ?thesis unfolding run by (simp add: flaky_host_def)
qed

text \<open>C22: a configuration whose fields are single lines without surrounding blanks, with a
  named interface and a known method, comes back exactly as it was when it is loaded after a
  successful save.\<close>
theorem save_then_load:
  assumes "clean_config c" and "save_ethernet_config strerror dir c (seq, h) = (True, seq', h')"
    and "h_script h' = []"
  shows "fst (load_ethernet_config dir iface h') = c"
proof -
  have "fst (read_stream (ethernet_config_path dir) h') = Some (serialize_ethernet_config c)"
    using read_stream_quiet [OF assms(3)] save_result(2) [OF assms(2)] by simp
  then obtain h2 where "read_stream (ethernet_config_path dir) h' = (Some (serialize_ethernet_config c), h2)"
    by (cases "read_stream (ethernet_config_path dir) h'") auto
  then show ?thesis
    using assms(1) by (auto simp: load_ethernet_config_def Let_def parse_serialize clean_config_def)
qed

theorem save_then_load_witness:
  "fst (load_ethernet_config ''/d/'' ''usb0''
     (snd (snd (save_ethernet_config (\<lambda>e. []) ''/d/'' example_config (0, flaky_host\<lparr> h_script := [Ok, Ok, Count 3, Err EINTR] \<rparr>))))) = example_config"
proof -
  let ?h = "flaky_host\<lparr> h_script := [Ok, Ok, Count 3, Err EINTR] \<rparr>"
  let ?run = "save_ethernet_config (\<lambda>e. []) ''/d/'' example_config (0, ?h)"
  have "fst ?run \<and> h_script (snd (snd ?run)) = []" by code_simp
  then obtain s' h' where run: "?run = (True, s', h')" and q: "h_script h' = []" by (cases ?run) auto
  have "clean_config example_config" by code_simp
  from save_then_load [OF this run q] show ?thesis by (simp add: run)
qed

end
