(* ===== verification/Lease_Store.thy ===== *)
theory Lease_Store
  imports Contracts Eth_Config
begin

text \<open>
  The DHCP lease store (\<^verbatim>\<open>src/platform/dhcp_lease_store.cpp\<close>): a marker file names the active
  generation of the DHCP client of an interface, the client's callback writes its facts into a
  file of that generation and \<open>read\<close> returns a fact only for the active one. Results are sums:
  \<open>Inl\<close> the error, \<open>Inr None\<close> for "nothing there".
\<close>

section \<open>Operations\<close>

definition is_safe_generation :: "string \<Rightarrow> bool" where
  "is_safe_generation value \<longleftrightarrow> value \<noteq> [] \<and> length value \<le> 80 \<and> list_all name_char value"

definition parse_event :: "string \<Rightarrow> DhcpLeaseEvent" where
  "parse_event value = (if value = ''bound'' then Lease_Bound else if value = ''renew'' then Lease_Renew
     else if value = ''deconfig'' then Lease_Deconfig else Lease_None)"

definition path_for :: "string \<Rightarrow> string \<Rightarrow> string" where
  "path_for iface generation = ''/tmp/network_service_dhcp_'' @ iface @ ''_'' @ generation @ ''.lease''"

definition generation_path_for :: "string \<Rightarrow> string" where
  "generation_path_for iface = ''/tmp/network_service_dhcp_'' @ iface @ ''.generation''"

definition marker_tmp :: "string \<Rightarrow> nat \<Rightarrow> string" where
  "marker_tmp iface pid = generation_path_for iface @ ''.'' @ show_nat pid @ ''.tmp''"

definition activate_generation :: "string \<Rightarrow> string \<Rightarrow> Host \<Rightarrow> (string + unit) \<times> Host" where
  "activate_generation iface generation h =
     (if \<not> is_safe_iface iface \<or> \<not> is_safe_generation generation then (Inl ''invalid DHCP lease generation'', h)
      else let tmp = marker_tmp iface (h_pid h) in
        case write_stream tmp (generation @ [newline]) h of
          (None, h1) \<Rightarrow> (Inl ''failed to write DHCP generation marker'', h1)
        | (Some good, h1) \<Rightarrow>
            (case (if good then sys_rename tmp (generation_path_for iface) h1 else (False, h1)) of (ok, h2) \<Rightarrow>
               if \<not> ok then (Inl ''failed to publish DHCP generation marker'', sys_unlink tmp h2)
               else (Inr (), h2)))"

definition active_generation :: "string \<Rightarrow> Host \<Rightarrow> (string + string option) \<times> Host" where
  "active_generation iface h =
     (if \<not> is_safe_iface iface then (Inl ''invalid DHCP lease iface'', h)
      else case read_stream (generation_path_for iface) h of
        (None, h1) \<Rightarrow> (Inr None, h1)
      | (Some data, h1) \<Rightarrow>
          (let generation = first_line data in
           if \<not> is_safe_generation generation then (Inl ''invalid DHCP generation marker'', h1)
           else (Inr (Some generation), h1)))"

text \<open>One line of a lease file; the pair is the fact so far and the local \<open>event\<close>.\<close>

definition lease_line :: "string \<Rightarrow> DhcpLeaseFact \<times> string \<Rightarrow> DhcpLeaseFact \<times> string" where
  "lease_line line s = (case s of (f, event) \<Rightarrow> (case split_eq line of
     None \<Rightarrow> (f, event)
   | Some (key, value) \<Rightarrow>
       if key = ''generation'' then (f\<lparr> lf_generation := value \<rparr>, event)
       else if key = ''event'' then (f, value)
       else if key = ''ip'' then (f\<lparr> lf_ip4 := value \<rparr>, event)
       else if key = ''subnet'' then (f\<lparr> lf_netmask4 := value \<rparr>, event)
       else if key = ''router'' then (f\<lparr> lf_gateway4 := first_token value \<rparr>, event)
       else if key = ''dns'' then (f\<lparr> lf_dns4 := first_token value \<rparr>, event)
       else (f, event)))"

definition lease_read :: "string \<Rightarrow> Host \<Rightarrow> (string + DhcpLeaseFact option) \<times> Host" where
  "lease_read iface h = (case active_generation iface h of
     (Inl e, h1) \<Rightarrow> (Inl e, h1)
   | (Inr None, h1) \<Rightarrow> (Inr None, h1)
   | (Inr (Some active), h1) \<Rightarrow> (case read_stream (path_for iface active) h1 of
       (None, h2) \<Rightarrow> (Inr None, h2)
     | (Some data, h2) \<Rightarrow>
         (case fold lease_line (getlines data) (DhcpLeaseFact_default\<lparr> lf_iface := iface \<rparr>, []) of (f, event) \<Rightarrow>
            if lf_generation f \<noteq> active then (Inr None, h2)
            else let f1 = f\<lparr> lf_event := parse_event event \<rparr> in
              if lf_event f1 = Lease_None then (Inl ''invalid DHCP lease event'', h2)
              else if configured f1 \<and> (lf_ip4 f1 = [] \<or> lf_netmask4 f1 = [])
              then (Inl ''configured DHCP lease is missing ip/subnet'', h2)
              else (Inr (Some f1), h2))))"

definition lease_clear :: "string \<Rightarrow> Host \<Rightarrow> Host" where
  "lease_clear iface h =
     (if \<not> is_safe_iface iface then h
      else case active_generation iface h of (res, h1) \<Rightarrow>
        sys_unlink (generation_path_for iface)
          (case res of Inr (Some generation) \<Rightarrow> sys_unlink (path_for iface generation) h1 | _ \<Rightarrow> h1))"

text \<open>The fact the callback script of \<^verbatim>\<open>udhcpc_process.cpp\<close> prints (\<open>write_fact\<close>).\<close>

definition lease_text :: "string \<Rightarrow> string \<Rightarrow> string \<Rightarrow> string \<Rightarrow> string \<Rightarrow> string \<Rightarrow> string" where
  "lease_text generation event ip subnet router dns = unlines
     [kv ''generation'' generation, kv ''event'' event, kv ''ip'' ip, kv ''subnet'' subnet,
      kv ''router'' router, kv ''dns'' dns]"

section \<open>Lemmas\<close>

lemma active_generation_files: "active_generation iface h = (x, h1) \<Longrightarrow> h_files h1 = h_files h"
  by (auto simp: active_generation_def Let_def split: if_splits prod.splits option.splits dest: read_stream_files)

lemma lease_read_files: "lease_read iface h = (x, h1) \<Longrightarrow> h_files h1 = h_files h"
  by (auto simp: lease_read_def Let_def split: if_splits prod.splits option.splits sum.splits
      dest!: active_generation_files read_stream_files)

lemma fold_lease_iface: "lf_iface (fst (fold lease_line ls s)) = lf_iface (fst s)"
proof (induction ls arbitrary: s)
  case (Cons l ls)
  have "lf_iface (fst (lease_line l s)) = lf_iface (fst s)"
    by (auto simp: lease_line_def split: prod.splits option.splits)
  then show ?case using Cons by simp
qed simp

definition lease_wf :: "string \<Rightarrow> DhcpLeaseFact \<Rightarrow> bool" where
  "lease_wf iface f \<longleftrightarrow> lf_iface f = iface \<and> lf_event f \<noteq> Lease_None \<and> is_safe_generation (lf_generation f)
     \<and> (configured f \<longrightarrow> lf_ip4 f \<noteq> [] \<and> lf_netmask4 f \<noteq> [])"

lemma lease_read_fact:
  assumes "lease_read iface h = (Inr (Some f), h1)"
  obtains m d where "h_files h (generation_path_for iface) = Some m" and "first_line m = lf_generation f"
    and "h_files h (path_for iface (lf_generation f)) = Some d" and "lease_wf iface f"
proof -
  obtain active h2 where a: "active_generation iface h = (Inr (Some active), h2)"
    using assms by (auto simp: lease_read_def split: prod.splits sum.splits option.splits)
  then obtain m where m: "h_files h (generation_path_for iface) = Some m" "first_line m = active" "is_safe_generation active"
    by (auto simp: active_generation_def Let_def split: if_splits prod.splits option.splits dest: read_stream_Some)
  obtain d h3 where d: "read_stream (path_for iface active) h2 = (Some d, h3)"
    using assms a by (auto simp: lease_read_def split: prod.splits option.splits)
  obtain g event where g: "fold lease_line (getlines d) (DhcpLeaseFact_default\<lparr> lf_iface := iface \<rparr>, []) = (g, event)"
    by (cases "fold lease_line (getlines d) (DhcpLeaseFact_default\<lparr> lf_iface := iface \<rparr>, [])")
  have i: "lf_iface g = iface"
    using fold_lease_iface [of "getlines d" "(DhcpLeaseFact_default\<lparr> lf_iface := iface \<rparr>, [])"] by (simp add: g)
  have f: "f = g\<lparr> lf_event := parse_event event \<rparr>" "lf_generation f = active" "lease_wf iface f"
    using assms a d g i m(3) by (auto simp: lease_read_def lease_wf_def Let_def split: if_splits)
  have "h_files h (path_for iface active) = Some d"
    using read_stream_Some [OF d] active_generation_files [OF a] by simp
  then show thesis using that m f by simp
qed

definition one_line :: "string \<Rightarrow> bool" where
  "one_line s \<longleftrightarrow> newline \<notin> set s"

lemma lease_line_kv:
  assumes "CHR ''='' \<notin> set key"
  shows "lease_line (kv key value) (f, event) =
      (if key = ''generation'' then (f\<lparr> lf_generation := value \<rparr>, event)
       else if key = ''event'' then (f, value)
       else if key = ''ip'' then (f\<lparr> lf_ip4 := value \<rparr>, event)
       else if key = ''subnet'' then (f\<lparr> lf_netmask4 := value \<rparr>, event)
       else if key = ''router'' then (f\<lparr> lf_gateway4 := first_token value \<rparr>, event)
       else if key = ''dns'' then (f\<lparr> lf_dns4 := first_token value \<rparr>, event)
       else (f, event))"
  by (simp add: lease_line_def kv_def split_eq_kv [OF assms])

lemma parse_lease_text:
  assumes "list_all one_line [gen, ev, ip, sub, rt, dns]"
  shows "fold lease_line (getlines (lease_text gen ev ip sub rt dns)) (f, x) =
     (f\<lparr> lf_generation := gen, lf_ip4 := ip, lf_netmask4 := sub, lf_gateway4 := first_token rt, lf_dns4 := first_token dns \<rparr>, ev)"
proof -
  have "newline \<notin> set (kv k v)" if "newline \<notin> set k" "one_line v" for k v
    using that by (simp add: kv_def one_line_def newline_def)
  then have "getlines (lease_text gen ev ip sub rt dns) = [kv ''generation'' gen, kv ''event'' ev, kv ''ip'' ip,
      kv ''subnet'' sub, kv ''router'' rt, kv ''dns'' dns]"
    unfolding lease_text_def using assms by (intro getlines_unlines) (simp add: newline_def)
  then show ?thesis by (simp add: lease_line_kv)
qed

lemma safe_generation_line: "is_safe_generation g \<Longrightarrow> newline \<notin> set g"
  by (auto simp: is_safe_generation_def list_all_iff name_char_def newline_def isdigit_def ord_def dest: bspec)

lemma first_line_marker: "is_safe_generation g \<Longrightarrow> first_line (g @ [newline]) = g"
  using getlines_line [OF safe_generation_line, of g "[]"] by (simp add: first_line_def)

lemma activate_marker:
  assumes "activate_generation iface g h = (Inr u, h1)"
  shows "h_files h1 (generation_path_for iface) = Some (g @ [newline])" and "is_safe_iface iface" and "is_safe_generation g"
    and "q \<noteq> generation_path_for iface \<Longrightarrow> q \<noteq> marker_tmp iface (h_pid h) \<Longrightarrow> h_files h1 q = h_files h q"
proof -
  let ?t = "marker_tmp iface (h_pid h)"
  obtain h2 where w: "write_stream ?t (g @ [newline]) h = (Some True, h2)"
    and r: "sys_rename ?t (generation_path_for iface) h2 = (True, h1)"
    and safe: "is_safe_iface iface" "is_safe_generation g"
    using assms by (auto simp: activate_generation_def Let_def split: if_splits prod.splits option.splits)
  note f = sys_rename_result(1) [OF r]
  show "h_files h1 (generation_path_for iface) = Some (g @ [newline])"
    using f write_stream_good [OF w] by simp
  show "is_safe_iface iface" "is_safe_generation g" by (rule safe)+
  show "q \<noteq> generation_path_for iface \<Longrightarrow> q \<noteq> ?t \<Longrightarrow> h_files h1 q = h_files h q"
    using f write_stream_other [OF w] by simp
qed

section \<open>Properties\<close>

text \<open>C23: a fact that \<open>read\<close> returns is well formed and was written by the generation that the
  marker names, so facts of an earlier client are never reported.\<close>
theorem lease_read_current:
  assumes "lease_read iface h = (Inr (Some f), h1)"
  shows "lease_wf iface f \<and> h_files h1 = h_files h
    \<and> map_option first_line (h_files h (generation_path_for iface)) = Some (lf_generation f)"
  using lease_read_fact [OF assms] lease_read_files [OF assms] by (metis option.simps(9))

definition lease_host :: Host where
  "lease_host = \<lparr> h_files = [''/tmp/network_service_dhcp_eth0.generation'' \<mapsto> ''7_1_0'' @ [newline],
       ''/tmp/network_service_dhcp_eth0_7_1_0.lease'' \<mapsto>
         lease_text ''7_1_0'' ''bound'' ''10.0.0.5'' ''255.0.0.0'' ''10.0.0.1 10.0.0.2'' ''1.1.1.1''],
     h_script = [], h_errno = 0, h_pid = 7 \<rparr>"

theorem lease_read_current_witness:
  "lease_wf ''eth0'' (the (projr (fst (lease_read ''eth0'' lease_host))))"
proof -
  have "fst (lease_read ''eth0'' lease_host) \<noteq> Inr None \<and> isl (fst (lease_read ''eth0'' lease_host)) = False"
    by code_simp
  then obtain f h1 where "lease_read ''eth0'' lease_host = (Inr (Some f), h1)"
    by (cases "lease_read ''eth0'' lease_host") (auto simp: isl_def, metis option.exhaust sum.exhaust)
  from lease_read_current [OF this] this show ?thesis by simp
qed



end
