(* ===== verification/Configurator.thy ===== *)
theory Configurator
  imports Host
begin

text \<open>
  The network configurator (\<^verbatim>\<open>src/platform/network_configurator.cpp\<close>): addresses and default
  routes through shell commands, the resolver file with an ownership marker. \<open>system\<close>, which
  runs the external programs, is a parameter; the libc address functions and \<open>snprintf\<close> into
  the 256-byte buffer are modelled. Results are \<open>Inl\<close> the error or \<open>Inr ()\<close> for true.
\<close>

section \<open>Addresses\<close>

definition decimal_octet :: "string \<Rightarrow> bool" where
  "decimal_octet s \<longleftrightarrow> s \<noteq> [] \<and> length s \<le> 3 \<and> list_all isdigit s \<and> (length s = 1 \<or> hd s \<noteq> CHR ''0'')
     \<and> digits_value 0 s \<le> 255"

text \<open>\<open>inet_pton (AF_INET, s, _) == 1\<close>\<close>

definition inet_pton4 :: "string \<Rightarrow> bool" where
  "inet_pton4 s \<longleftrightarrow> length (split_char CHR ''.'' s) = 4 \<and> list_all decimal_octet (split_char CHR ''.'' s)"

definition is_ipv4 :: "string \<Rightarrow> bool" where
  "is_ipv4 value \<longleftrightarrow> value \<noteq> [] \<and> inet_pton4 (c_str value)"

definition hex_digit_value :: "char \<Rightarrow> nat" where
  "hex_digit_value c = (if isdigit c then ord c - 48 else if ord c \<ge> 97 then ord c - 87 else ord c - 55)"

fun hex_value :: "nat \<Rightarrow> string \<Rightarrow> nat" where
  "hex_value acc [] = acc"
| "hex_value acc (c # cs) = hex_value (acc * 16 + hex_digit_value c) cs"

text \<open>\<open>inet_ntop\<close> of an address whose \<open>s_addr\<close> was assigned the integer on a little-endian
  machine.\<close>

definition inet_ntop_le :: "u32 \<Rightarrow> string" where
  "inet_ntop_le raw =
     (let b = (\<lambda>k. show_nat (unat raw div 256 ^ k mod 256)) in b 0 @ ''.'' @ b 1 @ ''.'' @ b 2 @ ''.'' @ b 3)"

text \<open>\<open>sscanf (hex, "%lx")\<close> on the fixed-width hexadecimal columns of \<^verbatim>\<open>/proc/net/route\<close>.\<close>

definition hex_gateway_to_ipv4 :: "string \<Rightarrow> string" where
  "hex_gateway_to_ipv4 hex =
     (if length hex < 8 then []
      else let ds = takeWhile isxdigit hex in
        if ds = [] then [] else inet_ntop_le (of_nat (hex_value 0 ds)))"

section \<open>Commands\<close>

type_synonym shell = "string \<Rightarrow> Host \<Rightarrow> int \<times> Host"

definition run_command :: "shell \<Rightarrow> string \<Rightarrow> Host \<Rightarrow> (string + unit) \<times> Host" where
  "run_command system cmd h = (case system cmd h of (rc, h1) \<Rightarrow>
     if rc = 0 then (Inr (), h1)
     else (Inl (''command failed rc='' @ show_int rc @ '': '' @ cmd), h1))"

text \<open>\<open>char cmd[256]; snprintf (cmd, sizeof (cmd), ...)\<close>\<close>

definition snprintf256 :: "string \<Rightarrow> string" where
  "snprintf256 s = take 255 s"

definition apply_ipv4 :: "shell \<Rightarrow> string \<Rightarrow> string \<Rightarrow> string \<Rightarrow> Host \<Rightarrow> (string + unit) \<times> Host" where
  "apply_ipv4 system iface ip4 netmask4 h =
     (if \<not> is_safe_iface iface \<or> \<not> is_ipv4 ip4 \<or> \<not> is_ipv4 netmask4
      then (Inl ''invalid IPv4 interface configuration'', h)
      else run_command system (snprintf256 (''ifconfig '' @ c_str iface @ '' '' @ c_str ip4 @ '' netmask '' @
             c_str netmask4 @ '' up'')) h)"

definition clear_ipv4 :: "shell \<Rightarrow> string \<Rightarrow> Host \<Rightarrow> (string + unit) \<times> Host" where
  "clear_ipv4 system iface h =
     (if \<not> is_safe_iface iface then (Inl ''invalid interface'', h)
      else run_command system (''ifconfig '' @ iface @ '' 0.0.0.0'') h)"

definition route_row :: "string \<Rightarrow> (string \<times> string \<times> int) option" where
  "route_row line = (case stream_words line of
     row_iface # destination # gateway # flags # refcnt # use # row_metric # _ \<Rightarrow>
       if destination \<noteq> ''00000000'' then None
       else (case strtol10 (c_str row_metric) of
         Some (m, []) \<Rightarrow> Some (row_iface, hex_gateway_to_ipv4 gateway, m)
       | _ \<Rightarrow> None)
   | _ \<Rightarrow> None)"

definition exact_default_route_exists :: "string \<Rightarrow> string \<Rightarrow> int \<Rightarrow> Host \<Rightarrow> bool \<times> Host" where
  "exact_default_route_exists iface gateway4 metric h = (case read_stream ''/proc/net/route'' h of
     (None, h1) \<Rightarrow> (False, h1)
   | (Some data, h1) \<Rightarrow> (\<exists>line \<in> set (tl (getlines data)). route_row line = Some (iface, gateway4, metric), h1))"

definition route_args_ok :: "string \<Rightarrow> string \<Rightarrow> int \<Rightarrow> bool" where
  "route_args_ok iface gateway4 metric \<longleftrightarrow> is_safe_iface iface \<and> is_ipv4 gateway4 \<and> 0 \<le> metric \<and> metric \<le> 65535"

definition set_default_route :: "shell \<Rightarrow> string \<Rightarrow> string \<Rightarrow> int \<Rightarrow> Host \<Rightarrow> (string + unit) \<times> Host" where
  "set_default_route system iface gateway4 metric h =
     (if \<not> route_args_ok iface gateway4 metric then (Inl ''invalid default route configuration'', h)
      else case exact_default_route_exists iface gateway4 metric h of (there, h1) \<Rightarrow>
        if there then (Inr (), h1)
        else run_command system (snprintf256 (''route add default gw '' @ c_str gateway4 @ '' dev '' @ c_str iface @
               '' metric '' @ show_int metric)) h1)"

definition clear_default_route :: "shell \<Rightarrow> string \<Rightarrow> string \<Rightarrow> int \<Rightarrow> Host \<Rightarrow> (string + unit) \<times> Host" where
  "clear_default_route system iface gateway4 metric h =
     (if \<not> route_args_ok iface gateway4 metric then (Inl ''invalid default route identity'', h)
      else case exact_default_route_exists iface gateway4 metric h of (there, h1) \<Rightarrow>
        if \<not> there then (Inr (), h1)
        else run_command system (snprintf256 (''route del default gw '' @ c_str gateway4 @ '' dev '' @ c_str iface @
               '' metric '' @ show_int metric)) h1)"

section \<open>Resolver file\<close>

definition kDnsOwnerMarker :: string where
  "kDnsOwnerMarker = ''# managed-by-network-service''"

abbreviation resolv_conf :: string where
  "resolv_conf \<equiv> ''/etc/resolv.conf''"

definition dns_file_owned :: "Host \<Rightarrow> bool \<times> Host" where
  "dns_file_owned h = (case read_stream resolv_conf h of
     (None, h1) \<Rightarrow> (False, h1) | (Some data, h1) \<Rightarrow> (first_line data = kDnsOwnerMarker, h1))"

definition resolver_text :: "string \<Rightarrow> string" where
  "resolver_text dns4 = unlines [kDnsOwnerMarker, ''nameserver '' @ dns4]"

definition set_primary_dns :: "string \<Rightarrow> Host \<Rightarrow> (string + unit) \<times> Host" where
  "set_primary_dns dns4 h =
     (if \<not> is_ipv4 dns4 then (Inl ''invalid DNS IPv4 address'', h)
      else case write_stream resolv_conf (resolver_text dns4) h of
        (None, h1) \<Rightarrow> (Inl ''failed to open /etc/resolv.conf'', h1)
      | (Some good, h1) \<Rightarrow> (if good then Inr () else Inl ''failed to write /etc/resolv.conf'', h1))"

definition clear_dns :: "Host \<Rightarrow> (string + unit) \<times> Host" where
  "clear_dns h = (case dns_file_owned h of (owned, h1) \<Rightarrow>
     if \<not> owned then (Inr (), h1)
     else case write_stream resolv_conf [] h1 of
        (None, h2) \<Rightarrow> (Inl ''failed to open /etc/resolv.conf'', h2)
      | (Some good, h2) \<Rightarrow> (if good then Inr () else Inl ''failed to clear /etc/resolv.conf'', h2))"

section \<open>What reaches the shell\<close>

definition shell_safe :: "string \<Rightarrow> bool" where
  "shell_safe cmd \<longleftrightarrow> list_all (\<lambda>c. name_char c \<or> c = CHR '' '') cmd"

lemma shell_safe_append [simp]: "shell_safe (a @ b) \<longleftrightarrow> shell_safe a \<and> shell_safe b"
  by (simp add: shell_safe_def)

lemma shell_safe_take: "shell_safe s \<Longrightarrow> shell_safe (snprintf256 s)"
  by (auto simp: shell_safe_def snprintf256_def list_all_iff dest: in_set_takeD)

lemma digits_shell_safe: "list_all isdigit s \<Longrightarrow> shell_safe s"
  by (simp add: shell_safe_def name_char_def list_all_iff)

lemma shell_safe_iface: "is_safe_iface i \<Longrightarrow> shell_safe i"
  by (simp add: is_safe_iface_def shell_safe_def list_all_iff)

lemma iface_c_str: "is_safe_iface i \<Longrightarrow> c_str i = i"
  by (rule c_str_id) (auto simp: is_safe_iface_def list_all_iff name_char_def isdigit_def ord_def dest: bspec)

lemma split_char_set: "set s \<subseteq> insert d (\<Union> (set ` set (split_char d s)))"
proof -
  have "set (s @ [d]) = set (concat (map (\<lambda>w. w @ [d]) (split_char d s)))" by (simp add: split_char_join)
  then show ?thesis by auto
qed

lemma ipv4_shell_safe: "is_ipv4 a \<Longrightarrow> shell_safe (c_str a)"
  using split_char_set [of "c_str a" "CHR ''.''"]
  by (fastforce simp: is_ipv4_def inet_pton4_def list_all_iff decimal_octet_def shell_safe_def name_char_def)

lemma ipv4_length:
  assumes "is_ipv4 a"
  shows "length (c_str a) \<le> 15"
proof -
  let ?ws = "split_char CHR ''.'' (c_str a)"
  have "length (c_str a @ ''.'') = length (concat (map (\<lambda>w. w @ ''.'') ?ws))" by (simp add: split_char_join)
  also have "\<dots> = (\<Sum>w\<leftarrow>?ws. length w + 1)" by (simp add: length_concat comp_def)
  also have "\<dots> \<le> (\<Sum>w\<leftarrow>?ws. 4)"
    using assms by (intro sum_list_mono) (auto simp: is_ipv4_def inet_pton4_def list_all_iff decimal_octet_def)
  also have "\<dots> = 16" using assms by (simp add: is_ipv4_def inet_pton4_def sum_list_triv)
  finally show ?thesis by simp
qed

lemma metric_text: "0 \<le> m \<Longrightarrow> shell_safe (show_int m)" "0 \<le> m \<Longrightarrow> m \<le> 65535 \<Longrightarrow> length (show_int m) \<le> 5"
  using length_show_nat [of "nat m" 4] by (simp_all add: show_int_def digits_shell_safe show_nat_digits)

lemma run_command_cong: "system cmd h = system' cmd h \<Longrightarrow> run_command system cmd h = run_command system' cmd h"
  by (simp add: run_command_def)

lemma words_shell_safe [simp]:
  "shell_safe ''ifconfig ''" "shell_safe '' ''" "shell_safe '' netmask ''" "shell_safe '' up''" "shell_safe '' 0.0.0.0''"
  "shell_safe ''route add default gw ''" "shell_safe ''route del default gw ''" "shell_safe '' dev ''" "shell_safe '' metric ''"
  by (simp_all add: shell_safe_def name_char_def isdigit_def ord_def)

definition ifconfig_command :: "string \<Rightarrow> string \<Rightarrow> string \<Rightarrow> string" where
  "ifconfig_command i a n = ''ifconfig '' @ i @ '' '' @ c_str a @ '' netmask '' @ c_str n @ '' up''"

definition route_command :: "string \<Rightarrow> string \<Rightarrow> string \<Rightarrow> int \<Rightarrow> string" where
  "route_command verb i g m = ''route '' @ verb @ '' default gw '' @ c_str g @ '' dev '' @ i @ '' metric '' @ show_int m"

lemma ifconfig_complete:
  assumes "is_safe_iface i" "is_ipv4 a" "is_ipv4 n"
  shows "snprintf256 (''ifconfig '' @ c_str i @ '' '' @ c_str a @ '' netmask '' @ c_str n @ '' up'') = ifconfig_command i a n"
    and "shell_safe (ifconfig_command i a n)"
proof -
  have "length (ifconfig_command i a n) \<le> 255"
    using assms ipv4_length [OF assms(2)] ipv4_length [OF assms(3)]
    by (simp add: is_safe_iface_def ifconfig_command_def)
  then show "snprintf256 (''ifconfig '' @ c_str i @ '' '' @ c_str a @ '' netmask '' @ c_str n @ '' up'') = ifconfig_command i a n"
    by (simp add: snprintf256_def ifconfig_command_def iface_c_str [OF assms(1)])
  show "shell_safe (ifconfig_command i a n)"
    using assms unfolding ifconfig_command_def by (simp add: shell_safe_iface ipv4_shell_safe del: append.simps)
qed

lemma route_complete:
  assumes "route_args_ok i g m" and "verb = ''add'' \<or> verb = ''del''"
  shows "snprintf256 (''route '' @ verb @ '' default gw '' @ c_str g @ '' dev '' @ c_str i @ '' metric '' @ show_int m)
     = route_command verb i g m"
    and "shell_safe (route_command verb i g m)"
proof -
  have g: "is_safe_iface i" "is_ipv4 g" "0 \<le> m" "m \<le> 65535" using assms(1) by (simp_all add: route_args_ok_def)
  have "length (route_command verb i g m) \<le> 255"
    using g ipv4_length [OF g(2)] metric_text(2) [OF g(3,4)] assms(2)
    by (auto simp: is_safe_iface_def route_command_def)
  then show "snprintf256 (''route '' @ verb @ '' default gw '' @ c_str g @ '' dev '' @ c_str i @ '' metric '' @ show_int m)
     = route_command verb i g m"
    by (simp add: snprintf256_def route_command_def iface_c_str [OF g(1)])
  have "shell_safe ''route ''" "shell_safe verb" "shell_safe '' default gw ''"
    using assms(2) by (auto simp: shell_safe_def name_char_def isdigit_def ord_def)
  then show "shell_safe (route_command verb i g m)"
    using g unfolding route_command_def
    by (simp add: shell_safe_iface ipv4_shell_safe metric_text(1) del: append.simps)
qed

lemma route_runs:
  assumes "route_args_ok i g m"
  shows "set_default_route system i g m h = (case exact_default_route_exists i g m h of (there, h1) \<Rightarrow>
       if there then (Inr (), h1) else run_command system (route_command ''add'' i g m) h1)"
    and "clear_default_route system i g m h = (case exact_default_route_exists i g m h of (there, h1) \<Rightarrow>
       if \<not> there then (Inr (), h1) else run_command system (route_command ''del'' i g m) h1)"
  using assms route_complete(1) [OF assms, of "''add''"] route_complete(1) [OF assms, of "''del''"]
  by (simp_all add: set_default_route_def clear_default_route_def split: prod.splits)

section \<open>Properties\<close>



end
