(* ===== verification/Snapshot.thy ===== *)
theory Snapshot
  imports Contracts Configurator
begin

text \<open>
  The live snapshot (\<^verbatim>\<open>src/platform/interface_snapshot.cpp\<close>): raw facts from \<open>getifaddrs\<close>, the
  carrier file, \<^verbatim>\<open>/proc/net/route\<close> and the resolver file. \<open>getifaddrs\<close> is a parameter; its list
  entries carry the fields the code reads.
\<close>

section \<open>Addresses and carrier\<close>

datatype sockaddr = AF_INET u32 | AF_other

record IfAddr =
  ifa_name :: "string option"
  ifa_up :: bool
  ifa_running :: bool
  ifa_addr :: "sockaddr option"
  ifa_netmask :: "sockaddr option"

definition sockaddr_to_ipv4 :: "sockaddr option \<Rightarrow> string" where
  "sockaddr_to_ipv4 addr = (case addr of Some (AF_INET raw) \<Rightarrow> inet_ntop_le raw | _ \<Rightarrow> [])"

definition read_file_trimmed :: "string \<Rightarrow> Host \<Rightarrow> string option \<times> Host" where
  "read_file_trimmed path h = (case read_stream path h of
     (None, h1) \<Rightarrow> (None, h1)
   | (Some data, h1) \<Rightarrow> (Some (rev (dropWhile is_blank (rev (first_line data)))), h1))"

definition read_carrier :: "string \<Rightarrow> Host \<Rightarrow> bool \<times> Host" where
  "read_carrier iface h = (case read_file_trimmed (''/sys/class/net/'' @ iface @ ''/carrier'') h of
     (value, h1) \<Rightarrow> (value = Some ''1'', h1))"

definition ifaddr_entry :: "IfAddr \<Rightarrow> InterfaceSnapshot \<Rightarrow> InterfaceSnapshot" where
  "ifaddr_entry ifa s =
     (if ifa_name ifa \<noteq> Some (if_iface s) then s
      else let s1 = s\<lparr> if_exists := True, if_enabled := ifa_up ifa, if_carrier_up := if_carrier_up s \<or> ifa_running ifa \<rparr> in
        case ifa_addr ifa of
          Some (AF_INET raw) \<Rightarrow>
            (let ip = sockaddr_to_ipv4 (ifa_addr ifa); mask = sockaddr_to_ipv4 (ifa_netmask ifa);
                 s2 = (if ip \<noteq> [] then s1\<lparr> if_has_ip := True, if_ip4 := ip \<rparr> else s1) in
             if mask \<noteq> [] then s2\<lparr> if_netmask4 := mask \<rparr> else s2)
        | _ \<Rightarrow> s1)"

definition populate_interface_addresses ::
  "(Host \<Rightarrow> IfAddr list option \<times> Host) \<Rightarrow> InterfaceSnapshot \<Rightarrow> Host \<Rightarrow> InterfaceSnapshot \<times> Host" where
  "populate_interface_addresses getifaddrs s h = (case getifaddrs h of
     (None, h1) \<Rightarrow> (s, h1)
   | (Some ifaddr, h1) \<Rightarrow>
       (let s1 = fold ifaddr_entry ifaddr s in
        if if_exists s1 then (case read_carrier (if_iface s1) h1 of (up, h2) \<Rightarrow> (s1\<lparr> if_carrier_up := up \<rparr>, h2))
        else (s1, h1)))"

section \<open>Routes\<close>

definition set_route_fact :: "string \<Rightarrow> int \<Rightarrow> InterfaceSnapshot \<Rightarrow> InterfaceSnapshot" where
  "set_route_fact gateway metric s = s\<lparr> if_has_default_route := True, if_gateway4 := gateway, if_route_metric := metric \<rparr>"

definition default_route_line :: "string \<Rightarrow> NetworkSnapshot \<Rightarrow> NetworkSnapshot" where
  "default_route_line line s = (case stream_words line of
     iface # destination # gateway # flags # refcnt # use # metric # _ \<Rightarrow>
       if destination \<noteq> ''00000000'' then s
       else let upd = set_route_fact (hex_gateway_to_ipv4 gateway) (atoi (c_str metric)) in
         if iface = if_iface (ns_wifi s) then s\<lparr> ns_wifi := upd (ns_wifi s) \<rparr>
         else if iface = if_iface (ns_eth s) then s\<lparr> ns_eth := upd (ns_eth s) \<rparr>
         else s
   | _ \<Rightarrow> s)"

definition populate_default_routes :: "NetworkSnapshot \<Rightarrow> Host \<Rightarrow> NetworkSnapshot \<times> Host" where
  "populate_default_routes s h = (case read_stream ''/proc/net/route'' h of
     (None, h1) \<Rightarrow> (s, h1)
   | (Some data, h1) \<Rightarrow> (fold default_route_line (tl (getlines data)) s, h1))"

section \<open>Resolver and the whole snapshot\<close>

record DnsFileFact =
  df_managed_by_network_service :: bool
  df_dns4 :: string

text \<open>The pair is \<open>first_line\<close> and the fact.\<close>

definition dns_fact_line :: "string \<Rightarrow> bool \<times> DnsFileFact \<Rightarrow> bool \<times> DnsFileFact" where
  "dns_fact_line line s = (case s of (first, f) \<Rightarrow>
     let f1 = (if first then f\<lparr> df_managed_by_network_service := (line = kDnsOwnerMarker) \<rparr> else f) in
     if df_dns4 f1 \<noteq> [] then (False, f1)
     else case stream_words line of
       key # value # _ \<Rightarrow> (False, if key = ''nameserver'' then f1\<lparr> df_dns4 := value \<rparr> else f1)
     | _ \<Rightarrow> (False, f1))"

definition read_dns_fact :: "Host \<Rightarrow> DnsFileFact \<times> Host" where
  "read_dns_fact h = (case read_stream resolv_conf h of
     (None, h1) \<Rightarrow> (\<lparr> df_managed_by_network_service = False, df_dns4 = [] \<rparr>, h1)
   | (Some data, h1) \<Rightarrow>
       (snd (fold dns_fact_line (getlines data) (True, \<lparr> df_managed_by_network_service = False, df_dns4 = [] \<rparr>)), h1))"

definition or_default :: "string \<Rightarrow> string option \<Rightarrow> string" where
  "or_default d s = (case s of None \<Rightarrow> d | Some v \<Rightarrow> if v = [] then d else v)"

definition read_live_snapshot ::
  "(Host \<Rightarrow> IfAddr list option \<times> Host) \<Rightarrow> string option \<Rightarrow> string option \<Rightarrow> Host \<Rightarrow> NetworkSnapshot \<times> Host" where
  "read_live_snapshot getifaddrs eth_iface wifi_iface h =
     (case populate_interface_addresses getifaddrs
             (InterfaceSnapshot_default\<lparr> if_iface := or_default ''eth0'' eth_iface \<rparr>) h of (eth, h1) \<Rightarrow>
      case populate_interface_addresses getifaddrs
             (InterfaceSnapshot_default\<lparr> if_iface := or_default ''wlan0'' wifi_iface \<rparr>) h1 of (wifi, h2) \<Rightarrow>
      case populate_default_routes (NetworkSnapshot_default\<lparr> ns_eth := eth, ns_wifi := wifi \<rparr>) h2 of (s, h3) \<Rightarrow>
      case read_dns_fact h3 of (dns, h4) \<Rightarrow>
        (s\<lparr> ns_dns4 := df_dns4 dns, ns_dns_available := (df_dns4 dns \<noteq> []),
            ns_dns_managed_by_network_service := df_managed_by_network_service dns \<rparr>, h4))"

section \<open>Resolver ownership seen through the snapshot\<close>

lemma ipv4_word:
  assumes "is_ipv4 d" and "CHR 0x00 \<notin> set d"
  shows "word_like d" and "newline \<notin> set d"
proof -
  have "shell_safe d" "d \<noteq> []" using ipv4_shell_safe [OF assms(1)] assms by (simp_all add: c_str_id is_ipv4_def)
  moreover have dot: "set d \<subseteq> insert (CHR ''.'') (\<Union> (set ` set (split_char CHR ''.'' d)))" by (rule split_char_set)
  moreover have "isdigit c" if "w \<in> set (split_char CHR ''.'' d)" "c \<in> set w" for c w
    using assms that by (auto simp: is_ipv4_def inet_pton4_def c_str_id decimal_octet_def list_all_iff)
  ultimately have chars: "isdigit c \<or> c = CHR ''.''" if "c \<in> set d" for c using that by blast
  show "word_like d"
    using chars digit_not_space \<open>d \<noteq> []\<close> by (fastforce simp: word_like_def list_all_iff isspace_def ord_def)
  show "newline \<notin> set d"
    using chars [of newline] by (auto simp: newline_def isdigit_def ord_def)
qed

lemma stream_words_two:
  assumes "word_like a" and "word_like b"
  shows "stream_words (a @ CHR '' '' # b) = [a, b]"
proof -
  have b: "dropWhile (\<lambda>c. \<not> isspace c) b = []" "takeWhile (\<lambda>c. \<not> isspace c) b = b" "dropWhile isspace b = b" "b \<noteq> []"
    using assms(2) by (cases b; auto simp: word_like_def list_all_iff takeWhile_eq_all_conv dest: set_dropWhileD)+
  have tb: "stream_words b = [b]"
    by (subst stream_words.simps) (simp add: b Let_def stream_words.simps)
  have sp: "isspace (CHR '' '')" by (simp add: isspace_def ord_def)
  have sb: "stream_words (CHR '' '' # b) = stream_words b"
    using sp by (subst stream_words.simps) (simp add: stream_words.simps [of b])
  have a: "a \<noteq> []" "\<not> isspace (hd a)" "\<And>c. c \<in> set a \<Longrightarrow> \<not> isspace c"
    using assms(1) by (cases a; auto simp: word_like_def list_all_iff)+
  then have d: "dropWhile isspace (a @ CHR '' '' # b) = a @ CHR '' '' # b" by (cases a) auto
  have "stream_words (a @ CHR '' '' # b) = a # stream_words (CHR '' '' # b)"
    using a sp by (subst stream_words.simps) (simp add: Let_def d takeWhile_append dropWhile_append)
  then show ?thesis by (simp add: sb tb)
qed

lemma marker_line: "newline \<notin> set kDnsOwnerMarker" "newline \<notin> set ''nameserver ''"
  by (simp_all add: kDnsOwnerMarker_def newline_def)

lemma marker_words: "stream_words kDnsOwnerMarker = [''#'', ''managed-by-network-service'']"
  using stream_words_two [of "''#''" "''managed-by-network-service''"]
  by (simp add: kDnsOwnerMarker_def word_like_def isspace_def ord_def)

lemma resolver_text_fact:
  assumes "is_ipv4 d" and "CHR 0x00 \<notin> set d"
  shows "snd (fold dns_fact_line (getlines (resolver_text d)) (True, \<lparr> df_managed_by_network_service = False, df_dns4 = [] \<rparr>))
     = \<lparr> df_managed_by_network_service = True, df_dns4 = d \<rparr>"
proof -
  note w = ipv4_word [OF assms]
  have "getlines (resolver_text d) = [kDnsOwnerMarker, ''nameserver '' @ d]"
    unfolding resolver_text_def using w(2) marker_line by (intro getlines_unlines) (simp add: newline_def)
  moreover have "stream_words (''nameserver '' @ d) = [''nameserver'', d]"
    using stream_words_two [of "''nameserver''" d] w(1) by (simp add: word_like_def isspace_def ord_def)
  ultimately show ?thesis by (simp add: dns_fact_line_def marker_words Let_def)
qed

lemma dns_file_owned_files: "dns_file_owned h = (b, h1) \<Longrightarrow> h_files h1 = h_files h \<and>
   (b \<longrightarrow> map_option first_line (h_files h resolv_conf) = Some kDnsOwnerMarker)"
  by (auto simp: dns_file_owned_def split: option.splits prod.splits dest: read_stream_files read_stream_Some)

section \<open>Properties\<close>



end
