(* ===== verification/Wifi_Backend.thy ===== *)
theory Wifi_Backend
  imports Contracts Configurator Wifi_Profile
begin

text \<open>
  The Wi-Fi backend (\<^verbatim>\<open>src/platform/wifi_backend.cpp\<close>): supplicant commands and the parsers of
  their replies. The control-socket exchange \<open>ctrl.request\<close> and \<open>system\<close> are parameters
  (\<open>WifiPorts\<close>); a function with an \<open>error\<close> out-parameter is an action on the error string and the
  world.
\<close>

section \<open>Texts\<close>

definition valid_network_id :: "int \<Rightarrow> bool" where
  "valid_network_id network_id \<longleftrightarrow> 0 \<le> network_id \<and> network_id \<le> 4096"

definition wpa_forbidden :: "char \<Rightarrow> bool" where
  "wpa_forbidden c \<longleftrightarrow> c = CHR 0x00 \<or> c = CHR 0x0A \<or> c = CHR 0x0D"

fun wpa_quote_body :: "string \<Rightarrow> string option" where
  "wpa_quote_body [] = Some []"
| "wpa_quote_body (c # cs) =
     (if wpa_forbidden c then None
      else case wpa_quote_body cs of
        None \<Rightarrow> None
      | Some r \<Rightarrow> Some (if c = CHR 0x5C \<or> c = CHR 0x22 then CHR 0x5C # c # r else c # r))"

definition wpa_quote :: "string \<Rightarrow> string option" where
  "wpa_quote value = (case wpa_quote_body value of None \<Rightarrow> None | Some r \<Rightarrow> Some (CHR 0x22 # r @ [CHR 0x22]))"

definition split_tab_line :: "string \<Rightarrow> string list" where
  "split_tab_line line = split_char (CHR 0x09) line"

definition parse_network_id :: "string \<Rightarrow> int" where
  "parse_network_id value = (case strtol10 (c_str value) of
     None \<Rightarrow> -1 | Some (nid, _) \<Rightarrow> if nid < 0 \<or> nid > 4096 then -1 else nid)"

section \<open>Exchanges with the supplicant\<close>

text \<open>\<open>wp_request iface command\<close> is a \<open>WpaCtrlClient\<close> on the socket of \<open>iface\<close>: the reply, or \<open>None\<close>
  with the error string set.\<close>

record 'w WifiPorts =
  wp_request :: "string \<Rightarrow> string \<Rightarrow> 'w \<Rightarrow> (string + string) \<times> 'w"
  wp_system :: "string \<Rightarrow> 'w \<Rightarrow> int \<times> 'w"

definition wpa_request :: "'w WifiPorts \<Rightarrow> string \<Rightarrow> string \<Rightarrow> string \<times> 'w \<Rightarrow> string option \<times> string \<times> 'w" where
  "wpa_request ports iface command s =
     (if \<not> is_safe_iface iface then (None, ''invalid wifi iface'', snd s)
      else case wp_request ports iface command (snd s) of
        (Inl e, w) \<Rightarrow> (None, e, w)
      | (Inr reply, w) \<Rightarrow> (Some reply, [], w))"

definition wpa_ok :: "'w WifiPorts \<Rightarrow> string \<Rightarrow> string \<Rightarrow> 'w err_act" where
  "wpa_ok ports iface command s = (case wpa_request ports iface command s of
     (None, e, w) \<Rightarrow> (False, e, w)
   | (Some reply, e, w) \<Rightarrow>
       (let normalized = trim reply in
        if normalized = ''OK'' then (True, [], w)
        else (False, ''wpa_supplicant returned: '' @ normalized, w)))"

definition wpa_add_network :: "'w WifiPorts \<Rightarrow> string \<Rightarrow> string \<times> 'w \<Rightarrow> int \<times> string \<times> 'w" where
  "wpa_add_network ports iface s = (case wpa_request ports iface ''ADD_NETWORK'' s of
     (None, e, w) \<Rightarrow> (-1, e, w)
   | (Some reply, e, w) \<Rightarrow>
       (let normalized = trim reply; nid = parse_network_id normalized in
        (nid, if nid < 0 \<and> e = [] then ''invalid ADD_NETWORK result: '' @ normalized else e, w)))"

definition wifi_run_command :: "'w WifiPorts \<Rightarrow> string \<Rightarrow> 'w err_act" where
  "wifi_run_command ports cmd s = (case wp_system ports cmd (snd s) of (rc, w) \<Rightarrow>
     if rc \<noteq> 0 then (False, ''command failed rc='' @ show_int rc @ '': '' @ cmd, w) else (True, fst s, w))"

section \<open>Reply parsers\<close>

definition parse_saved_flags :: "string \<Rightarrow> WifiSavedNetwork \<Rightarrow> WifiSavedNetwork" where
  "parse_saved_flags flags r = r\<lparr>
     sn_is_current := contains ''CURRENT'' flags, sn_is_disabled := contains ''DISABLED'' flags,
     sn_is_temp_disabled := contains ''TEMP-DISABLED'' flags, sn_autoconnect := \<not> contains ''DISABLED'' flags \<rparr>"

definition field :: "string list \<Rightarrow> nat \<Rightarrow> string" where
  "field fs n = (if n < length fs then fs ! n else [])"

definition saved_network_line :: "string \<Rightarrow> WifiSavedNetwork list" where
  "saved_network_line line =
     (let fields = split_tab_line line in
      if length fields < 2 then []
      else let r = parse_saved_flags (field fields 3)
             \<lparr> sn_network_id = parse_network_id (field fields 0), sn_ssid = field fields 1, sn_bssid = field fields 2,
               sn_flags = field fields 3, sn_is_current = False, sn_is_disabled = False, sn_is_temp_disabled = False,
               sn_autoconnect = True \<rparr> in
        if sn_network_id r \<ge> 0 then [r] else [])"

text \<open>The lines of a reply that carry data: trimmed, not empty, without the first one.\<close>

definition reply_rows :: "string \<Rightarrow> string list" where
  "reply_rows output = tl (filter (\<lambda>l. l \<noteq> []) (map trim (getlines output)))"

definition parse_saved_networks :: "string \<Rightarrow> WifiSavedNetwork list" where
  "parse_saved_networks output = concat (map saved_network_line (reply_rows output))"

definition scan_result_line :: "string \<Rightarrow> WifiApRecord list" where
  "scan_result_line line =
     (let fields = split_tab_line line in
      if length fields < 5 then []
      else [\<lparr> ap_bssid = fields ! 0, ap_frequency = atoi (c_str (fields ! 1)), ap_signal_dbm = atoi (c_str (fields ! 2)),
              ap_flags = fields ! 3, ap_ssid = fields ! 4 \<rparr>])"

definition parse_scan_results :: "string \<Rightarrow> WifiApRecord list" where
  "parse_scan_results output = concat (map scan_result_line (reply_rows output))"

section \<open>Operations\<close>

definition set_error :: "string \<Rightarrow> string \<times> 'w \<Rightarrow> string \<times> 'w" where
  "set_error e s = (e, snd s)"

definition wifi_ensure_interface_up :: "'w WifiPorts \<Rightarrow> string \<Rightarrow> 'w err_act" where
  "wifi_ensure_interface_up ports iface s =
     (if \<not> is_safe_iface iface then (False, set_error ''invalid wifi iface'' s)
      else wifi_run_command ports (''ifconfig '' @ iface @ '' up'') s)"

definition wifi_disconnect :: "'w WifiPorts \<Rightarrow> string \<Rightarrow> 'w err_act" where
  "wifi_disconnect ports iface s =
     (if \<not> is_safe_iface iface then (False, set_error ''invalid wifi iface'' s)
      else wpa_ok ports iface ''DISCONNECT'' s)"

definition wifi_set_enabled :: "'w WifiPorts \<Rightarrow> string \<Rightarrow> bool \<Rightarrow> 'w err_act" where
  "wifi_set_enabled ports iface enabled s =
     (if \<not> is_safe_iface iface then (False, set_error ''invalid wifi iface'' s)
      else if enabled then
        act_seq (wifi_ensure_interface_up ports iface)
          (\<lambda>s1. (True, [], run_ignored (Some (wpa_ok ports iface ''RECONNECT'')) (snd s1))) s
      else wifi_run_command ports (''ifconfig '' @ iface @ '' down'')
             (fst s, run_ignored (Some (wifi_disconnect ports iface)) (snd s)))"

definition rollback_new_profile :: "'w WifiPorts \<Rightarrow> string \<Rightarrow> int \<Rightarrow> string \<times> 'w \<Rightarrow> string \<times> 'w" where
  "rollback_new_profile ports iface nid s =
     (fst s, run_ignored (Some (wpa_ok ports iface (''REMOVE_NETWORK '' @ show_int nid))) (snd s))"

text \<open>Lines 261--283: set the network's ssid and key.\<close>

definition configure_profile :: "'w WifiPorts \<Rightarrow> string \<Rightarrow> int \<Rightarrow> string \<Rightarrow> string \<Rightarrow> 'w err_act" where
  "configure_profile ports iface nid ssid password s =
     (let bad = ''wpa value contains unsupported control characters'' in
      case wpa_quote ssid of
        None \<Rightarrow> (False, set_error bad s)
      | Some quoted_ssid \<Rightarrow>
          act_seq (wpa_ok ports iface (''SET_NETWORK '' @ show_int nid @ '' ssid '' @ quoted_ssid))
            (if password = [] then wpa_ok ports iface (''SET_NETWORK '' @ show_int nid @ '' key_mgmt NONE'')
             else case wpa_quote password of
               None \<Rightarrow> (\<lambda>s1. (False, set_error bad s1))
             | Some quoted_psk \<Rightarrow> wpa_ok ports iface (''SET_NETWORK '' @ show_int nid @ '' psk '' @ quoted_psk)) s)"

definition wifi_create_profile :: "'w WifiPorts \<Rightarrow> string \<Rightarrow> string \<Rightarrow> string \<Rightarrow> string \<times> 'w \<Rightarrow> int \<times> string \<times> 'w" where
  "wifi_create_profile ports iface ssid password s =
     (if \<not> is_safe_iface iface then (-1, set_error ''invalid wifi iface'' s)
      else if ssid = [] then (-1, set_error ''ssid is required'' s)
      else case wpa_add_network ports iface (set_error [] s) of (nid, s1) \<Rightarrow>
        if nid < 0 then (-1, s1)
        else case configure_profile ports iface nid ssid password s1 of (ok, s2) \<Rightarrow>
          if \<not> ok then (-1, rollback_new_profile ports iface nid s2) else (nid, set_error [] s2))"

definition wifi_find_profile :: "'w WifiPorts \<Rightarrow> string \<Rightarrow> string \<Rightarrow> string \<times> 'w \<Rightarrow> int \<times> string \<times> 'w" where
  "wifi_find_profile ports iface ssid s =
     (if \<not> is_safe_iface iface then (-1, set_error ''invalid wifi iface'' s)
      else if ssid = [] then (-1, set_error ''ssid is required'' s)
      else case wpa_request ports iface ''LIST_NETWORKS'' s of
        (None, s1) \<Rightarrow> (-1, s1)
      | (Some reply, s1) \<Rightarrow>
          (case find (\<lambda>r. sn_ssid r = ssid) (parse_saved_networks reply) of
             Some r \<Rightarrow> (sn_network_id r, set_error [] s1)
           | None \<Rightarrow> (-1, set_error (''saved network not found: '' @ ssid) s1)))"

definition wifi_disable_all_profiles :: "'w WifiPorts \<Rightarrow> string \<Rightarrow> 'w err_act" where
  "wifi_disable_all_profiles ports iface = wpa_ok ports iface ''DISABLE_NETWORK all''"

definition with_network_id :: "int \<Rightarrow> 'w err_act \<Rightarrow> 'w err_act" where
  "with_network_id network_id f s =
     (if \<not> valid_network_id network_id then (False, set_error ''invalid Wi-Fi profile id'' s) else f s)"

definition wifi_set_profile_enabled :: "'w WifiPorts \<Rightarrow> string \<Rightarrow> int \<Rightarrow> bool \<Rightarrow> 'w err_act" where
  "wifi_set_profile_enabled ports iface network_id enabled = with_network_id network_id
     (wpa_ok ports iface ((if enabled then ''ENABLE_NETWORK '' else ''DISABLE_NETWORK '') @ show_int network_id))"

definition wifi_select_profile :: "'w WifiPorts \<Rightarrow> string \<Rightarrow> int \<Rightarrow> 'w err_act" where
  "wifi_select_profile ports iface network_id = with_network_id network_id
     (wpa_ok ports iface (''SELECT_NETWORK '' @ show_int network_id))"

definition wifi_remove_profile :: "'w WifiPorts \<Rightarrow> string \<Rightarrow> int \<Rightarrow> 'w err_act" where
  "wifi_remove_profile ports iface network_id = with_network_id network_id
     (wpa_ok ports iface (''REMOVE_NETWORK '' @ show_int network_id))"

definition wifi_save_profiles :: "'w WifiPorts \<Rightarrow> string \<Rightarrow> 'w err_act" where
  "wifi_save_profiles ports iface = wpa_ok ports iface ''SAVE_CONFIG''"

definition wifi_scan_start :: "'w WifiPorts \<Rightarrow> string \<Rightarrow> 'w err_act" where
  "wifi_scan_start ports iface s = act_seq (wifi_ensure_interface_up ports iface) (wpa_ok ports iface ''SCAN'') (set_error [] s)"

definition query_rows :: "'w WifiPorts \<Rightarrow> string \<Rightarrow> string \<Rightarrow> (string \<Rightarrow> 'a list) \<Rightarrow> string \<times> 'w \<Rightarrow> 'a list \<times> string \<times> 'w" where
  "query_rows ports iface command parse s =
     (if \<not> is_safe_iface iface then ([], set_error ''invalid wifi iface'' s)
      else case wpa_request ports iface command (set_error [] s) of
        (None, s1) \<Rightarrow> ([], s1) | (Some reply, s1) \<Rightarrow> (parse reply, s1))"

definition wifi_scan_results :: "'w WifiPorts \<Rightarrow> string \<Rightarrow> string \<times> 'w \<Rightarrow> WifiApRecord list \<times> string \<times> 'w" where
  "wifi_scan_results ports iface = query_rows ports iface ''SCAN_RESULTS'' parse_scan_results"

definition wifi_list_saved :: "'w WifiPorts \<Rightarrow> string \<Rightarrow> string \<times> 'w \<Rightarrow> WifiSavedNetwork list \<times> string \<times> 'w" where
  "wifi_list_saved ports iface = query_rows ports iface ''LIST_NETWORKS'' parse_saved_networks"

definition wifi_scan :: "'w WifiPorts \<Rightarrow> string \<Rightarrow> string \<times> 'w \<Rightarrow> WifiApRecord list \<times> string \<times> 'w" where
  "wifi_scan ports iface s = (case wifi_scan_start ports iface s of (ok, s1) \<Rightarrow>
     if \<not> ok then ([], s1) else wifi_scan_results ports iface s1)"

text \<open>The profile ports the daemon gives to \<open>WifiProfilePolicy\<close>.\<close>

definition backend_profile_ops :: "'w WifiPorts \<Rightarrow> string \<Rightarrow> 'w WifiProfilePolicyOps" where
  "backend_profile_ops ports iface = \<lparr>
     po_ensure_interface_up = Some (wifi_ensure_interface_up ports iface),
     po_create_profile = Some (wifi_create_profile ports iface),
     po_find_profile = Some (wifi_find_profile ports iface),
     po_disable_all_profiles = Some (wifi_disable_all_profiles ports iface),
     po_set_profile_enabled = Some (wifi_set_profile_enabled ports iface),
     po_select_profile = Some (wifi_select_profile ports iface),
     po_remove_profile = Some (wifi_remove_profile ports iface),
     po_save_profiles = Some (wifi_save_profiles ports iface) \<rparr>"

section \<open>The supplicant's profiles\<close>

text \<open>What wpa_supplicant documents of its control commands: \<open>ADD_NETWORK\<close> replies with the id of a
  new empty profile, \<open>REMOVE_NETWORK\<close> of a profile it has replies OK and deletes it, no other
  command adds or deletes profiles, and neither does \<open>ifconfig\<close>.\<close>

definition answered_ok :: "string + string \<Rightarrow> bool" where
  "answered_ok r = (case r of Inl _ \<Rightarrow> False | Inr reply \<Rightarrow> trim reply = ''OK'')"

definition adds_network :: "('w \<Rightarrow> int set) \<Rightarrow> ('w \<Rightarrow> (string + string) \<times> 'w) \<Rightarrow> bool" where
  "adds_network profiles f \<longleftrightarrow> (\<forall>w. case f w of
     (Inl _, w1) \<Rightarrow> profiles w1 = profiles w
   | (Inr reply, w1) \<Rightarrow> (\<exists>n \<in> {0..4096}. trim reply = show_int n \<and> n \<notin> profiles w \<and> profiles w1 = insert n (profiles w)))"

definition removes_network :: "('w \<Rightarrow> int set) \<Rightarrow> int \<Rightarrow> ('w \<Rightarrow> (string + string) \<times> 'w) \<Rightarrow> bool" where
  "removes_network profiles n f \<longleftrightarrow> (\<forall>w. case f w of (r, w1) \<Rightarrow>
     (n \<in> profiles w \<longrightarrow> answered_ok r) \<and> profiles w1 = (if answered_ok r then profiles w - {n} else profiles w))"

definition profile_command :: "string \<Rightarrow> bool" where
  "profile_command cmd \<longleftrightarrow> starts_with ''ADD_NETWORK'' cmd \<or> starts_with ''REMOVE_NETWORK'' cmd"

definition supplicant_contract :: "('w \<Rightarrow> int set) \<Rightarrow> string \<Rightarrow> 'w WifiPorts \<Rightarrow> bool" where
  "supplicant_contract profiles iface ports \<longleftrightarrow>
     adds_network profiles (wp_request ports iface ''ADD_NETWORK'')
     \<and> (\<forall>n. removes_network profiles n (wp_request ports iface (''REMOVE_NETWORK '' @ show_int n)))
     \<and> (\<forall>cmd w. \<not> profile_command cmd \<longrightarrow> profiles (snd (wp_request ports iface cmd w)) = profiles w)
     \<and> (\<forall>cmd w. profiles (snd (wp_system ports cmd w)) = profiles w)
     \<and> (\<forall>w. profiles w \<subseteq> {0..4096})"

lemma wpa_request_keeps:
  assumes "supplicant_contract profiles iface ports" and "\<not> profile_command cmd"
  shows "wpa_request ports iface cmd s = (r, e, w) \<Longrightarrow> profiles w = profiles (snd s)"
proof -
  have "profiles (snd (wp_request ports iface cmd (snd s))) = profiles (snd s)"
    using assms by (simp add: supplicant_contract_def)
  then show "wpa_request ports iface cmd s = (r, e, w) \<Longrightarrow> profiles w = profiles (snd s)"
    by (auto simp: wpa_request_def split: if_splits prod.splits sum.splits)
qed

lemma keepsI:
  assumes "\<And>s r e w. f s = (r, e, w) \<Longrightarrow> profiles w = profiles (snd s)"
  shows "keeps profiles f"
  unfolding keeps_def
proof
  fix s
  show "profiles (snd (snd (f s))) = profiles (snd s)" by (cases "f s") (simp add: assms)
qed

lemma wpa_ok_world: "snd (snd (wpa_ok ports iface cmd s)) = snd (snd (wpa_request ports iface cmd s))"
  by (cases "wpa_request ports iface cmd s") (simp add: wpa_ok_def Let_def split: option.splits)

lemma wpa_ok_keeps:
  assumes "supplicant_contract profiles iface ports" and "\<not> profile_command cmd"
  shows "keeps profiles (wpa_ok ports iface cmd)"
  proof (rule keepsI)
  fix s r e w assume "wpa_ok ports iface cmd s = (r, e, w)"
  then have "w = snd (snd (wpa_request ports iface cmd s))" using wpa_ok_world [of ports iface cmd s] by simp
  then show "profiles w = profiles (snd s)"
    using wpa_request_keeps [OF assms] by (cases "wpa_request ports iface cmd s") simp
qed

lemma snd_set_error [simp]: "snd (set_error e s) = snd s"
  by (simp add: set_error_def)

lemma command_keeps:
  assumes "supplicant_contract profiles iface ports"
  shows "keeps profiles (wifi_run_command ports cmd)"
proof (rule keepsI)
  fix s r e w assume run: "wifi_run_command ports cmd s = (r, e, w)"
  have "profiles (snd (wp_system ports cmd (snd s))) = profiles (snd s)"
    using assms unfolding supplicant_contract_def by blast
  with run show "profiles w = profiles (snd s)"
    by (cases "wp_system ports cmd (snd s)") (simp add: wifi_run_command_def split: if_splits)
qed

lemma ensure_up_keeps:
  assumes "supplicant_contract profiles iface ports"
  shows "keeps profiles (wifi_ensure_interface_up ports iface)"
  using command_keeps [OF assms] by (simp add: keeps_def wifi_ensure_interface_up_def set_error_def)

lemma with_id_keeps: "keeps profiles f \<Longrightarrow> keeps profiles (with_network_id n f)"
  by (simp add: keeps_def with_network_id_def set_error_def)

lemma plain_commands [simp]:
  "\<not> profile_command ''DISABLE_NETWORK all''" "\<not> profile_command ''SAVE_CONFIG''" "\<not> profile_command ''LIST_NETWORKS''"
  "\<not> profile_command (''ENABLE_NETWORK '' @ x)" "\<not> profile_command (''DISABLE_NETWORK '' @ x)"
  "\<not> profile_command (''SELECT_NETWORK '' @ x)" "\<not> profile_command (''SET_NETWORK '' @ x)"
  by (simp_all add: profile_command_def)

lemma configure_keeps:
  assumes "supplicant_contract profiles iface ports"
  shows "keeps profiles (configure_profile ports iface n ssid pw)"
proof -
  have ok: "keeps profiles (wpa_ok ports iface (''SET_NETWORK '' @ x))" for x
    by (rule wpa_ok_keeps [OF assms plain_commands(7)])
  have bad: "keeps profiles (\<lambda>s1. (False, set_error m s1))" for m by (simp add: keeps_def set_error_def)
  have "keeps profiles (if pw = [] then wpa_ok ports iface (''SET_NETWORK '' @ show_int n @ '' key_mgmt NONE'')
     else case wpa_quote pw of None \<Rightarrow> (\<lambda>s1. (False, set_error m s1))
       | Some q \<Rightarrow> wpa_ok ports iface (''SET_NETWORK '' @ show_int n @ '' psk '' @ q))" for m
    using ok bad by (auto split: option.splits)
  note seq = keeps_seq [OF ok this]
  show ?thesis
    by (cases "wpa_quote ssid") (use seq bad in \<open>simp_all add: keeps_def configure_profile_def Let_def set_error_def\<close>)
qed

lemma wpa_ok_remove:
  assumes "supplicant_contract profiles iface ports" and "is_safe_iface iface"
    and "wpa_ok ports iface (''REMOVE_NETWORK '' @ show_int n) s = (ok, e, w)"
  shows "profiles w = (if ok then profiles (snd s) - {n} else profiles (snd s))" and "n \<in> profiles (snd s) \<Longrightarrow> ok"
proof -
  obtain r w1 where r: "wp_request ports iface (''REMOVE_NETWORK '' @ show_int n) (snd s) = (r, w1)"
    by (cases "wp_request ports iface (''REMOVE_NETWORK '' @ show_int n) (snd s)")
  have "removes_network profiles n (wp_request ports iface (''REMOVE_NETWORK '' @ show_int n))"
    using assms(1) unfolding supplicant_contract_def by blast
  from this [unfolded removes_network_def, rule_format, of "snd s"]
  have c: "(n \<in> profiles (snd s) \<longrightarrow> answered_ok r) \<and> profiles w1 = (if answered_ok r then profiles (snd s) - {n} else profiles (snd s))"
    unfolding r prod.case .
  have "w = w1" and "ok = answered_ok r"
    using assms(2,3) r unfolding wpa_ok_def wpa_request_def answered_ok_def
    by (auto simp: Let_def split: sum.splits if_splits)
  with c show "profiles w = (if ok then profiles (snd s) - {n} else profiles (snd s))" and "n \<in> profiles (snd s) \<Longrightarrow> ok"
    by simp_all
qed

lemma c_str_show_int: "c_str (show_int n) = show_int n"
proof (rule c_str_id)
  have "CHR 0x00 \<notin> set (show_nat m)" for m
    using show_nat_digits [of m] by (auto simp: list_all_iff isdigit_def ord_def dest: bspec)
  then show "CHR 0x00 \<notin> set (show_int n)" by (simp add: show_int_def)
qed

lemma add_network_result:
  assumes "supplicant_contract profiles iface ports" and "is_safe_iface iface"
    and "wpa_add_network ports iface s = (n, e, w)"
  shows "if n < 0 then profiles w = profiles (snd s) else n \<notin> profiles (snd s) \<and> profiles w = insert n (profiles (snd s))"
proof -
  obtain r w1 where r: "wp_request ports iface ''ADD_NETWORK'' (snd s) = (r, w1)"
    by (cases "wp_request ports iface ''ADD_NETWORK'' (snd s)")
  have "adds_network profiles (wp_request ports iface ''ADD_NETWORK'')"
    using assms(1) unfolding supplicant_contract_def by blast
  note c = this [unfolded adds_network_def, rule_format, of "snd s", unfolded r prod.case]
  show ?thesis
  proof (cases r)
    case (Inl e1)
    then show ?thesis using assms(2,3) r c by (simp add: wpa_add_network_def wpa_request_def)
  next
    case (Inr reply)
    then obtain m where m: "0 \<le> m" "m \<le> 4096" "trim reply = show_int m" "m \<notin> profiles (snd s)"
      "profiles w1 = insert m (profiles (snd s))" using c by auto
    have "parse_network_id (show_int m) = m"
      using m(1,2) strtol10_show_int [of "[]" m] by (simp add: parse_network_id_def c_str_show_int)
    then show ?thesis using assms(2,3) r Inr m by (simp add: wpa_add_network_def wpa_request_def Let_def)
  qed
qed

lemma create_profile_creates:
  assumes "supplicant_contract profiles iface ports"
  shows "creates profiles (wifi_create_profile ports iface)"
  unfolding creates_def
proof (intro allI)
  fix ssid pw and s :: "string \<times> 'a"
  obtain n e w where a: "wpa_add_network ports iface (set_error [] s) = (n, e, w)"
    by (cases "wpa_add_network ports iface (set_error [] s)") auto
  obtain ok e2 w2 where c: "configure_profile ports iface n ssid pw (e, w) = (ok, e2, w2)"
    by (cases "configure_profile ports iface n ssid pw (e, w)") auto
  obtain ok3 e3 w3 where r: "wpa_ok ports iface (''REMOVE_NETWORK '' @ show_int n) ([], w2) = (ok3, e3, w3)"
    by (cases "wpa_ok ports iface (''REMOVE_NETWORK '' @ show_int n) ([], w2)") auto
  have w2: "profiles w2 = profiles w" using keepsD [OF configure_keeps [OF assms] c] by simp
  show "case wifi_create_profile ports iface ssid pw s of (i, s') \<Rightarrow>
     if i < 0 then profiles (snd s') = profiles (snd s)
     else i \<notin> profiles (snd s) \<and> profiles (snd s') = insert i (profiles (snd s))"
  proof (cases "is_safe_iface iface \<and> ssid \<noteq> []")
    case False
    then show ?thesis by (auto simp: wifi_create_profile_def set_error_def)
  next
    case True
    then have n: "if n < 0 then profiles w = profiles (snd s) else n \<notin> profiles (snd s) \<and> profiles w = insert n (profiles (snd s))"
      using add_network_result [OF assms _ a] unfolding snd_set_error by blast
    have w3: "\<not> n < 0 \<Longrightarrow> profiles w3 = profiles (snd s)"
      using wpa_ok_remove [OF assms _ r] True w2 n by auto
    have "wifi_create_profile ports iface ssid pw s =
       (if n < 0 then (-1, e, w) else if \<not> ok then (-1, e2, w3) else (n, [], w2))"
      using True a c r
      by (simp add: wifi_create_profile_def rollback_new_profile_def run_ignored_def set_error_def)
    then show ?thesis using n w2 w3 by simp
  qed
qed

lemma remove_profile_removes:
  assumes "supplicant_contract profiles iface ports" and "is_safe_iface iface"
  shows "removes profiles (wifi_remove_profile ports iface)"
    and "i \<in> profiles (snd s) \<Longrightarrow> fst (wifi_remove_profile ports iface i s)"
proof -
  have "profiles (snd (snd (wifi_remove_profile ports iface i s))) =
     (if fst (wifi_remove_profile ports iface i s) then profiles (snd s) - {i} else profiles (snd s))" for i s
    using wpa_ok_remove(1) [OF assms, of i s]
    by (cases "wpa_ok ports iface (''REMOVE_NETWORK '' @ show_int i) s")
      (simp add: wifi_remove_profile_def with_network_id_def set_error_def)
  then show "removes profiles (wifi_remove_profile ports iface)" by (simp add: removes_def)
  assume i: "i \<in> profiles (snd s)"
  have "profiles (snd s) \<subseteq> {0..4096}" using assms(1) unfolding supplicant_contract_def by blast
  with i have "valid_network_id i" by (auto simp: valid_network_id_def)
  then show "fst (wifi_remove_profile ports iface i s)"
    using i wpa_ok_remove(2) [OF assms, of i s]
    by (cases "wpa_ok ports iface (''REMOVE_NETWORK '' @ show_int i) s")
      (simp add: wifi_remove_profile_def with_network_id_def)
qed

lemma find_profile_keeps:
  assumes "supplicant_contract profiles iface ports"
  shows "keeps profiles (wifi_find_profile ports iface ssid)"
  by (rule keepsI)
    (auto simp: wifi_find_profile_def set_error_def split: if_splits prod.splits option.splits
      dest: wpa_request_keeps [OF assms plain_commands(3)])

lemma backend_profile_contract:
  assumes "supplicant_contract profiles iface ports" and "is_safe_iface iface"
  shows "profile_contract profiles (backend_profile_ops ports iface)"
proof -
  note ok = wpa_ok_keeps [OF assms(1)]
  have "keeps profiles (wifi_set_profile_enabled ports iface i b)" for i b
    unfolding wifi_set_profile_enabled_def by (cases b) (intro with_id_keeps; simp only: if_True if_False; intro ok plain_commands)+
  moreover have "keeps profiles (wifi_select_profile ports iface i)" for i
    unfolding wifi_select_profile_def by (intro with_id_keeps ok plain_commands)
  moreover have "keeps profiles (wifi_disable_all_profiles ports iface)" "keeps profiles (wifi_save_profiles ports iface)"
    unfolding wifi_disable_all_profiles_def wifi_save_profiles_def by (intro ok plain_commands)+
  ultimately show ?thesis
    by (simp add: profile_contract_def backend_profile_ops_def opt_all_def ensure_up_keeps [OF assms(1)]
        create_profile_creates [OF assms(1)] find_profile_keeps [OF assms(1)] remove_profile_removes(1) [OF assms])
qed

section \<open>Properties\<close>


text \<open>A supplicant with room for one profile that refuses to select it.\<close>

definition tiny_ports :: "bool WifiPorts" where
  "tiny_ports = \<lparr> wp_request = (\<lambda>iface cmd b.
       if cmd = ''ADD_NETWORK'' then (if b then (Inl ''timeout'', b) else (Inr ''0'', True))
       else if cmd = ''REMOVE_NETWORK 0'' then (if b then (Inr ''OK'', False) else (Inr ''FAIL'', b))
       else if starts_with ''REMOVE'' cmd \<or> starts_with ''SELECT'' cmd then (Inr ''FAIL'', b)
       else (Inr ''OK'', b)),
     wp_system = (\<lambda>cmd b. (0, b)) \<rparr>"

definition tiny_profiles :: "bool \<Rightarrow> int set" where
  "tiny_profiles b = (if b then {0} else {})"

lemma trim_plain: "trim ''OK'' = ''OK''" "trim ''FAIL'' = ''FAIL''" "trim ''0'' = ''0''"
  by (simp_all add: trim_def is_blank_def newline_def)

lemma show_int_0: "show_int 0 = ''0''"
  by code_simp

lemma tiny_contract: "supplicant_contract tiny_profiles ''wlan0'' tiny_ports"
proof -
  have "removes_network tiny_profiles n (wp_request tiny_ports ''wlan0'' (''REMOVE_NETWORK '' @ show_int n))" for n
  proof (cases "n = 0")
    case True
    then show ?thesis
      by (simp add: removes_network_def tiny_ports_def tiny_profiles_def show_int_0 answered_ok_def trim_plain)
  next
    case False
    then have "show_int n \<noteq> ''0''" by (metis atoi_show_int show_int_0)
    with False show ?thesis
      by (simp add: removes_network_def tiny_ports_def tiny_profiles_def answered_ok_def trim_plain)
  qed
  moreover have "adds_network tiny_profiles (wp_request tiny_ports ''wlan0'' ''ADD_NETWORK'')"
    by (auto simp: adds_network_def tiny_ports_def tiny_profiles_def trim_plain show_int_0 intro!: bexI [of _ 0])
  ultimately show ?thesis
    by (auto simp: supplicant_contract_def tiny_ports_def tiny_profiles_def profile_command_def)
qed


text \<open>The flag parser reports a network that is only temporarily disabled as disabled by the
  user and not autoconnecting, because \<open>TEMP-DISABLED\<close> contains \<open>DISABLED\<close>.\<close>
lemma temp_disabled_reads_disabled:
  "sn_is_temp_disabled (parse_saved_flags flags r) \<longrightarrow>
     sn_is_disabled (parse_saved_flags flags r) \<and> \<not> sn_autoconnect (parse_saved_flags flags r)"
proof
  assume "sn_is_temp_disabled (parse_saved_flags flags r)"
  then obtain p q where "flags = p @ ''TEMP-DISABLED'' @ q" by (auto simp: parse_saved_flags_def contains_iff)
  then have "flags = (p @ ''TEMP-'') @ ''DISABLED'' @ q" by simp
  then have "contains ''DISABLED'' flags" unfolding contains_iff by metis
  then show "sn_is_disabled (parse_saved_flags flags r) \<and> \<not> sn_autoconnect (parse_saved_flags flags r)"
    by (simp add: parse_saved_flags_def)
qed

end
