(* ===== verification/Wifi_Scan.thy ===== *)
theory Wifi_Scan
  imports Contracts
begin

text \<open>
  The Wi-Fi scan lifecycle (\<^verbatim>\<open>src/service/wifi_scan_lifecycle.cpp\<close>). The injected
  functions are a record of ports over a world \<open>'w\<close> that each call may change; an empty
  \<open>std::function\<close> is None. Time is in milliseconds; \<open>scan_id\<close> is a wrapping \<open>u64\<close>.
  The theorems: the invariant of every call sequence, ids that are never zero and never
  repeat from one scan to the next, no result without the current scan's own events, and
  that a scan ends by its deadline.
\<close>

datatype WifiScanState = Scan_Idle | Scanning | Scan_Ready | Scan_Failed

record WifiScanEventMarkers =
  em_sequence :: u64
  em_started_sequence :: u64
  em_completed_sequence :: u64
  em_failed_sequence :: u64

definition WifiScanEventMarkers_default :: WifiScanEventMarkers where
  "WifiScanEventMarkers_default = \<lparr> em_sequence = 0, em_started_sequence = 0,
     em_completed_sequence = 0, em_failed_sequence = 0 \<rparr>"

record WifiScanStatus =
  st_scan_id :: u64
  st_state :: WifiScanState
  st_error :: string
  st_records :: "WifiApRecord list"

text \<open>The clock stands for \<open>clock_fn_\<close> and, when that is empty, for \<open>steady_clock::now\<close>.\<close>

record 'w ScanPorts =
  sp_start :: "('w \<Rightarrow> bool \<times> string \<times> 'w) option"
  sp_results :: "('w \<Rightarrow> WifiApRecord list \<times> string \<times> 'w) option"
  sp_events :: "('w \<Rightarrow> WifiScanEventMarkers \<times> 'w) option"
  sp_clock :: "'w \<Rightarrow> int \<times> 'w"

record WifiScanLifecycle =
  sl_timeout :: int
  sl_scan_id :: u64
  sl_state :: WifiScanState
  sl_error :: string
  sl_records :: "WifiApRecord list"
  sl_baseline :: WifiScanEventMarkers
  sl_deadline :: int

definition new_scan_lifecycle :: "int \<Rightarrow> WifiScanLifecycle" where
  "new_scan_lifecycle timeout =
     \<lparr> sl_timeout = (if timeout > 0 then timeout else 5000), sl_scan_id = 0, sl_state = Scan_Idle,
       sl_error = [], sl_records = [], sl_baseline = WifiScanEventMarkers_default, sl_deadline = 0 \<rparr>"

definition scan_events :: "'w ScanPorts \<Rightarrow> 'w \<Rightarrow> WifiScanEventMarkers \<times> 'w" where
  "scan_events ports w = (case sp_events ports of None \<Rightarrow> (WifiScanEventMarkers_default, w) | Some f \<Rightarrow> f w)"

definition scan_fail :: "string \<Rightarrow> WifiScanLifecycle \<Rightarrow> WifiScanLifecycle" where
  "scan_fail error s = s\<lparr> sl_state := Scan_Failed,
     sl_error := (if error = [] then ''scan_failed'' else error), sl_records := [] \<rparr>"

definition scan_status :: "WifiScanLifecycle \<Rightarrow> WifiScanStatus" where
  "scan_status s = \<lparr> st_scan_id = sl_scan_id s, st_state = sl_state s, st_error = sl_error s,
     st_records = sl_records s \<rparr>"

definition next_scan_id :: "u64 \<Rightarrow> u64" where
  "next_scan_id i = (if i + 1 = 0 then i + 1 + 1 else i + 1)"

definition scan_start :: "'w ScanPorts \<Rightarrow> WifiScanLifecycle \<times> 'w \<Rightarrow> WifiScanStatus \<times> WifiScanLifecycle \<times> 'w" where
  "scan_start ports sw = (case sw of (s, w) \<Rightarrow>
     if sl_state s = Scanning then (scan_status s, s, w)
     else case scan_events ports w of (baseline, w1) \<Rightarrow>
       case sp_clock ports w1 of (now, w2) \<Rightarrow>
       let s1 = s\<lparr> sl_scan_id := next_scan_id (sl_scan_id s), sl_state := Scanning, sl_error := [],
                   sl_records := [], sl_baseline := baseline, sl_deadline := now + sl_timeout s \<rparr> in
       case (case sp_start ports of None \<Rightarrow> (False, [], w2) | Some f \<Rightarrow> f w2) of (ok, error, w3) \<Rightarrow>
       let s2 = (if \<not> ok then scan_fail (if error = [] then ''scan_start_failed'' else error) s1 else s1) in
       (scan_status s2, s2, w3))"

definition scan_poll :: "'w ScanPorts \<Rightarrow> WifiScanLifecycle \<times> 'w \<Rightarrow> WifiScanStatus \<times> WifiScanLifecycle \<times> 'w" where
  "scan_poll ports sw = (case sw of (s, w) \<Rightarrow>
     if sl_state s \<noteq> Scanning then (scan_status s, s, w)
     else case scan_events ports w of (current, w1) \<Rightarrow>
       let current_scan_started = em_started_sequence current > em_sequence (sl_baseline s) in
       if current_scan_started
          \<and> em_failed_sequence current > em_started_sequence current
          \<and> em_failed_sequence current > em_completed_sequence current
       then let s1 = scan_fail ''scan_failed'' s in (scan_status s1, s1, w1)
       else if current_scan_started \<and> em_completed_sequence current > em_started_sequence current
       then (case (case sp_results ports of None \<Rightarrow> ([], [], w1) | Some f \<Rightarrow> f w1) of (records, error, w2) \<Rightarrow>
          if error \<noteq> [] then
            let s1 = scan_fail (''scan_results_failed: '' @ error) s in (scan_status s1, s1, w2)
          else let s1 = s\<lparr> sl_records := records, sl_state := Scan_Ready, sl_error := [] \<rparr> in
            (scan_status s1, s1, w2))
       else case sp_clock ports w1 of (now, w2) \<Rightarrow>
         let s1 = (if now \<ge> sl_deadline s then scan_fail ''timeout'' s else s) in
         (scan_status s1, s1, w2))"

fun wifi_scan_state_name :: "WifiScanState \<Rightarrow> string" where
  "wifi_scan_state_name Scan_Idle = ''idle''"
| "wifi_scan_state_name Scanning = ''scanning''"
| "wifi_scan_state_name Scan_Ready = ''ready''"
| "wifi_scan_state_name Scan_Failed = ''failed''"

section \<open>Invariant\<close>

definition scan_inv :: "WifiScanLifecycle \<Rightarrow> bool" where
  "scan_inv s \<longleftrightarrow> (sl_error s \<noteq> [] \<longleftrightarrow> sl_state s = Scan_Failed)
     \<and> (sl_records s \<noteq> [] \<longrightarrow> sl_state s = Scan_Ready)
     \<and> (sl_state s \<noteq> Scan_Idle \<longrightarrow> sl_scan_id s \<noteq> 0)
     \<and> sl_timeout s > 0"

datatype scan_call = Call_start | Call_poll

definition scan_step :: "'w ScanPorts \<Rightarrow> scan_call \<Rightarrow> WifiScanLifecycle \<times> 'w \<Rightarrow> WifiScanLifecycle \<times> 'w" where
  "scan_step ports c sw = snd (case c of Call_start \<Rightarrow> scan_start ports sw | Call_poll \<Rightarrow> scan_poll ports sw)"

lemma next_scan_id_fresh: "next_scan_id i \<noteq> 0" "next_scan_id i \<noteq> i"
proof -
  show "next_scan_id i \<noteq> 0" by (auto simp: next_scan_id_def)
  have "i + 1 = 0 \<Longrightarrow> i + 1 + 1 \<noteq> i" by (auto simp: add_eq_0_iff2)
  then show "next_scan_id i \<noteq> i" by (simp add: next_scan_id_def)
qed

lemma scan_fail_inv: "scan_inv s \<Longrightarrow> sl_state s \<noteq> Scan_Idle \<Longrightarrow> scan_inv (scan_fail e s)"
  by (auto simp: scan_inv_def scan_fail_def)

lemma scan_start_inv: "scan_inv s \<Longrightarrow> scan_inv (fst (snd (scan_start ports (s, w))))"
  using next_scan_id_fresh(1) [of "sl_scan_id s"]
  by (auto simp: scan_start_def Let_def split: prod.splits intro!: scan_fail_inv)
    (auto simp: scan_inv_def)

lemma scan_poll_inv: "scan_inv s \<Longrightarrow> scan_inv (fst (snd (scan_poll ports (s, w))))"
  by (auto simp: scan_poll_def Let_def split: prod.splits intro!: scan_fail_inv)
    (auto simp: scan_inv_def)

interpretation scan: invariant_machine "scan_step ports" "\<lambda>sw. scan_inv (fst sw)" for ports
proof unfold_locales
  fix sw :: "WifiScanLifecycle \<times> 'a" and c
  assume "scan_inv (fst sw)"
  then show "scan_inv (fst (scan_step ports c sw))"
    by (cases sw; cases c) (simp_all add: scan_step_def scan_start_inv scan_poll_inv)
qed

section \<open>Properties\<close>

text \<open>In every sequence of \<open>start\<close> and \<open>poll\<close> calls, with any platform functions, an
  error is set exactly in the failed state, records are present only in the ready state, and
  every scan has a non-zero id.\<close>
lemma scan_calls_inv:
  "scan_inv (fst (fold (scan_step ports) calls (new_scan_lifecycle timeout, w)))"
  by (rule scan.run_inv) (simp add: scan_inv_def new_scan_lifecycle_def)

text \<open>Concrete platform functions: the world holds the markers and the time.\<close>

definition example_scan_ports :: "(WifiScanEventMarkers \<times> int) ScanPorts" where
  "example_scan_ports =
     \<lparr> sp_start = Some (\<lambda>w. (True, [], w)), sp_results = Some (\<lambda>w. ([], [], w)),
       sp_events = Some (\<lambda>w. (fst w, w)), sp_clock = (\<lambda>w. (snd w, w)) \<rparr>"

definition example_markers :: WifiScanEventMarkers where
  "example_markers = \<lparr> em_sequence = 9, em_started_sequence = 8, em_completed_sequence = 9,
     em_failed_sequence = 3 \<rparr>"

text \<open>C19: results are published only for the current scan: a poll that ends in the ready
  state saw a start event newer than the baseline taken by \<open>start\<close> and a completion newer
  than that start event.\<close>
theorem scan_ready_is_current:
  assumes "sl_state s = Scanning" and "scan_poll ports (s, w) = (st, s', w')"
    and "st_state st = Scan_Ready"
  shows "em_sequence (sl_baseline s) < em_started_sequence (fst (scan_events ports w))
    \<and> em_started_sequence (fst (scan_events ports w)) < em_completed_sequence (fst (scan_events ports w))
    \<and> sl_scan_id s' = sl_scan_id s"
  using assms
  by (auto simp: scan_poll_def Let_def scan_status_def scan_fail_def split: prod.splits if_splits)

theorem scan_ready_is_current_witness:
  "em_started_sequence (fst (scan_events example_scan_ports (example_markers, 0)))
     < em_completed_sequence (fst (scan_events example_scan_ports (example_markers, 0)))"
proof -
  let ?s = "(new_scan_lifecycle 5000)\<lparr> sl_state := Scanning, sl_scan_id := 1 \<rparr>"
  have "st_state (fst (scan_poll example_scan_ports (?s, example_markers, 0))) = Scan_Ready"
    by (simp add: scan_poll_def scan_events_def example_scan_ports_def example_markers_def
        new_scan_lifecycle_def WifiScanEventMarkers_default_def scan_status_def)
  moreover have "sl_state ?s = Scanning" by simp
  ultimately show ?thesis
    using scan_ready_is_current [of ?s example_scan_ports "(example_markers, 0)"]
    by (metis prod.collapse)
qed

text \<open>C20: a new scan gets an id that is non-zero and differs from the previous one, and it
  is over as soon as it is polled at or after its deadline.\<close>
theorem scan_fresh_and_terminates:
  assumes "sl_state s \<noteq> Scanning" and "scan_start ports (s, w) = (st, s1, w1)"
    and "fst (sp_clock ports (snd (scan_events ports w1'))) \<ge> sl_deadline s1"
  shows "st_scan_id st \<noteq> 0 \<and> st_scan_id st \<noteq> sl_scan_id s
    \<and> st_state (fst (scan_poll ports (s1, w1'))) \<noteq> Scanning"
proof -
  have "st_scan_id st = next_scan_id (sl_scan_id s)"
    using assms(1,2) by (auto simp: scan_start_def Let_def scan_status_def scan_fail_def split: prod.splits if_splits)
  moreover have "st_state (fst (scan_poll ports (s1, w1'))) \<noteq> Scanning"
    using assms(3) by (auto simp: scan_poll_def Let_def scan_status_def scan_fail_def split: prod.splits)
  ultimately show ?thesis using next_scan_id_fresh [of "sl_scan_id s"] by simp
qed

theorem scan_fresh_and_terminates_witness:
  "st_state (fst (scan_poll example_scan_ports
     (fst (snd (scan_start example_scan_ports (new_scan_lifecycle 5000, WifiScanEventMarkers_default, 100))),
      WifiScanEventMarkers_default, 5100))) \<noteq> Scanning"
proof -
  let ?w = "(WifiScanEventMarkers_default, 100 :: int)"
  let ?r = "scan_start example_scan_ports (new_scan_lifecycle 5000, ?w)"
  have "sl_state (new_scan_lifecycle 5000) \<noteq> Scanning" by (simp add: new_scan_lifecycle_def)
  moreover have "?r = (fst ?r, fst (snd ?r), snd (snd ?r))" by simp
  moreover have "fst (sp_clock example_scan_ports (snd (scan_events example_scan_ports
      (WifiScanEventMarkers_default, 5100)))) \<ge> sl_deadline (fst (snd ?r))"
    by (simp add: scan_start_def scan_events_def example_scan_ports_def new_scan_lifecycle_def Let_def)
  ultimately show ?thesis by (blast dest: scan_fresh_and_terminates)
qed

end
