(* ===== verification/Wpa_Monitor.thy ===== *)
theory Wpa_Monitor
  imports Contracts Text_Lines Wifi_Scan
begin

text \<open>
  The supplicant event monitor (\<^verbatim>\<open>src/platform/wpa_event_monitor.cpp\<close>): parsing of events and
  STATUS replies and the fact record that other threads read under a lock. The thread's loop
  \<open>run\<close> is a step relation whose steps are the points at which it changes the record: a failed
  attach, an attach with the answer to STATUS, a received event, a lost channel. Each step also
  gives the calls of the link-state handler.
\<close>

section \<open>Facts\<close>

record WpaStatusFact =
  ws_l2_state :: WifiL2State
  ws_ssid :: string
  ws_bssid :: string

definition WpaStatusFact_default :: WpaStatusFact where
  "WpaStatusFact_default = \<lparr> ws_l2_state = L2_Unknown, ws_ssid = [], ws_bssid = [] \<rparr>"

record WpaEventFact =
  we_attached :: bool
  we_l2_state :: WifiL2State
  we_scan_active :: bool
  we_failure_reason :: string
  we_connect_events :: u32
  we_disconnect_events :: u32
  we_scan_started_events :: u32
  we_scan_result_events :: u32
  we_scan_failed_events :: u32
  we_event_sequence :: u64
  we_last_scan_started_sequence :: u64
  we_last_scan_result_sequence :: u64
  we_last_scan_failed_sequence :: u64
  we_last_event :: string
  we_last_ssid :: string
  we_last_bssid :: string

definition WpaEventFact_default :: WpaEventFact where
  "WpaEventFact_default = \<lparr> we_attached = False, we_l2_state = L2_Unknown, we_scan_active = False, we_failure_reason = [],
     we_connect_events = 0, we_disconnect_events = 0, we_scan_started_events = 0, we_scan_result_events = 0,
     we_scan_failed_events = 0, we_event_sequence = 0, we_last_scan_started_sequence = 0, we_last_scan_result_sequence = 0,
     we_last_scan_failed_sequence = 0, we_last_event = [], we_last_ssid = [], we_last_bssid = [] \<rparr>"

section \<open>Parsing\<close>

definition field_after :: "string \<Rightarrow> string \<Rightarrow> string" where
  "field_after event key = (case str_find key event of
     None \<Rightarrow> [] | Some r \<Rightarrow> takeWhile (\<lambda>c. c \<noteq> CHR '' '') (drop (length key) r))"

definition normalize_event :: "string \<Rightarrow> string" where
  "normalize_event event = (case str_find ''CTRL-EVENT-'' event of None \<Rightarrow> event | Some r \<Rightarrow> r)"

definition l2_state_for_event :: "string \<Rightarrow> WifiL2State option" where
  "l2_state_for_event event =
     (if contains ''Trying to associate'' event then Some L2_Associating
      else if contains ''Associated with'' event then Some L2_Associated
      else if contains ''4-Way Handshake'' event \<or> contains ''Key negotiation completed'' event
              \<or> contains ''WPA: Key negotiation'' event then Some L2_Handshake
      else if contains ''CTRL-EVENT-CONNECTED'' event then Some L2_Connected
      else if contains ''CTRL-EVENT-DISCONNECTED'' event then Some L2_Disconnected
      else if contains ''CTRL-EVENT-SSID-TEMP-DISABLED'' event \<or> contains ''CTRL-EVENT-ASSOC-REJECT'' event
              \<or> contains ''CTRL-EVENT-AUTH-REJECT'' event \<or> contains ''WRONG_KEY'' event then Some L2_Failed
      else None)"

definition failure_reason_for_event :: "string \<Rightarrow> string" where
  "failure_reason_for_event event =
     (if contains ''WRONG_KEY'' event then ''wrong_key''
      else if contains ''CTRL-EVENT-SSID-TEMP-DISABLED'' event then ''ssid_temp_disabled''
      else if contains ''CTRL-EVENT-ASSOC-REJECT'' event then ''assoc_reject''
      else if contains ''CTRL-EVENT-AUTH-REJECT'' event then ''auth_reject''
      else [])"

definition l2_state_for_status :: "string \<Rightarrow> WifiL2State" where
  "l2_state_for_status value =
     (if value = ''COMPLETED'' then L2_Connected
      else if value = ''ASSOCIATING'' then L2_Associating
      else if value = ''ASSOCIATED'' then L2_Associated
      else if value = ''4WAY_HANDSHAKE'' \<or> value = ''GROUP_HANDSHAKE'' then L2_Handshake
      else if value = ''INTERFACE_DISABLED'' then L2_Disabled
      else if value = ''DISCONNECTED'' \<or> value = ''INACTIVE'' \<or> value = ''SCANNING'' then L2_Disconnected
      else L2_Unknown)"

definition status_line :: "string \<Rightarrow> bool \<times> WpaStatusFact \<Rightarrow> bool \<times> WpaStatusFact" where
  "status_line line0 s = (case s of (have_state, f) \<Rightarrow>
     let line = (if line0 \<noteq> [] \<and> last line0 = CHR 0x0D then butlast line0 else line0) in
     case split_eq line of
       None \<Rightarrow> (have_state, f)
     | Some (key, value) \<Rightarrow>
         if key = ''wpa_state'' then (True, f\<lparr> ws_l2_state := l2_state_for_status value \<rparr>)
         else if key = ''ssid'' then (have_state, f\<lparr> ws_ssid := value \<rparr>)
         else if key = ''bssid'' then (have_state, f\<lparr> ws_bssid := value \<rparr>)
         else (have_state, f))"

definition parse_wpa_status_reply :: "string \<Rightarrow> bool \<times> WpaStatusFact" where
  "parse_wpa_status_reply reply = fold status_line (getlines reply) (False, WpaStatusFact_default)"

section \<open>Updates of the record\<close>

definition bump_sequence :: "WpaEventFact \<Rightarrow> WpaEventFact" where
  "bump_sequence f = (let s = we_event_sequence f + 1 in f\<lparr> we_event_sequence := (if s = 0 then s + 1 else s) \<rparr>)"

definition apply_status :: "WpaStatusFact \<Rightarrow> WpaEventFact \<Rightarrow> WpaEventFact" where
  "apply_status status f = bump_sequence (f\<lparr> we_attached := True, we_l2_state := ws_l2_state status, we_failure_reason := [],
     we_last_ssid := (if ws_ssid status \<noteq> [] then ws_ssid status else we_last_ssid f),
     we_last_bssid := (if ws_bssid status \<noteq> [] then ws_bssid status else we_last_bssid f) \<rparr>)"

definition status_unknown :: "WpaEventFact \<Rightarrow> WpaEventFact" where
  "status_unknown f = bump_sequence (f\<lparr> we_attached := True, we_l2_state := L2_Unknown, we_failure_reason := [] \<rparr>)"

definition mark_channel_unavailable :: "WpaEventFact \<Rightarrow> WpaEventFact" where
  "mark_channel_unavailable f =
     (let changed = (we_attached f \<or> we_l2_state f \<noteq> L2_Unknown \<or> we_scan_active f \<or> we_failure_reason f \<noteq> []);
          g = f\<lparr> we_attached := False, we_l2_state := L2_Unknown, we_scan_active := False, we_failure_reason := [] \<rparr> in
      if changed then bump_sequence g else g)"

definition scan_marks :: "string \<Rightarrow> WpaEventFact \<Rightarrow> WpaEventFact" where
  "scan_marks event f0 =
     (let seq = we_event_sequence f0;
          f1 = (if contains ''CTRL-EVENT-SCAN-STARTED'' event then f0\<lparr> we_scan_active := True,
                  we_scan_started_events := we_scan_started_events f0 + 1, we_last_scan_started_sequence := seq \<rparr> else f0);
          f2 = (if contains ''CTRL-EVENT-SCAN-RESULTS'' event then f1\<lparr> we_scan_active := False,
                  we_scan_result_events := we_scan_result_events f1 + 1, we_last_scan_result_sequence := seq \<rparr> else f1) in
      if contains ''CTRL-EVENT-SCAN-FAILED'' event then f2\<lparr> we_scan_active := False,
                  we_scan_failed_events := we_scan_failed_events f2 + 1, we_last_scan_failed_sequence := seq \<rparr> else f2)"

definition link_marks :: "string \<Rightarrow> WpaEventFact \<Rightarrow> WpaEventFact" where
  "link_marks event f0 =
     (let f = (case l2_state_for_event event of None \<Rightarrow> f0 | Some l2 \<Rightarrow> f0\<lparr> we_l2_state := l2 \<rparr>) in
      if contains ''CTRL-EVENT-CONNECTED'' event then
        (let ssid = field_after event ''id_str=''; bssid = field_after event ''Connection to '' in
         f\<lparr> we_failure_reason := [], we_connect_events := we_connect_events f + 1,
            we_last_ssid := (if ssid \<noteq> [] then ssid else we_last_ssid f),
            we_last_bssid := (if bssid \<noteq> [] then bssid else we_last_bssid f) \<rparr>)
      else if contains ''CTRL-EVENT-DISCONNECTED'' event then f\<lparr> we_disconnect_events := we_disconnect_events f + 1 \<rparr>
      else if we_l2_state f = L2_Failed then f\<lparr> we_failure_reason := failure_reason_for_event event \<rparr>
      else f)"

definition update_event :: "string \<Rightarrow> WpaEventFact \<Rightarrow> WpaEventFact" where
  "update_event event f = link_marks event (scan_marks event (bump_sequence (f\<lparr> we_last_event := event \<rparr>)))"

section \<open>The monitoring thread\<close>

text \<open>\<open>Attached reply\<close>: open and ATTACH succeeded and STATUS gave \<open>reply\<close> (\<open>None\<close>: no answer).\<close>

datatype monitor_event = AttachFailed | Attached "string option" | Received string | ChannelLost

definition attach_status :: "string option \<Rightarrow> WpaEventFact \<Rightarrow> WpaEventFact \<times> bool list" where
  "attach_status reply f = (case map_option parse_wpa_status_reply reply of
     Some (True, status) \<Rightarrow> (apply_status status f,
        if ws_l2_state status \<noteq> L2_Unknown then [ws_l2_state status = L2_Connected] else [])
   | _ \<Rightarrow> (status_unknown f, []))"

definition receive_event :: "string \<Rightarrow> WpaEventFact \<Rightarrow> WpaEventFact \<times> bool list" where
  "receive_event event f = (let normalized = normalize_event event in
     (update_event normalized f,
      if contains ''CTRL-EVENT-CONNECTED'' normalized then [True]
      else if contains ''CTRL-EVENT-DISCONNECTED'' normalized then [False] else []))"

inductive monitor_run :: "monitor_event list \<Rightarrow> WpaEventFact \<Rightarrow> bool list \<Rightarrow> bool" where
  mr_init: "monitor_run [] WpaEventFact_default []"
| mr_failed: "monitor_run es f cs \<Longrightarrow> \<not> we_attached f \<Longrightarrow> monitor_run (es @ [AttachFailed]) (mark_channel_unavailable f) cs"
| mr_attached: "monitor_run es f cs \<Longrightarrow> \<not> we_attached f \<Longrightarrow> attach_status reply f = (g, c) \<Longrightarrow>
    monitor_run (es @ [Attached reply]) g (cs @ c)"
| mr_received: "monitor_run es f cs \<Longrightarrow> we_attached f \<Longrightarrow> receive_event e f = (g, c) \<Longrightarrow>
    monitor_run (es @ [Received e]) g (cs @ c)"
| mr_lost: "monitor_run es f cs \<Longrightarrow> we_attached f \<Longrightarrow> monitor_run (es @ [ChannelLost]) (mark_channel_unavailable f) cs"

text \<open>The markers the daemon hands to the scan lifecycle.\<close>

definition scan_markers :: "WpaEventFact \<Rightarrow> WifiScanEventMarkers" where
  "scan_markers f = \<lparr> em_sequence = we_event_sequence f, em_started_sequence = we_last_scan_started_sequence f,
     em_completed_sequence = we_last_scan_result_sequence f, em_failed_sequence = we_last_scan_failed_sequence f \<rparr>"

section \<open>Invariants\<close>

definition known_reasons :: "string set" where
  "known_reasons = {[], ''wrong_key'', ''ssid_temp_disabled'', ''assoc_reject'', ''auth_reject''}"

definition monitor_inv :: "WpaEventFact \<Rightarrow> bool" where
  "monitor_inv f \<longleftrightarrow> we_failure_reason f \<in> known_reasons \<and>
     (\<not> we_attached f \<longrightarrow> we_l2_state f = L2_Unknown \<and> \<not> we_scan_active f \<and> we_failure_reason f = [])"

definition marks_inv :: "WpaEventFact \<Rightarrow> bool" where
  "marks_inv f \<longleftrightarrow> we_last_scan_started_sequence f \<le> we_event_sequence f \<and>
     we_last_scan_result_sequence f \<le> we_event_sequence f \<and> we_last_scan_failed_sequence f \<le> we_event_sequence f"

lemma bump_fields [simp]:
  "we_attached (bump_sequence f) = we_attached f" "we_l2_state (bump_sequence f) = we_l2_state f"
  "we_scan_active (bump_sequence f) = we_scan_active f" "we_failure_reason (bump_sequence f) = we_failure_reason f"
  "we_last_scan_started_sequence (bump_sequence f) = we_last_scan_started_sequence f"
  "we_last_scan_result_sequence (bump_sequence f) = we_last_scan_result_sequence f"
  "we_last_scan_failed_sequence (bump_sequence f) = we_last_scan_failed_sequence f"
  by (simp_all add: bump_sequence_def Let_def)

lemma bump_unat:
  assumes "unat (we_event_sequence f) + 1 < 2 ^ 64"
  shows "unat (we_event_sequence (bump_sequence f)) = unat (we_event_sequence f) + 1"
proof -
  have "unat (we_event_sequence f + 1) = unat (we_event_sequence f) + 1"
    using assms by (simp add: unat_word_ariths)
  then show ?thesis by (auto simp: bump_sequence_def Let_def)
qed

lemma marks_fields [simp]:
  "we_event_sequence (scan_marks e f) = we_event_sequence f" "we_event_sequence (link_marks e f) = we_event_sequence f"
  "we_attached (scan_marks e f) = we_attached f" "we_attached (link_marks e f) = we_attached f"
  "we_failure_reason (scan_marks e f) = we_failure_reason f"
  "we_last_scan_started_sequence (link_marks e f) = we_last_scan_started_sequence f"
  "we_last_scan_result_sequence (link_marks e f) = we_last_scan_result_sequence f"
  "we_last_scan_failed_sequence (link_marks e f) = we_last_scan_failed_sequence f"
  by (simp_all add: scan_marks_def link_marks_def Let_def split: option.splits)

lemma scan_marks_markers:
  "we_last_scan_started_sequence (scan_marks e f) =
     (if contains ''CTRL-EVENT-SCAN-STARTED'' e then we_event_sequence f else we_last_scan_started_sequence f)"
  "we_last_scan_result_sequence (scan_marks e f) =
     (if contains ''CTRL-EVENT-SCAN-RESULTS'' e then we_event_sequence f else we_last_scan_result_sequence f)"
  "we_last_scan_failed_sequence (scan_marks e f) =
     (if contains ''CTRL-EVENT-SCAN-FAILED'' e then we_event_sequence f else we_last_scan_failed_sequence f)"
  by (simp_all add: scan_marks_def Let_def)

lemma reason_known: "we_failure_reason f \<in> known_reasons \<Longrightarrow> we_failure_reason (link_marks e f) \<in> known_reasons"
  by (auto simp: link_marks_def Let_def failure_reason_for_event_def known_reasons_def split: option.splits)

lemma unavailable_inv: "monitor_inv (mark_channel_unavailable f)"
  by (simp add: monitor_inv_def mark_channel_unavailable_def Let_def known_reasons_def)

lemma attach_status_inv: "attach_status reply f = (g, c) \<Longrightarrow> monitor_inv g \<and> we_attached g"
  by (auto simp: attach_status_def monitor_inv_def apply_status_def status_unknown_def known_reasons_def
      split: option.splits prod.splits bool.splits)

lemma receive_inv: "monitor_inv f \<Longrightarrow> we_attached f \<Longrightarrow> receive_event e f = (g, c) \<Longrightarrow> monitor_inv g \<and> we_attached g"
  by (auto simp: receive_event_def Let_def update_event_def monitor_inv_def intro!: reason_known)

lemma monitor_run_inv: "monitor_run es f cs \<Longrightarrow> monitor_inv f"
proof (induction rule: monitor_run.induct)
  case mr_init
  then show ?case by (simp add: monitor_inv_def WpaEventFact_default_def known_reasons_def)
qed (auto simp: unavailable_inv dest: attach_status_inv receive_inv)

text \<open>One step of the thread bumps the sequence at most once and moves markers only to it.\<close>

definition advanced :: "WpaEventFact \<Rightarrow> WpaEventFact \<Rightarrow> bool" where
  "advanced f g \<longleftrightarrow> we_event_sequence g \<in> {we_event_sequence f, we_event_sequence (bump_sequence f)}
     \<and> we_last_scan_started_sequence g \<in> {we_last_scan_started_sequence f, we_event_sequence g}
     \<and> we_last_scan_result_sequence g \<in> {we_last_scan_result_sequence f, we_event_sequence g}
     \<and> we_last_scan_failed_sequence g \<in> {we_last_scan_failed_sequence f, we_event_sequence g}"

lemma bump_cong: "we_event_sequence f = we_event_sequence g \<Longrightarrow> we_event_sequence (bump_sequence f) = we_event_sequence (bump_sequence g)"
  by (simp add: bump_sequence_def Let_def)

lemma advanced_steps:
  "advanced f (mark_channel_unavailable f)"
  "attach_status reply f = (g, c) \<Longrightarrow> advanced f g"
  "receive_event e f = (g, c) \<Longrightarrow> advanced f g"
proof -
  have b: "we_event_sequence (bump_sequence (f\<lparr> we_attached := a, we_l2_state := l, we_scan_active := sa, we_failure_reason := r,
      we_last_ssid := s, we_last_bssid := t \<rparr>)) = we_event_sequence (bump_sequence f)"
    "we_event_sequence (bump_sequence (f\<lparr> we_last_event := s \<rparr>)) = we_event_sequence (bump_sequence f)" for a l sa r s t
    by (rule bump_cong, simp)+
  show "advanced f (mark_channel_unavailable f)"
    using bump_cong [of "f\<lparr> we_attached := False, we_l2_state := L2_Unknown, we_scan_active := False, we_failure_reason := [] \<rparr>" f]
    by (simp add: advanced_def mark_channel_unavailable_def Let_def)
  show "attach_status reply f = (g, c) \<Longrightarrow> advanced f g"
    by (auto simp: attach_status_def advanced_def apply_status_def status_unknown_def split: option.splits prod.splits bool.splits
        intro!: bump_cong)
  show "receive_event e f = (g, c) \<Longrightarrow> advanced f g"
    by (auto simp: receive_event_def Let_def update_event_def advanced_def scan_marks_markers intro!: bump_cong)
qed

lemma advanced_marks:
  assumes "advanced f g" and "marks_inv f" and "unat (we_event_sequence f) \<le> n" and "n + 1 < 2 ^ 64"
  shows "marks_inv g \<and> unat (we_event_sequence g) \<le> n + 1"
proof -
  have u: "unat (we_event_sequence (bump_sequence f)) = unat (we_event_sequence f) + 1"
    using assms(3,4) by (intro bump_unat) simp
  then have le: "we_event_sequence f \<le> we_event_sequence g" and "unat (we_event_sequence g) \<le> n + 1"
    using assms(1,3) by (auto simp: advanced_def word_le_nat_alt)
  moreover have "marks_inv g"
    using assms(1,2) le unfolding advanced_def marks_inv_def by (auto intro: order_trans)
  ultimately show ?thesis by simp
qed

lemma monitor_run_marks:
  "monitor_run es f cs \<Longrightarrow> length es < 2 ^ 64 - 1 \<Longrightarrow> marks_inv f \<and> unat (we_event_sequence f) \<le> length es"
proof (induction rule: monitor_run.induct)
  case mr_init
  then show ?case by (simp add: marks_inv_def WpaEventFact_default_def)
next
  case (mr_failed es f cs)
  then show ?case using advanced_marks [OF advanced_steps(1) [of f], of "length es"] by simp
next
  case (mr_attached es f cs reply g c)
  then show ?case using advanced_marks [OF advanced_steps(2) [OF mr_attached(3)], of "length es"] by simp
next
  case (mr_received es f cs e g c)
  then show ?case using advanced_marks [OF advanced_steps(3) [OF mr_received(3)], of "length es"] by simp
next
  case (mr_lost es f cs)
  then show ?case using advanced_marks [OF advanced_steps(1) [of f], of "length es"] by simp
qed

lemma update_markers:
  assumes "unat (we_event_sequence f) + 1 < 2 ^ 64"
  shows "unat (we_event_sequence (update_event e f)) = unat (we_event_sequence f) + 1"
    and "we_last_scan_started_sequence (update_event e f) =
      (if contains ''CTRL-EVENT-SCAN-STARTED'' e then we_event_sequence (update_event e f) else we_last_scan_started_sequence f)"
    and "we_last_scan_result_sequence (update_event e f) =
      (if contains ''CTRL-EVENT-SCAN-RESULTS'' e then we_event_sequence (update_event e f) else we_last_scan_result_sequence f)"
    and "we_last_scan_failed_sequence (update_event e f) =
      (if contains ''CTRL-EVENT-SCAN-FAILED'' e then we_event_sequence (update_event e f) else we_last_scan_failed_sequence f)"
  using bump_unat [of "f\<lparr> we_last_event := e \<rparr>"] assms by (simp_all add: update_event_def scan_marks_markers)

section \<open>Properties\<close>

text \<open>Whatever the supplicant sends and whenever the channel fails, a record that is not
  attached claims nothing about the link, and a failure reason is one of the four documented ones
  or empty.\<close>
theorem monitor_facts_sound:
  assumes "monitor_run es f cs"
  shows "monitor_inv f"
  using assms by (rule monitor_run_inv)

definition reject_event :: string where
  "reject_event = ''<3>CTRL-EVENT-ASSOC-REJECT status_code=17''"

lemma reject_run:
  "monitor_run [Attached None, Received reject_event]
     (fst (receive_event reject_event (fst (attach_status None WpaEventFact_default)))) []"
proof -
  have a: "attach_status None WpaEventFact_default = (status_unknown WpaEventFact_default, [])"
    by (simp add: attach_status_def)
  have r: "snd (receive_event reject_event (status_unknown WpaEventFact_default)) = []" by code_simp
  have "monitor_run [Attached None] (status_unknown WpaEventFact_default) []"
    using mr_attached [OF mr_init _ a] by (simp add: WpaEventFact_default_def)
  from mr_received [OF this, of reject_event "fst (receive_event reject_event (status_unknown WpaEventFact_default))" "[]"] r
  show ?thesis by (simp add: a status_unknown_def prod_eq_iff)
qed

theorem monitor_facts_sound_witness:
  "monitor_inv (fst (receive_event reject_event (fst (attach_status None WpaEventFact_default))))"
  by (rule monitor_facts_sound [OF reject_run])



text \<open>The reason of a failed connection does not survive the next event: any event that says
  nothing about the link, a scan announcement for instance, empties it while the state stays
  failed.\<close>
theorem failure_reason_is_lost:
  assumes "we_l2_state f = L2_Failed" and "l2_state_for_event e = None"
  shows "we_l2_state (update_event e f) = L2_Failed \<and> we_failure_reason (update_event e f) = []"
proof -
  have l2: "we_l2_state (scan_marks e (bump_sequence (f\<lparr> we_last_event := e \<rparr>))) = L2_Failed"
    using assms(1) by (simp add: scan_marks_def Let_def)
  have "\<not> contains ''CTRL-EVENT-CONNECTED'' e" "\<not> contains ''CTRL-EVENT-DISCONNECTED'' e" "failure_reason_for_event e = []"
    using assms(2) by (auto simp: l2_state_for_event_def failure_reason_for_event_def split: if_splits)
  then show ?thesis using l2 assms(2) by (simp add: update_event_def link_marks_def)
qed

theorem failure_reason_is_lost_witness:
  "we_failure_reason (update_event ''CTRL-EVENT-SCAN-STARTED ''
     (update_event ''CTRL-EVENT-ASSOC-REJECT status_code=17'' WpaEventFact_default)) = []"
proof -
  have "we_l2_state (update_event ''CTRL-EVENT-ASSOC-REJECT status_code=17'' WpaEventFact_default) = L2_Failed"
    "l2_state_for_event ''CTRL-EVENT-SCAN-STARTED '' = None" by code_simp+
  from failure_reason_is_lost [OF this] show ?thesis by blast
qed

end
