(* ===== verification/Wpa_Ctrl.thy ===== *)
theory Wpa_Ctrl
  imports Wifi_Backend
begin

text \<open>
  The control-socket client (\<^verbatim>\<open>src/platform/wpa_ctrl_client.cpp\<close>) and the request port of the Wi-Fi backend built
  from it. The system calls are ports over a world \<open>'w\<close>: a failing one gives its \<open>strerror\<close> text, and \<open>poll\<close> stands for
  the call after its repetitions on \<open>EINTR\<close>. The process-wide counter of local socket names is part of the run.
  The lemmas show that a client owns at most one descriptor and one socket file, and that closing it gives both back.
\<close>

section \<open>The client\<close>

record WpaCtrlClient =
  ct_ctrl_path :: string
  ct_local_path :: string
  ct_fd :: int
  ct_attached :: bool

definition new_ctrl_client :: "string \<Rightarrow> WpaCtrlClient" where
  "new_ctrl_client path = \<lparr> ct_ctrl_path = path, ct_local_path = [], ct_fd = -1, ct_attached = False \<rparr>"

record 'w CtrlRun =
  cr_client :: WpaCtrlClient
  cr_sequence :: u64
  cr_world :: 'w

datatype ctrl_poll = CP_ready | CP_timeout | CP_failed string

text \<open>\<open>kp_send\<close> gives what \<open>send\<close> returns with the text of \<open>errno\<close> after it.\<close>

record 'w CtrlPorts =
  kp_pid :: u64
  kp_socket :: "'w \<Rightarrow> (string + nat) \<times> 'w"
  kp_bind :: "int \<Rightarrow> string \<Rightarrow> 'w \<Rightarrow> string option \<times> 'w"
  kp_connect :: "int \<Rightarrow> string \<Rightarrow> 'w \<Rightarrow> string option \<times> 'w"
  kp_send :: "int \<Rightarrow> string \<Rightarrow> 'w \<Rightarrow> (int \<times> string) \<times> 'w"
  kp_poll :: "int \<Rightarrow> int \<Rightarrow> 'w \<Rightarrow> ctrl_poll \<times> 'w"
  kp_recv :: "int \<Rightarrow> 'w \<Rightarrow> (string + string) \<times> 'w"
  kp_close :: "int \<Rightarrow> 'w \<Rightarrow> 'w"
  kp_unlink :: "string \<Rightarrow> 'w \<Rightarrow> 'w"

definition make_local_path :: "'w CtrlPorts \<Rightarrow> u64 \<Rightarrow> string" where
  "make_local_path p n = ''/tmp/network_service_ctrl_'' @ show_u64 (kp_pid p) @ ''_'' @ show_u64 n @ ''.sock''"

definition ctrl_sun_path_size :: nat where "ctrl_sun_path_size = 108"
definition ctrl_buffer_size :: nat where "ctrl_buffer_size = 4096"

definition fill_unix_address :: "string \<Rightarrow> bool" where
  "fill_unix_address path \<longleftrightarrow> \<not> (path = [] \<or> length path \<ge> ctrl_sun_path_size)"

text \<open>\<open>!fill_unix_address(..) || bind(..) != 0\<close> and the same with \<open>connect\<close>: the error.\<close>

definition address_then :: "string \<Rightarrow> (string \<Rightarrow> 'w \<Rightarrow> string option \<times> 'w) \<Rightarrow> string \<Rightarrow> 'w \<Rightarrow> string option \<times> 'w" where
  "address_then failure call path w =
     (if \<not> fill_unix_address path then (Some ''wpa ctrl socket path is invalid or too long'', w)
      else case call path w of (None, w1) \<Rightarrow> (None, w1) | (Some e, w1) \<Rightarrow> (Some (failure @ e), w1))"

definition abandon :: "'w CtrlPorts \<Rightarrow> int \<Rightarrow> string \<Rightarrow> 'w \<Rightarrow> 'w CtrlRun \<Rightarrow> 'w CtrlRun" where
  "abandon p fd local w r = r\<lparr> cr_client := (cr_client r)\<lparr> ct_local_path := [] \<rparr>, cr_world := kp_unlink p local (kp_close p fd w) \<rparr>"

definition ctrl_open :: "'w CtrlPorts \<Rightarrow> 'w CtrlRun \<Rightarrow> (string + unit) \<times> 'w CtrlRun" where
  "ctrl_open p r =
     (if ct_fd (cr_client r) \<ge> 0 then (Inr (), r)
      else case kp_socket p (cr_world r) of
        (Inl e, w) \<Rightarrow> (Inl (''wpa ctrl socket failed: '' @ e), r\<lparr> cr_world := w \<rparr>)
      | (Inr n, w) \<Rightarrow>
          (let fd = int n;
               local = make_local_path p (cr_sequence r);
               r1 = r\<lparr> cr_sequence := cr_sequence r + 1, cr_client := (cr_client r)\<lparr> ct_local_path := local \<rparr> \<rparr> in
           case address_then ''wpa ctrl bind failed: '' (kp_bind p fd) local (kp_unlink p local w) of
             (Some e, w1) \<Rightarrow> (Inl e, abandon p fd local w1 r1)
           | (None, w1) \<Rightarrow>
               (case address_then ''wpa ctrl connect failed: '' (kp_connect p fd) (ct_ctrl_path (cr_client r)) w1 of
                  (Some e, w2) \<Rightarrow> (Inl e, abandon p fd local w2 r1)
                | (None, w2) \<Rightarrow> (Inr (), r1\<lparr> cr_client := (cr_client r1)\<lparr> ct_fd := fd \<rparr>, cr_world := w2 \<rparr>))))"

definition ctrl_exchange :: "'w CtrlPorts \<Rightarrow> string \<Rightarrow> int \<Rightarrow> 'w CtrlRun \<Rightarrow> (string + string) \<times> 'w CtrlRun" where
  "ctrl_exchange p command timeout_ms r =
     (let fd = ct_fd (cr_client r) in
      case kp_send p fd command (cr_world r) of ((sent, e), w1) \<Rightarrow>
      if sent \<noteq> int (length command) then (Inl (''wpa ctrl send failed: '' @ e), r\<lparr> cr_world := w1 \<rparr>)
      else case kp_poll p fd timeout_ms w1 of
        (CP_timeout, w2) \<Rightarrow> (Inl ''wpa ctrl request timed out'', r\<lparr> cr_world := w2 \<rparr>)
      | (CP_failed e, w2) \<Rightarrow> (Inl (''wpa ctrl poll failed: '' @ e), r\<lparr> cr_world := w2 \<rparr>)
      | (CP_ready, w2) \<Rightarrow> (case kp_recv p fd w2 of
            (Inl e, w3) \<Rightarrow> (Inl (''wpa ctrl recv failed: '' @ e), r\<lparr> cr_world := w3 \<rparr>)
          | (Inr data, w3) \<Rightarrow> (Inr (take ctrl_buffer_size data), r\<lparr> cr_world := w3 \<rparr>)))"

definition ctrl_request :: "'w CtrlPorts \<Rightarrow> string \<Rightarrow> int \<Rightarrow> 'w CtrlRun \<Rightarrow> (string + string) \<times> 'w CtrlRun" where
  "ctrl_request p command timeout_ms r =
     (case (if ct_fd (cr_client r) < 0 then ctrl_open p r else (Inr (), r)) of
        (Inl e, r1) \<Rightarrow> (Inl e, r1)
      | (Inr _, r1) \<Rightarrow> if command = [] then (Inl ''wpa ctrl command is empty'', r1) else ctrl_exchange p command timeout_ms r1)"

definition ctrl_attach :: "'w CtrlPorts \<Rightarrow> 'w CtrlRun \<Rightarrow> (string + unit) \<times> 'w CtrlRun" where
  "ctrl_attach p r =
     (if ct_attached (cr_client r) then (Inr (), r)
      else case ctrl_request p ''ATTACH'' 2000 r of
        (Inl e, r1) \<Rightarrow> (Inl e, r1)
      | (Inr reply, r1) \<Rightarrow>
          if \<not> contains ''OK'' reply then (Inl (''wpa ctrl ATTACH rejected: '' @ reply), r1)
          else (Inr (), r1\<lparr> cr_client := (cr_client r1)\<lparr> ct_attached := True \<rparr> \<rparr>))"

definition ctrl_detach :: "'w CtrlPorts \<Rightarrow> 'w CtrlRun \<Rightarrow> 'w CtrlRun" where
  "ctrl_detach p r =
     (if \<not> ct_attached (cr_client r) \<or> ct_fd (cr_client r) < 0 then r
      else case ctrl_request p ''DETACH'' 500 r of (ignored, r1) \<Rightarrow> r1\<lparr> cr_client := (cr_client r1)\<lparr> ct_attached := False \<rparr> \<rparr>)"

definition ctrl_close :: "'w CtrlPorts \<Rightarrow> 'w CtrlRun \<Rightarrow> 'w CtrlRun" where
  "ctrl_close p r =
     (let r1 = (if ct_fd (cr_client r) \<ge> 0 then
            (let r0 = (if ct_attached (cr_client r) then ctrl_detach p r else r) in
             r0\<lparr> cr_client := (cr_client r0)\<lparr> ct_fd := -1 \<rparr>, cr_world := kp_close p (ct_fd (cr_client r0)) (cr_world r0) \<rparr>)
          else r);
          local = ct_local_path (cr_client r1);
          r2 = (if local \<noteq> [] then r1\<lparr> cr_client := (cr_client r1)\<lparr> ct_local_path := [] \<rparr>, cr_world := kp_unlink p local (cr_world r1) \<rparr>
                else r1) in
      r2\<lparr> cr_client := (cr_client r2)\<lparr> ct_attached := False \<rparr> \<rparr>)"

definition ctrl_receive :: "'w CtrlPorts \<Rightarrow> 'w CtrlRun \<Rightarrow> (string + string) \<times> 'w CtrlRun" where
  "ctrl_receive p r =
     (if ct_fd (cr_client r) < 0 then (Inl ''wpa ctrl socket is not open'', r)
      else case kp_recv p (ct_fd (cr_client r)) (cr_world r) of
        (Inl e, w) \<Rightarrow> (Inl (''wpa ctrl recv failed: '' @ e), r\<lparr> cr_world := w \<rparr>)
      | (Inr data, w) \<Rightarrow>
          if data = [] then (Inl ''wpa ctrl peer closed'', r\<lparr> cr_world := w \<rparr>)
          else (Inr (take ctrl_buffer_size data), r\<lparr> cr_world := w \<rparr>))"

definition wpa_ctrl_path_for :: "string \<Rightarrow> string \<Rightarrow> string" where
  "wpa_ctrl_path_for iface ctrl_dir =
     (let base = (if ctrl_dir = [] then ''/var/run/wpa_supplicant'' else ctrl_dir);
          base1 = (if base \<noteq> [] \<and> last base = CHR ''/'' then butlast base else base) in
      base1 @ ''/'' @ iface)"

text \<open>The backend's request: a client of its own for every command, closed when it goes out of scope.\<close>

definition ctrl_request_port :: "'w CtrlPorts \<Rightarrow> string \<Rightarrow> string \<Rightarrow> u64 \<times> 'w \<Rightarrow> (string + string) \<times> u64 \<times> 'w" where
  "ctrl_request_port p iface command s =
     (case ctrl_request p command 2000 \<lparr> cr_client = new_ctrl_client (wpa_ctrl_path_for iface []),
         cr_sequence = fst s, cr_world = snd s \<rparr> of (res, r) \<Rightarrow>
      let r1 = ctrl_close p r in (res, cr_sequence r1, cr_world r1))"

section \<open>What a client owns\<close>

text \<open>What the kernel does to the open descriptors and the socket files of the process.\<close>

definition socket_contract :: "('w \<Rightarrow> int set) \<Rightarrow> ('w \<Rightarrow> string set) \<Rightarrow> 'w CtrlPorts \<Rightarrow> bool" where
  "socket_contract fds socks p \<longleftrightarrow> (\<forall>w.
     (case kp_socket p w of
        (Inl e, w1) \<Rightarrow> fds w1 = fds w \<and> socks w1 = socks w
      | (Inr n, w1) \<Rightarrow> int n \<notin> fds w \<and> fds w1 = insert (int n) (fds w) \<and> socks w1 = socks w)
     \<and> (\<forall>fd path. fds (snd (kp_bind p fd path w)) = fds w \<and> socks (snd (kp_bind p fd path w)) \<subseteq> insert path (socks w))
     \<and> (\<forall>fd path. fds (snd (kp_connect p fd path w)) = fds w \<and> socks (snd (kp_connect p fd path w)) = socks w)
     \<and> (\<forall>fd d. fds (snd (kp_send p fd d w)) = fds w \<and> socks (snd (kp_send p fd d w)) = socks w)
     \<and> (\<forall>fd t. fds (snd (kp_poll p fd t w)) = fds w \<and> socks (snd (kp_poll p fd t w)) = socks w)
     \<and> (\<forall>fd. fds (snd (kp_recv p fd w)) = fds w \<and> socks (snd (kp_recv p fd w)) = socks w)
     \<and> (\<forall>fd. fds (kp_close p fd w) = fds w - {fd} \<and> socks (kp_close p fd w) = socks w)
     \<and> (\<forall>path. fds (kp_unlink p path w) = fds w \<and> socks (kp_unlink p path w) = socks w - {path}))"

text \<open>Beside what was there before, \<open>F\<close> and \<open>S\<close>, the client has its descriptor and its socket file.\<close>

definition owns :: "('w \<Rightarrow> int set) \<Rightarrow> ('w \<Rightarrow> string set) \<Rightarrow> int set \<Rightarrow> string set \<Rightarrow> 'w CtrlRun \<Rightarrow> bool" where
  "owns fds socks F S r \<longleftrightarrow> (let c = cr_client r in
     fds (cr_world r) = F \<union> (if ct_fd c \<ge> 0 then {ct_fd c} else {}) \<and> (ct_fd c \<ge> 0 \<longrightarrow> ct_fd c \<notin> F)
     \<and> socks (cr_world r) \<subseteq> S \<union> {ct_local_path c} \<and> (ct_local_path c = [] \<longrightarrow> socks (cr_world r) \<subseteq> S)
     \<and> (ct_attached c \<longrightarrow> ct_fd c \<ge> 0) \<and> (ct_fd c < 0 \<longrightarrow> ct_local_path c = []))"


lemma address_then_keeps:
  assumes "\<And>path. fds (snd (call path w)) = fds w \<and> socks (snd (call path w)) \<subseteq> insert path (socks w)"
  shows "address_then f call path w = (e, w1) \<Longrightarrow> fds w1 = fds w \<and> socks w1 \<subseteq> insert path (socks w)"
  using assms [of path] by (auto simp: address_then_def split: if_splits prod.splits option.splits)

lemma address_then_same:
  assumes "\<And>path. fds (snd (call path w)) = fds w \<and> socks (snd (call path w)) = socks w"
  shows "address_then f call path w = (e, w1) \<Longrightarrow> fds w1 = fds w \<and> socks w1 = socks w"
  using assms [of path] by (auto simp: address_then_def split: if_splits prod.splits option.splits)

lemma ctrl_open_owns:
  assumes contract: "socket_contract fds socks p" and o: "owns fds socks F S r"
  shows "owns fds socks F S (snd (ctrl_open p r)) \<and> (fst (ctrl_open p r) = Inr () \<longrightarrow> ct_fd (cr_client (snd (ctrl_open p r))) \<ge> 0)"
proof (cases "ct_fd (cr_client r) \<ge> 0")
  case True
  with o show ?thesis by (simp add: ctrl_open_def)
next
  case closed: False
  have calls: "\<And>fd path w. fds (snd (kp_bind p fd path w)) = fds w \<and> socks (snd (kp_bind p fd path w)) \<subseteq> insert path (socks w)"
    "\<And>fd path w. fds (snd (kp_connect p fd path w)) = fds w \<and> socks (snd (kp_connect p fd path w)) = socks w"
    "\<And>fd w. fds (kp_close p fd w) = fds w - {fd} \<and> socks (kp_close p fd w) = socks w"
    "\<And>path w. fds (kp_unlink p path w) = fds w \<and> socks (kp_unlink p path w) = socks w - {path}"
    using contract unfolding socket_contract_def by simp_all
  obtain res w where sock: "kp_socket p (cr_world r) = (res, w)" by fastforce
  show ?thesis
  proof (cases res)
    case (Inl e)
    then have "fds w = fds (cr_world r)" "socks w = socks (cr_world r)"
      using contract sock unfolding socket_contract_def by (auto dest!: spec [of _ "cr_world r"])
    with closed o sock Inl show ?thesis by (auto simp: ctrl_open_def owns_def Let_def)
  next
    case (Inr n)
    let ?l = "make_local_path p (cr_sequence r)"
    have w: "int n \<notin> fds (cr_world r)" "fds w = insert (int n) (fds (cr_world r))" "socks w = socks (cr_world r)"
      using contract sock Inr unfolding socket_contract_def by (auto dest!: spec [of _ "cr_world r"])
    have F: "fds (cr_world r) = F" "socks (cr_world r) \<subseteq> S" "\<not> ct_attached (cr_client r)"
      using o closed by (auto simp: owns_def Let_def)
    obtain e1 w1 where b: "address_then ''wpa ctrl bind failed: '' (kp_bind p (int n)) ?l (kp_unlink p ?l w) = (e1, w1)" by fastforce
    have w1: "fds w1 = insert (int n) F" "socks w1 \<subseteq> insert ?l S"
      using address_then_keeps [where fds = fds and socks = socks, OF calls(1) b] calls(4) w F by auto
    obtain e2 w2 where c: "address_then ''wpa ctrl connect failed: '' (kp_connect p (int n)) (ct_ctrl_path (cr_client r)) w1 = (e2, w2)" by fastforce
    have w2: "fds w2 = fds w1" "socks w2 = socks w1"
      using address_then_same [where fds = fds and socks = socks, OF calls(2) c] by simp_all
    have l: "?l \<noteq> []" by (simp add: make_local_path_def)
    show ?thesis
      using closed w w1 w2 F l calls
      by (cases e1; cases e2) (auto simp: ctrl_open_def sock Inr b c Let_def abandon_def owns_def)
  qed
qed

lemma ctrl_exchange_owns:
  assumes "socket_contract fds socks p" and "owns fds socks F S r"
  shows "owns fds socks F S (snd (ctrl_exchange p cmd t r)) \<and> cr_client (snd (ctrl_exchange p cmd t r)) = cr_client r"
proof -
  have calls: "\<And>fd d w. fds (snd (kp_send p fd d w)) = fds w \<and> socks (snd (kp_send p fd d w)) = socks w"
    "\<And>fd t w. fds (snd (kp_poll p fd t w)) = fds w \<and> socks (snd (kp_poll p fd t w)) = socks w"
    "\<And>fd w. fds (snd (kp_recv p fd w)) = fds w \<and> socks (snd (kp_recv p fd w)) = socks w"
    using assms(1) unfolding socket_contract_def by simp_all
  obtain sent e w1 where s: "kp_send p (ct_fd (cr_client r)) cmd (cr_world r) = ((sent, e), w1)" by (metis prod.collapse)
  obtain pr w2 where po: "kp_poll p (ct_fd (cr_client r)) t w1 = (pr, w2)" by fastforce
  obtain d w3 where rc: "kp_recv p (ct_fd (cr_client r)) w2 = (d, w3)" by fastforce
  have keep: "owns fds socks F S (r\<lparr> cr_world := w1 \<rparr>)" "owns fds socks F S (r\<lparr> cr_world := w2 \<rparr>)" "owns fds socks F S (r\<lparr> cr_world := w3 \<rparr>)"
    using assms(2) calls(1) [of "ct_fd (cr_client r)" cmd "cr_world r"] calls(2) [of "ct_fd (cr_client r)" t w1] calls(3) [of "ct_fd (cr_client r)" w2]
    by (simp_all add: owns_def s po rc)
  then show ?thesis by (cases pr; cases d) (simp_all add: ctrl_exchange_def s po rc Let_def)
qed

lemma ctrl_request_owns:
  assumes "socket_contract fds socks p" and "owns fds socks F S r"
  shows "owns fds socks F S (snd (ctrl_request p cmd t r))
    \<and> (\<forall>reply. fst (ctrl_request p cmd t r) = Inr reply \<longrightarrow> ct_fd (cr_client (snd (ctrl_request p cmd t r))) \<ge> 0)"
proof (cases "ct_fd (cr_client r) < 0")
  case True
  obtain res r1 where op: "ctrl_open p r = (res, r1)" by fastforce
  have r1: "owns fds socks F S r1" "res = Inr () \<Longrightarrow> ct_fd (cr_client r1) \<ge> 0" using ctrl_open_owns [OF assms] op by auto
  show ?thesis
    using True op r1 ctrl_exchange_owns [OF assms(1) r1(1), of cmd t] by (cases res) (simp_all add: ctrl_request_def)
next
  case False
  then show ?thesis using assms(2) ctrl_exchange_owns [OF assms, of cmd t] by (simp add: ctrl_request_def)
qed

lemma ctrl_attach_owns:
  assumes "socket_contract fds socks p" and "owns fds socks F S r"
  shows "owns fds socks F S (snd (ctrl_attach p r))"
proof -
  obtain res r1 where q: "ctrl_request p ''ATTACH'' 2000 r = (res, r1)" by fastforce
  with ctrl_request_owns [OF assms, of "''ATTACH''" 2000] assms(2) show ?thesis
    by (cases res) (auto simp: ctrl_attach_def owns_def Let_def)
qed

lemma ctrl_detach_owns:
  assumes "socket_contract fds socks p" and "owns fds socks F S r"
  shows "owns fds socks F S (ctrl_detach p r)"
proof -
  obtain res r1 where q: "ctrl_request p ''DETACH'' 500 r = (res, r1)" by fastforce
  with ctrl_request_owns [OF assms, of "''DETACH''" 500] assms(2) show ?thesis
    by (auto simp: ctrl_detach_def owns_def Let_def)
qed

lemma ctrl_receive_owns:
  assumes "socket_contract fds socks p" and "owns fds socks F S r"
  shows "owns fds socks F S (snd (ctrl_receive p r))"
proof -
  obtain d w where "kp_recv p (ct_fd (cr_client r)) (cr_world r) = (d, w)" by fastforce
  moreover have "fds w = fds (cr_world r)" "socks w = socks (cr_world r)"
    using assms(1) calculation unfolding socket_contract_def by (metis snd_conv)+
  ultimately show ?thesis using assms(2) by (cases d) (auto simp: ctrl_receive_def owns_def Let_def)
qed

text \<open>Closing gives back the descriptor and the socket file, however far the client got.\<close>

lemma ctrl_close_releases:
  assumes "socket_contract fds socks p" and "owns fds socks F S r"
  shows "fds (cr_world (ctrl_close p r)) = F \<and> socks (cr_world (ctrl_close p r)) \<subseteq> S
    \<and> ct_fd (cr_client (ctrl_close p r)) < 0 \<and> ct_local_path (cr_client (ctrl_close p r)) = []"
proof -
  have calls: "\<And>fd w. fds (kp_close p fd w) = fds w - {fd} \<and> socks (kp_close p fd w) = socks w"
    "\<And>path w. fds (kp_unlink p path w) = fds w \<and> socks (kp_unlink p path w) = socks w - {path}"
    using assms(1) unfolding socket_contract_def by simp_all
  define r0 where "r0 = (if ct_attached (cr_client r) then ctrl_detach p r else r)"
  have r0: "owns fds socks F S r0" using assms ctrl_detach_owns [OF assms] by (simp add: r0_def)
  have o: "owns fds socks F S r" by (rule assms(2))
  show ?thesis
  proof (cases "ct_fd (cr_client r) \<ge> 0")
    case True
    have same: "ct_fd (cr_client r0) = ct_fd (cr_client r)"
      using True ctrl_exchange_owns [OF assms, of "''DETACH''" 500]
      by (simp add: r0_def ctrl_detach_def ctrl_request_def split_beta)
    show ?thesis
      using r0 True same calls unfolding ctrl_close_def r0_def [symmetric] owns_def Let_def by auto
  next
    case False
    then show ?thesis using o calls unfolding ctrl_close_def owns_def Let_def by auto
  qed
qed

text \<open>A command of the Wi-Fi backend leaks neither a descriptor nor a socket file, whether it succeeds or fails at any step.\<close>

theorem request_port_no_leak:
  assumes "socket_contract fds socks p" and "ctrl_request_port p iface command (n, w) = (res, n1, w1)"
  shows "fds w1 = fds w \<and> socks w1 \<subseteq> socks w"
proof -
  let ?r = "\<lparr> cr_client = new_ctrl_client (wpa_ctrl_path_for iface []), cr_sequence = n, cr_world = w \<rparr>"
  have "owns fds socks (fds w) (socks w) ?r" by (auto simp: owns_def new_ctrl_client_def)
  note o = ctrl_request_owns [OF assms(1) this, of command 2000]
  show ?thesis
    using ctrl_close_releases [OF assms(1) conjunct1 [OF o]] assms(2) by (auto simp: ctrl_request_port_def Let_def split_beta)
qed

end
