(* ===== verification/Wpa_Thread.thy ===== *)
theory Wpa_Thread
  imports Wpa_Monitor Wpa_Ctrl
begin

text \<open>
  The thread of the supplicant monitor (\<^verbatim>\<open>src/platform/wpa_event_monitor.cpp\<close>, \<open>run\<close>, \<open>start\<close>, \<open>stop\<close>) on the control client of
  \<open>Wpa_Ctrl\<close>. A turn is one turn of the outer or of the inner loop; the flag \<open>running_\<close>, which other threads write, is read through
  a port, and every statement is about all numbers of turns. The theorems: the thread refines the relation \<open>monitor_run\<close>, over which the
  facts are proved sound; it gives back every descriptor and socket file it takes; and once the flag is cleared it ends
  within two turns, so that \<open>stop\<close> returns.
\<close>

section \<open>The thread\<close>

text \<open>What \<open>poll\<close> reports on the event socket: \<open>Event_ready\<close> stands for \<open>POLLIN\<close> without an error condition, \<open>Event_error\<close> for an
  error condition, \<open>Event_none\<close> for a timeout, an interrupt or any other event.\<close>

datatype event_poll = Event_ready | Event_none | Event_error

record 'w MonitorPorts =
  mp_ctrl :: "'w CtrlPorts"
  mp_running :: "'w \<Rightarrow> bool \<times> 'w"
  mp_poll :: "int \<Rightarrow> int \<Rightarrow> 'w \<Rightarrow> event_poll \<times> 'w"
  mp_usleep :: "int \<Rightarrow> 'w \<Rightarrow> 'w"
  mp_handler :: "(bool \<Rightarrow> 'w \<Rightarrow> 'w) option"

datatype thread_phase = Outer_loop | Inner_loop | Thread_done

text \<open>\<open>mt_run\<close> holds the event client, the counter of local socket names and the world; \<open>mt_calls\<close> records the calls of the
  handler.\<close>

record 'w MonitorThread =
  mt_phase :: thread_phase
  mt_run :: "'w CtrlRun"
  mt_fact :: WpaEventFact
  mt_calls :: "bool list"

definition call_handler :: "'w MonitorPorts \<Rightarrow> bool list \<Rightarrow> 'w MonitorThread \<Rightarrow> 'w MonitorThread" where
  "call_handler p cs t = (case mp_handler p of
     None \<Rightarrow> t
   | Some f \<Rightarrow> t\<lparr> mt_run := (mt_run t)\<lparr> cr_world := fold f cs (cr_world (mt_run t)) \<rparr>, mt_calls := mt_calls t @ cs \<rparr>)"

text \<open>\<open>status_ctrl\<close>: a client of its own for the STATUS request.\<close>

definition request_status :: "'w MonitorPorts \<Rightarrow> string \<Rightarrow> 'w CtrlRun \<Rightarrow> string option \<times> 'w CtrlRun" where
  "request_status p path r =
     (case ctrl_request (mp_ctrl p) ''STATUS'' 2000 (r\<lparr> cr_client := new_ctrl_client path \<rparr>) of (res, r1) \<Rightarrow>
      ((case res of Inl e \<Rightarrow> None | Inr reply \<Rightarrow> Some reply), (ctrl_close (mp_ctrl p) r1)\<lparr> cr_client := cr_client r \<rparr>))"

definition attach_turn :: "'w MonitorPorts \<Rightarrow> string \<Rightarrow> 'w MonitorThread \<Rightarrow> 'w MonitorThread" where
  "attach_turn p path t =
     (case ctrl_open (mp_ctrl p) ((mt_run t)\<lparr> cr_client := new_ctrl_client path \<rparr>) of (opened, r1) \<Rightarrow>
      case (case opened of Inl e \<Rightarrow> (Inl e, r1) | Inr _ \<Rightarrow> ctrl_attach (mp_ctrl p) r1) of
        (Inl e, r2) \<Rightarrow>
          t\<lparr> mt_fact := mark_channel_unavailable (mt_fact t),
             mt_run := ctrl_close (mp_ctrl p) (r2\<lparr> cr_world := mp_usleep p 1500000 (cr_world r2) \<rparr>) \<rparr>
      | (Inr _, r2) \<Rightarrow>
          (case request_status p path r2 of (reply, r3) \<Rightarrow>
           case attach_status reply (mt_fact t) of (f, cs) \<Rightarrow>
             call_handler p cs (t\<lparr> mt_phase := Inner_loop, mt_fact := f, mt_run := r3 \<rparr>)))"

definition leave_inner :: "'w MonitorPorts \<Rightarrow> 'w MonitorThread \<Rightarrow> 'w MonitorThread" where
  "leave_inner p t =
     (let r1 = ctrl_close (mp_ctrl p) (mt_run t) in
      case mp_running p (cr_world r1) of (go, w) \<Rightarrow>
        t\<lparr> mt_phase := Outer_loop, mt_fact := mark_channel_unavailable (mt_fact t),
           mt_run := r1\<lparr> cr_world := (if go then mp_usleep p 1000000 w else w) \<rparr> \<rparr>)"

definition inner_turn :: "'w MonitorPorts \<Rightarrow> 'w MonitorThread \<Rightarrow> 'w MonitorThread" where
  "inner_turn p t =
     (case mp_poll p (ct_fd (cr_client (mt_run t))) 1000 (cr_world (mt_run t)) of (polled, w) \<Rightarrow>
      let t1 = t\<lparr> mt_run := (mt_run t)\<lparr> cr_world := w \<rparr> \<rparr> in
      case polled of
        Event_none \<Rightarrow> t1
      | Event_error \<Rightarrow> leave_inner p t1
      | Event_ready \<Rightarrow> (case ctrl_receive (mp_ctrl p) (mt_run t1) of
            (Inl e, r2) \<Rightarrow> leave_inner p (t1\<lparr> mt_run := r2 \<rparr>)
          | (Inr event, r2) \<Rightarrow> (case receive_event event (mt_fact t1) of (f, cs) \<Rightarrow>
              call_handler p cs (t1\<lparr> mt_fact := f, mt_run := r2 \<rparr>))))"

definition thread_turn :: "'w MonitorPorts \<Rightarrow> string \<Rightarrow> 'w MonitorThread \<Rightarrow> 'w MonitorThread" where
  "thread_turn p path t =
     (if mt_phase t = Thread_done then t
      else case mp_running p (cr_world (mt_run t)) of (go, w) \<Rightarrow>
      let t1 = t\<lparr> mt_run := (mt_run t)\<lparr> cr_world := w \<rparr> \<rparr> in
      if mt_phase t = Outer_loop then (if go then attach_turn p path t1 else t1\<lparr> mt_phase := Thread_done \<rparr>)
      else (if go then inner_turn p t1 else leave_inner p t1))"

text \<open>The thread as \<open>start\<close> launches it, on the record the monitor has kept, and its state after \<open>n\<close> turns.\<close>

definition thread_start :: "WpaEventFact \<Rightarrow> bool list \<Rightarrow> u64 \<Rightarrow> 'w \<Rightarrow> 'w MonitorThread" where
  "thread_start f calls n w = \<lparr> mt_phase = Outer_loop, mt_run = \<lparr> cr_client = new_ctrl_client [], cr_sequence = n, cr_world = w \<rparr>,
     mt_fact = f, mt_calls = calls \<rparr>"

definition thread_turns :: "'w MonitorPorts \<Rightarrow> string \<Rightarrow> string \<Rightarrow> nat \<Rightarrow> 'w MonitorThread \<Rightarrow> 'w MonitorThread" where
  "thread_turns p iface ctrl_dir n t = (thread_turn p (wpa_ctrl_path_for iface ctrl_dir) ^^ n) t"

section \<open>Refinement of the relation on events\<close>

definition heard :: "'w MonitorPorts \<Rightarrow> bool list \<Rightarrow> bool list" where
  "heard p cs = (if mp_handler p = None then [] else cs)"

definition refines :: "'w MonitorPorts \<Rightarrow> 'w MonitorThread \<Rightarrow> bool" where
  "refines p t \<longleftrightarrow> (\<exists>es cs. monitor_run es (mt_fact t) cs \<and> mt_calls t = heard p cs)
     \<and> we_attached (mt_fact t) = (mt_phase t = Inner_loop)"

lemma unavailable_detached: "\<not> we_attached (mark_channel_unavailable f)"
  by (simp add: mark_channel_unavailable_def Let_def)

lemma call_handler_fields [simp]:
  "mt_phase (call_handler p cs t) = mt_phase t" "mt_fact (call_handler p cs t) = mt_fact t"
  "cr_client (mt_run (call_handler p cs t)) = cr_client (mt_run t)"
  "mt_calls (call_handler p cs t) = mt_calls t @ heard p cs"
  by (auto simp: call_handler_def heard_def split: option.splits)

lemma heard_append: "heard p (cs @ ds) = heard p cs @ heard p ds"
  by (simp add: heard_def)

lemma leave_inner_refines:
  assumes "refines p t" and "mt_phase t = Inner_loop"
  shows "refines p (leave_inner p t)"
proof -
  obtain es cs where "monitor_run es (mt_fact t) cs" "mt_calls t = heard p cs" "we_attached (mt_fact t)"
    using assms by (auto simp: refines_def)
  then show ?thesis
    unfolding refines_def leave_inner_def Let_def by (auto simp: unavailable_detached split: prod.split) (metis mr_lost)
qed

lemma attach_turn_refines:
  assumes "refines p t" and "mt_phase t = Outer_loop"
  shows "refines p (attach_turn p path t)"
proof -
  obtain es cs where r: "monitor_run es (mt_fact t) cs" "mt_calls t = heard p cs" "\<not> we_attached (mt_fact t)"
    using assms by (auto simp: refines_def)
  have att: "\<exists>es cs'. monitor_run es f cs' \<and> mt_calls t @ heard p c = heard p cs'" "we_attached f"
    if "attach_status reply (mt_fact t) = (f, c)" for reply f c
    using mr_attached [OF r(1,3) that] attach_status_inv [OF that] r(2) heard_append by metis+
  show ?thesis
    using mr_failed [OF r(1,3)] r(2) assms(2) att
    unfolding refines_def attach_turn_def
    by (auto simp: unavailable_detached split: prod.split sum.split)
qed

lemma inner_turn_refines:
  assumes "refines p t" and "mt_phase t = Inner_loop"
  shows "refines p (inner_turn p t)"
proof -
  obtain es cs where r: "monitor_run es (mt_fact t) cs" "mt_calls t = heard p cs" "we_attached (mt_fact t)"
    using assms by (auto simp: refines_def)
  have rec: "\<exists>es cs'. monitor_run es f cs' \<and> mt_calls t @ heard p c = heard p cs'" "we_attached f"
    if "receive_event e (mt_fact t) = (f, c)" for e f c
    using mr_received [OF r(1,3) that] receive_inv [OF monitor_run_inv [OF r(1)] r(3) that] r(2) heard_append by metis+
  have same: "refines p (t\<lparr> mt_run := x \<rparr>)" for x using assms(1) by (simp add: refines_def)
  show ?thesis
    using leave_inner_refines [OF same] same rec assms(2)
    by (auto simp: inner_turn_def refines_def Let_def split: prod.split event_poll.split sum.split)
qed

lemma thread_turn_refines: "refines p t \<Longrightarrow> refines p (thread_turn p path t)"
proof -
  assume t: "refines p t"
  have same: "refines p (t\<lparr> mt_run := x \<rparr>)" for x using t by (simp add: refines_def)
  show ?thesis
    using t same attach_turn_refines [OF same] leave_inner_refines [OF same] inner_turn_refines [OF same]
    by (cases "mt_phase t") (auto simp: thread_turn_def Let_def refines_def split: prod.split)
qed

lemma thread_turns_refines: "refines p t \<Longrightarrow> refines p (thread_turns p iface ctrl_dir n t)"
  unfolding thread_turns_def by (induction n) (auto intro: thread_turn_refines)

section \<open>Descriptors and socket files\<close>

text \<open>The calls of the thread other than those of the client leave descriptors and socket files alone.\<close>

definition thread_contract :: "('w \<Rightarrow> int set) \<Rightarrow> ('w \<Rightarrow> string set) \<Rightarrow> 'w MonitorPorts \<Rightarrow> bool" where
  "thread_contract fds socks p \<longleftrightarrow> socket_contract fds socks (mp_ctrl p) \<and> (\<forall>w.
     fds (snd (mp_running p w)) = fds w \<and> socks (snd (mp_running p w)) = socks w
     \<and> (\<forall>fd ms. fds (snd (mp_poll p fd ms w)) = fds w \<and> socks (snd (mp_poll p fd ms w)) = socks w)
     \<and> (\<forall>us. fds (mp_usleep p us w) = fds w \<and> socks (mp_usleep p us w) = socks w)
     \<and> (\<forall>f b. mp_handler p = Some f \<longrightarrow> fds (f b w) = fds w \<and> socks (f b w) = socks w))"

text \<open>Outside the inner loop the thread has nothing beyond what was there before it.\<close>

definition thread_owns :: "('w \<Rightarrow> int set) \<Rightarrow> ('w \<Rightarrow> string set) \<Rightarrow> int set \<Rightarrow> string set \<Rightarrow> 'w MonitorThread \<Rightarrow> bool" where
  "thread_owns fds socks F S t \<longleftrightarrow>
     (if mt_phase t = Inner_loop then owns fds socks F S (mt_run t)
      else fds (cr_world (mt_run t)) = F \<and> socks (cr_world (mt_run t)) \<subseteq> S)"

lemma ctrl_owns_world:
  "owns fds socks F S r \<Longrightarrow> fds w = fds (cr_world r) \<Longrightarrow> socks w = socks (cr_world r) \<Longrightarrow> owns fds socks F S (r\<lparr> cr_world := w \<rparr>)"
  by (simp add: owns_def)

lemma owns_new: "fds (cr_world r) = F \<Longrightarrow> socks (cr_world r) \<subseteq> S \<Longrightarrow> owns fds socks F S (r\<lparr> cr_client := new_ctrl_client path \<rparr>)"
  by (auto simp: owns_def new_ctrl_client_def)

lemma owns_nested:
  assumes "owns fds socks F S r" and "fds w = fds (cr_world r)" and "socks w \<subseteq> socks (cr_world r)"
  shows "owns fds socks F S (x\<lparr> cr_client := cr_client r, cr_world := w \<rparr>)"
  using assms by (auto simp: owns_def Let_def)

lemma request_status_owns:
  assumes c: "thread_contract fds socks p" and "owns fds socks F S r"
  shows "owns fds socks F S (snd (request_status p path r))"
proof -
  have sc: "socket_contract fds socks (mp_ctrl p)" using c by (simp add: thread_contract_def)
  obtain res r1 where q: "ctrl_request (mp_ctrl p) ''STATUS'' 2000 (r\<lparr> cr_client := new_ctrl_client path \<rparr>) = (res, r1)" by fastforce
  have "owns fds socks (fds (cr_world r)) (socks (cr_world r)) (r\<lparr> cr_client := new_ctrl_client path \<rparr>)" by (rule owns_new) simp_all
  from ctrl_close_releases [OF sc conjunct1 [OF ctrl_request_owns [OF sc this, of "''STATUS''" 2000]]]
  have k: "fds (cr_world (ctrl_close (mp_ctrl p) r1)) = fds (cr_world r)" "socks (cr_world (ctrl_close (mp_ctrl p) r1)) \<subseteq> socks (cr_world r)"
    unfolding q by simp_all
  show ?thesis
    using owns_nested [OF assms(2) k, of "ctrl_close (mp_ctrl p) r1"] by (simp add: request_status_def q)
qed

lemma fold_keeps:
  "(\<And>b w. fds (f b w) = fds w \<and> socks (f b w) = socks w) \<Longrightarrow> fds (fold f cs w) = fds w \<and> socks (fold f cs w) = socks w"
  by (induction cs arbitrary: w) simp_all

lemma call_handler_owns:
  assumes "thread_contract fds socks p" and "thread_owns fds socks F S t"
  shows "thread_owns fds socks F S (call_handler p cs t)"
proof (cases "mp_handler p")
  case None
  then show ?thesis using assms(2) by (simp add: call_handler_def)
next
  case (Some f)
  then have "fds (fold f cs w) = fds w \<and> socks (fold f cs w) = socks w" for w
    using assms(1) by (intro fold_keeps) (simp add: thread_contract_def)
  then show ?thesis using assms(2) Some by (auto simp: call_handler_def thread_owns_def intro: ctrl_owns_world)
qed

lemma leave_inner_owns:
  assumes c: "thread_contract fds socks p" and "owns fds socks F S (mt_run t)"
  shows "thread_owns fds socks F S (leave_inner p t)"
proof -
  have sc: "socket_contract fds socks (mp_ctrl p)" using c by (simp add: thread_contract_def)
  obtain go w where m: "mp_running p (cr_world (ctrl_close (mp_ctrl p) (mt_run t))) = (go, w)" by fastforce
  have "fds w = fds (cr_world (ctrl_close (mp_ctrl p) (mt_run t))) \<and> socks w = socks (cr_world (ctrl_close (mp_ctrl p) (mt_run t)))"
    using c m unfolding thread_contract_def by (metis snd_conv)
  then show ?thesis
    using ctrl_close_releases [OF sc assms(2)] c m by (simp add: leave_inner_def thread_owns_def Let_def thread_contract_def)
qed

lemma inner_turn_owns:
  assumes c: "thread_contract fds socks p" and "owns fds socks F S (mt_run t)" and "mt_phase t = Inner_loop"
  shows "thread_owns fds socks F S (inner_turn p t)"
proof -
  have sc: "socket_contract fds socks (mp_ctrl p)" using c by (simp add: thread_contract_def)
  obtain polled w where m: "mp_poll p (ct_fd (cr_client (mt_run t))) 1000 (cr_world (mt_run t)) = (polled, w)" by fastforce
  then have "fds w = fds (cr_world (mt_run t)) \<and> socks w = socks (cr_world (mt_run t))"
    using c unfolding thread_contract_def by (metis snd_conv)
  then have o1: "owns fds socks F S ((mt_run t)\<lparr> cr_world := w \<rparr>)" using assms(2) by (auto intro: ctrl_owns_world)
  obtain res r2 where q: "ctrl_receive (mp_ctrl p) ((mt_run t)\<lparr> cr_world := w \<rparr>) = (res, r2)" by fastforce
  have o2: "owns fds socks F S r2" using ctrl_receive_owns [OF sc o1] by (simp add: q)
  show ?thesis
  proof (cases polled)
    case Event_ready
    show ?thesis
    proof (cases res)
      case (Inl e)
      then show ?thesis using leave_inner_owns [OF c, of F S "t\<lparr> mt_run := r2 \<rparr>"] o2 Event_ready m q by (simp add: inner_turn_def Let_def)
    next
      case (Inr ev)
      then show ?thesis
        using call_handler_owns [OF c, of F S "t\<lparr> mt_fact := fst (receive_event ev (mt_fact t)), mt_run := r2 \<rparr>"] o2 Event_ready m q assms(3)
        by (simp add: inner_turn_def Let_def thread_owns_def split_beta)
    qed
  next
    case Event_none
    then show ?thesis using o1 assms(3) m by (simp add: inner_turn_def thread_owns_def)
  next
    case Event_error
    then show ?thesis using leave_inner_owns [OF c, of F S "t\<lparr> mt_run := (mt_run t)\<lparr> cr_world := w \<rparr> \<rparr>"] o1 m by (simp add: inner_turn_def Let_def)
  qed
qed

lemma attach_turn_owns:
  assumes c: "thread_contract fds socks p" and w: "fds (cr_world (mt_run t)) = F" "socks (cr_world (mt_run t)) \<subseteq> S" and ph: "mt_phase t = Outer_loop"
  shows "thread_owns fds socks F S (attach_turn p path t)"
proof -
  have sc: "socket_contract fds socks (mp_ctrl p)" using c by (simp add: thread_contract_def)
  obtain opened r1 where op: "ctrl_open (mp_ctrl p) ((mt_run t)\<lparr> cr_client := new_ctrl_client path \<rparr>) = (opened, r1)" by fastforce
  have o1: "owns fds socks F S r1" using ctrl_open_owns [OF sc owns_new, of "mt_run t" F S path] w by (simp add: op)
  obtain res r2 where at: "(case opened of Inl e \<Rightarrow> (Inl e, r1) | Inr _ \<Rightarrow> ctrl_attach (mp_ctrl p) r1) = (res, r2)" by fastforce
  have o2: "owns fds socks F S r2" using ctrl_attach_owns [OF sc o1] o1 at by (cases opened) auto
  show ?thesis
  proof (cases res)
    case (Inl e)
    have "owns fds socks F S (r2\<lparr> cr_world := mp_usleep p 1500000 (cr_world r2) \<rparr>)"
      using o2 c by (auto simp: thread_contract_def intro: ctrl_owns_world)
    from ctrl_close_releases [OF sc this] show ?thesis using ph Inl by (simp add: attach_turn_def op at thread_owns_def)
  next
    case (Inr u)
    obtain reply r3 where st: "request_status p path r2 = (reply, r3)" by fastforce
    have "owns fds socks F S r3" using request_status_owns [OF c o2, of path] by (simp add: st)
    then show ?thesis
      using call_handler_owns [OF c, of F S "t\<lparr> mt_phase := Inner_loop, mt_fact := fst (attach_status reply (mt_fact t)), mt_run := r3 \<rparr>"] Inr
      by (simp add: attach_turn_def op at st thread_owns_def split_beta)
  qed
qed

lemma thread_turn_owns:
  assumes c: "thread_contract fds socks p" and t: "thread_owns fds socks F S t"
  shows "thread_owns fds socks F S (thread_turn p path t)"
proof -
  obtain go w where m: "mp_running p (cr_world (mt_run t)) = (go, w)" by fastforce
  then have k: "fds w = fds (cr_world (mt_run t))" "socks w = socks (cr_world (mt_run t))"
    using c unfolding thread_contract_def by (metis snd_conv)+
  let ?t = "t\<lparr> mt_run := (mt_run t)\<lparr> cr_world := w \<rparr> \<rparr>"
  show ?thesis
  proof (cases "mt_phase t")
    case Outer_loop
    then show ?thesis using attach_turn_owns [OF c, of ?t F S path] t k m by (auto simp: thread_turn_def thread_owns_def Let_def)
  next
    case Inner_loop
    then have "owns fds socks F S (mt_run ?t)" using t k by (auto simp: thread_owns_def intro: ctrl_owns_world)
    with Inner_loop show ?thesis
      using leave_inner_owns [OF c, of F S ?t] inner_turn_owns [OF c, of F S ?t] m by (simp add: thread_turn_def Let_def)
  next
    case Thread_done
    then show ?thesis using t by (simp add: thread_turn_def)
  qed
qed

lemma thread_turns_owns:
  "thread_contract fds socks p \<Longrightarrow> thread_owns fds socks F S t \<Longrightarrow> thread_owns fds socks F S (thread_turns p iface ctrl_dir n t)"
  unfolding thread_turns_def by (induction n) (auto intro: thread_turn_owns)

section \<open>Starting and stopping\<close>

text \<open>The loop of \<open>join\<close>: the thread runs on until it is done.\<close>

partial_function (option) join_thread :: "'w MonitorPorts \<Rightarrow> string \<Rightarrow> 'w MonitorThread \<Rightarrow> 'w MonitorThread option" where
  "join_thread p path t = (if mt_phase t = Thread_done then Some t else join_thread p path (thread_turn p path t))"

text \<open>The monitor between calls: the flag, the thread while it is joinable, and the record that \<open>snapshot\<close> reads. The counter of local
  socket names belongs to the process.\<close>

record 'w WpaEventMonitor =
  mo_iface :: string
  mo_ctrl_dir :: string
  mo_running :: bool
  mo_thread :: "'w MonitorThread option"
  mo_snapshot :: WpaEventFact
  mo_calls :: "bool list"
  mo_sequence :: u64
  mo_world :: 'w

definition new_event_monitor :: "string \<Rightarrow> string \<Rightarrow> u64 \<Rightarrow> 'w \<Rightarrow> 'w WpaEventMonitor" where
  "new_event_monitor iface ctrl_dir n w = \<lparr> mo_iface = iface, mo_ctrl_dir = ctrl_dir, mo_running = False, mo_thread = None,
     mo_snapshot = WpaEventFact_default, mo_calls = [], mo_sequence = n, mo_world = w \<rparr>"

definition monitor_start :: "'w WpaEventMonitor \<Rightarrow> 'w WpaEventMonitor" where
  "monitor_start m =
     (if mo_running m then m
      else m\<lparr> mo_running := True, mo_thread := Some (thread_start (mo_snapshot m) (mo_calls m) (mo_sequence m) (mo_world m)) \<rparr>)"

definition seen_from :: "'w MonitorThread \<Rightarrow> 'w WpaEventMonitor \<Rightarrow> 'w WpaEventMonitor" where
  "seen_from t m = m\<lparr> mo_snapshot := mt_fact t, mo_calls := mt_calls t, mo_sequence := cr_sequence (mt_run t), mo_world := cr_world (mt_run t) \<rparr>"

text \<open>The thread takes some turns between two calls of the owner.\<close>

definition monitor_advance :: "'w MonitorPorts \<Rightarrow> nat \<Rightarrow> 'w WpaEventMonitor \<Rightarrow> 'w WpaEventMonitor" where
  "monitor_advance p n m = (case mo_thread m of
     None \<Rightarrow> m
   | Some t \<Rightarrow> (let t1 = thread_turns p (mo_iface m) (mo_ctrl_dir m) n t in (seen_from t1 m)\<lparr> mo_thread := Some t1 \<rparr>))"

text \<open>\<open>stop\<close>, also the destructor: after the exchange every read of the flag gives false.\<close>

definition monitor_stop :: "'w MonitorPorts \<Rightarrow> 'w WpaEventMonitor \<Rightarrow> 'w WpaEventMonitor option" where
  "monitor_stop p m =
     (if \<not> mo_running m then Some m
      else case mo_thread m of
        None \<Rightarrow> Some (m\<lparr> mo_running := False \<rparr>)
      | Some t \<Rightarrow> (case join_thread (p\<lparr> mp_running := (\<lambda>w. (False, w)) \<rparr>) (wpa_ctrl_path_for (mo_iface m) (mo_ctrl_dir m)) t of
            None \<Rightarrow> None
          | Some t1 \<Rightarrow> Some ((seen_from t1 m)\<lparr> mo_running := False, mo_thread := None \<rparr>)))"

datatype monitor_call = Mon_start | Mon_turns nat | Mon_stop

definition monitor_step :: "'w MonitorPorts \<Rightarrow> monitor_call \<Rightarrow> 'w WpaEventMonitor \<Rightarrow> 'w WpaEventMonitor option" where
  "monitor_step p c m = (case c of
     Mon_start \<Rightarrow> Some (monitor_start m) | Mon_turns n \<Rightarrow> Some (monitor_advance p n m) | Mon_stop \<Rightarrow> monitor_stop p m)"

definition monitor_calls :: "'w MonitorPorts \<Rightarrow> monitor_call list \<Rightarrow> 'w WpaEventMonitor \<Rightarrow> 'w WpaEventMonitor option" where
  "monitor_calls p = run_all (monitor_step p)"

lemma two_turns_done:
  assumes "\<And>w. \<not> fst (mp_running p w)"
  shows "mt_phase (thread_turn p path (thread_turn p path t)) = Thread_done"
proof -
  have l: "mt_phase (leave_inner p u) = Outer_loop" for u by (simp add: leave_inner_def Let_def split_beta)
  have "mt_phase (thread_turn p path u) = (if mt_phase u = Inner_loop then Outer_loop else Thread_done)" for u
    using assms l by (cases "mt_phase u") (simp_all add: thread_turn_def Let_def split_beta)
  then show ?thesis by simp
qed

lemma join_thread_returns:
  assumes "\<And>w. \<not> fst (mp_running p w)"
  shows "\<exists>n\<le>2. join_thread p path t = Some ((thread_turn p path ^^ n) t) \<and> mt_phase ((thread_turn p path ^^ n) t) = Thread_done"
proof -
  let ?u = "thread_turn p path t"
  have d: "mt_phase (thread_turn p path ?u) = Thread_done" by (rule two_turns_done [OF assms])
  consider "mt_phase t = Thread_done" | "mt_phase t \<noteq> Thread_done" "mt_phase ?u = Thread_done"
    | "mt_phase t \<noteq> Thread_done" "mt_phase ?u \<noteq> Thread_done" by blast
  then show ?thesis
  proof cases
    case 1
    then show ?thesis by (intro exI [of _ 0]) (simp add: join_thread.simps)
  next
    case 2
    then show ?thesis by (intro exI [of _ 1]) (simp add: join_thread.simps)
  next
    case 3
    have "join_thread p path t = Some (thread_turn p path ?u)"
      using 3 d by (simp add: join_thread.simps [of p path t] join_thread.simps [of p path ?u] join_thread.simps [of p path "thread_turn p path ?u"])
    then show ?thesis using d by (intro exI [of _ 2]) (simp add: numeral_2_eq_2)
  qed
qed

section \<open>The monitor under any sequence of calls\<close>

definition event_monitor_inv :: "('w \<Rightarrow> int set) \<Rightarrow> ('w \<Rightarrow> string set) \<Rightarrow> int set \<Rightarrow> string set \<Rightarrow> 'w MonitorPorts \<Rightarrow> 'w WpaEventMonitor \<Rightarrow> bool" where
  "event_monitor_inv fds socks F S p m \<longleftrightarrow> (\<exists>es cs. monitor_run es (mo_snapshot m) cs \<and> mo_calls m = heard p cs)
     \<and> (case mo_thread m of
          None \<Rightarrow> \<not> mo_running m \<and> \<not> we_attached (mo_snapshot m) \<and> fds (mo_world m) = F \<and> socks (mo_world m) \<subseteq> S
        | Some t \<Rightarrow> mo_running m \<and> refines p t \<and> thread_owns fds socks F S t \<and> mo_snapshot m = mt_fact t \<and> mo_calls m = mt_calls t)"

lemma refines_flag: "refines (p\<lparr> mp_running := f \<rparr>) t = refines p t"
  by (simp add: refines_def heard_def)

lemma contract_flag: "thread_contract fds socks p \<Longrightarrow> thread_contract fds socks (p\<lparr> mp_running := (\<lambda>w. (b, w)) \<rparr>)"
  by (simp add: thread_contract_def)

lemma monitor_start_inv: "event_monitor_inv fds socks F S p m \<Longrightarrow> event_monitor_inv fds socks F S p (monitor_start m)"
  by (cases "mo_thread m") (auto simp: event_monitor_inv_def monitor_start_def thread_start_def refines_def thread_owns_def)

lemma monitor_advance_inv:
  "thread_contract fds socks p \<Longrightarrow> event_monitor_inv fds socks F S p m \<Longrightarrow> event_monitor_inv fds socks F S p (monitor_advance p n m)"
  using thread_turns_refines [of p] thread_turns_owns [of fds socks p F S]
  by (auto simp: event_monitor_inv_def monitor_advance_def seen_from_def Let_def refines_def split: option.splits)

lemma monitor_stop_inv:
  assumes c: "thread_contract fds socks p" and m: "event_monitor_inv fds socks F S p m"
  shows "\<exists>m1. monitor_stop p m = Some m1 \<and> event_monitor_inv fds socks F S p m1 \<and> \<not> mo_running m1"
proof (cases "mo_thread m")
  case None
  then show ?thesis using m by (simp add: event_monitor_inv_def monitor_stop_def)
next
  case (Some t)
  let ?p = "p\<lparr> mp_running := (\<lambda>w. (False, w)) \<rparr>"
  obtain n where n: "join_thread ?p (wpa_ctrl_path_for (mo_iface m) (mo_ctrl_dir m)) t = Some (thread_turns ?p (mo_iface m) (mo_ctrl_dir m) n t)"
      "mt_phase (thread_turns ?p (mo_iface m) (mo_ctrl_dir m) n t) = Thread_done"
    using join_thread_returns [of ?p] by (fastforce simp: thread_turns_def)
  have "refines p (thread_turns ?p (mo_iface m) (mo_ctrl_dir m) n t)"
    using thread_turns_refines [of ?p t] m Some by (simp add: refines_flag event_monitor_inv_def)
  moreover have "thread_owns fds socks F S (thread_turns ?p (mo_iface m) (mo_ctrl_dir m) n t)"
    using thread_turns_owns [OF contract_flag [OF c]] m Some by (simp add: event_monitor_inv_def)
  ultimately show ?thesis
    using Some m n by (auto simp: monitor_stop_def seen_from_def event_monitor_inv_def refines_def thread_owns_def)
qed

lemma monitor_step_returns:
  assumes "thread_contract fds socks p \<and> event_monitor_inv fds socks F S p m"
  shows "\<exists>m1. monitor_step p c m = Some m1 \<and> thread_contract fds socks p \<and> event_monitor_inv fds socks F S p m1"
  using assms monitor_start_inv monitor_advance_inv monitor_stop_inv by (cases c) (fastforce simp: monitor_step_def)+

interpretation event_monitor: returning_machine "monitor_step p"
  "\<lambda>m. thread_contract fds socks p \<and> event_monitor_inv fds socks F S p m" for p fds socks F S
  by unfold_locales (rule monitor_step_returns)

lemma monitor_calls_inv:
  "thread_contract fds socks p \<Longrightarrow> event_monitor_inv fds socks F S p m \<Longrightarrow>
   \<exists>m1. monitor_calls p cs m = Some m1 \<and> event_monitor_inv fds socks F S p m1"
  unfolding monitor_calls_def using event_monitor.run_returns [of fds socks p F S m cs] by blast

text \<open>C29: In every sequence of starts, stops and turns of the monitoring thread, each call returns; what the monitor records and the calls
  of its handler are those of a run of the event relation, so that the facts are sound; and a monitor that is not running, as after every
  \<open>stop\<close>, has no thread, claims nothing about the link and has given back every descriptor and socket file.\<close>

theorem monitor_lifecycle:
  assumes "thread_contract fds socks p"
  shows "\<exists>m. monitor_calls p calls (new_event_monitor iface ctrl_dir n w) = Some m
    \<and> (\<exists>es cs. monitor_run es (mo_snapshot m) cs \<and> mo_calls m = heard p cs) \<and> monitor_inv (mo_snapshot m)
    \<and> (calls \<noteq> [] \<and> last calls = Mon_stop \<longrightarrow> \<not> mo_running m)
    \<and> (\<not> mo_running m \<longrightarrow> mo_thread m = None \<and> \<not> we_attached (mo_snapshot m) \<and> fds (mo_world m) = fds w \<and> socks (mo_world m) \<subseteq> socks w)"
proof -
  let ?m = "new_event_monitor iface ctrl_dir n w" and ?I = "event_monitor_inv fds socks (fds w) (socks w) p"
  have "\<exists>es cs. monitor_run es WpaEventFact_default cs \<and> [] = heard p cs"
    using mr_init by (intro exI [of _ "[]"]) (simp add: heard_def)
  moreover have "\<not> we_attached WpaEventFact_default" by (simp add: WpaEventFact_default_def)
  ultimately have init: "?I ?m" by (simp add: event_monitor_inv_def new_event_monitor_def)
  then obtain m where m: "monitor_calls p calls ?m = Some m" "?I m" using monitor_calls_inv [OF assms] by blast
  have "\<not> mo_running m" if l: "calls \<noteq> []" "last calls = Mon_stop"
  proof -
    obtain cs where "calls = cs @ [Mon_stop]" using l by (metis append_butlast_last_id)
    moreover obtain m0 where "monitor_calls p cs ?m = Some m0" "?I m0" using monitor_calls_inv [OF assms init] by blast
    moreover obtain m1 where "monitor_stop p m0 = Some m1" "\<not> mo_running m1"
      using monitor_stop_inv [OF assms calculation(3)] by blast
    ultimately show ?thesis using m(1) by (simp add: monitor_calls_def run_all_append monitor_step_def)
  qed
  moreover have r: "\<exists>es cs. monitor_run es (mo_snapshot m) cs \<and> mo_calls m = heard p cs"
    using m(2) by (simp add: event_monitor_inv_def)
  moreover have "monitor_inv (mo_snapshot m)" using r monitor_run_inv by blast
  moreover have "\<not> mo_running m \<longrightarrow> mo_thread m = None \<and> \<not> we_attached (mo_snapshot m) \<and> fds (mo_world m) = fds w \<and> socks (mo_world m) \<subseteq> socks w"
    using m(2) by (cases "mo_thread m") (simp_all add: event_monitor_inv_def)
  ultimately show ?thesis using m(1) by (intro exI [of _ m]) simp
qed

text \<open>A process with one descriptor to spare and a supplicant that answers everything with OK: the event socket attaches, the STATUS client
  finds no descriptor.\<close>

definition lone_ports :: "int set MonitorPorts" where
  "lone_ports = \<lparr> mp_ctrl = \<lparr> kp_pid = 7, kp_socket = (\<lambda>w. if 3 \<in> w then (Inl ''Too many open files'', w) else (Inr 3, insert 3 w)),
       kp_bind = (\<lambda>fd path w. (None, w)), kp_connect = (\<lambda>fd path w. (None, w)),
       kp_send = (\<lambda>fd d w. ((int (length d), []), w)), kp_poll = (\<lambda>fd ms w. (CP_ready, w)),
       kp_recv = (\<lambda>fd w. (Inr ''OK'', w)), kp_close = (\<lambda>fd w. w - {fd}), kp_unlink = (\<lambda>path w. w) \<rparr>,
     mp_running = (\<lambda>w. (True, w)), mp_poll = (\<lambda>fd ms w. (Event_ready, w)), mp_usleep = (\<lambda>us w. w), mp_handler = Some (\<lambda>b w. w) \<rparr>"

theorem monitor_lifecycle_witness:
  "\<exists>m. monitor_calls lone_ports [Mon_start, Mon_turns 5, Mon_stop] (new_event_monitor ''wlan0'' [] 0 {0, 1, 2}) = Some m
     \<and> \<not> mo_running m \<and> mo_world m = {0, 1, 2}"
proof -
  have c: "thread_contract (\<lambda>w. w) (\<lambda>_. {}) lone_ports"
    by (auto simp: thread_contract_def socket_contract_def lone_ports_def)
  show ?thesis
    using monitor_lifecycle [OF c, of "[Mon_start, Mon_turns 5, Mon_stop]" "''wlan0''" "[]" 0 "{0, 1, 2}"] by simp blast
qed

end
