(* ===== verification/Udhcpc.thy ===== *)
theory Udhcpc
  imports Lease_Store Configurator
begin

text \<open>
  The DHCP client process (\<^verbatim>\<open>src/platform/udhcpc_process.cpp\<close>): probing who owns the client of
  an interface, starting, stopping and cleaning up. Processes are seen through
  \<^verbatim>\<open>/proc/<pid>/cmdline\<close> in the host's files. \<open>system\<close>, \<open>kill\<close>, the clock and \<open>usleep\<close> (during which
  the rest of the machine runs) are parameters.
\<close>

section \<open>Identity of a client process\<close>

definition shell_quote :: "string \<Rightarrow> string" where
  "shell_quote value = [CHR 0x27] @
     concat (map (\<lambda>c. if c = CHR 0x27 then [CHR 0x27, CHR 0x5C, CHR 0x27, CHR 0x27] else [c]) value) @ [CHR 0x27]"

definition path_exists :: "string \<Rightarrow> Host \<Rightarrow> bool \<times> Host" where
  "path_exists path h = (if h_files h path = None then fail_errno ENOENT h else sys_status h)"

definition pidfile_for :: "string \<Rightarrow> string" where
  "pidfile_for iface = ''/tmp/smart_hmi_udhcpc_'' @ iface @ ''.pid''"

definition event_script_path :: "string \<Rightarrow> string \<Rightarrow> string" where
  "event_script_path iface generation = ''/tmp/network_service_udhcpc_'' @ iface @ ''_'' @ generation @ ''.script''"

definition read_pidfile :: "string \<Rightarrow> Host \<Rightarrow> int option \<times> Host" where
  "read_pidfile iface h = (case read_stream (pidfile_for iface) h of
     (None, h1) \<Rightarrow> (None, h1)
   | (Some data, h1) \<Rightarrow> (case strtol10 data of
       Some (pid, _) \<Rightarrow> (if pid > 1 \<and> pid < 2 ^ 31 then Some pid else None, h1)
     | None \<Rightarrow> (None, h1)))"

definition cmdline_path :: "int \<Rightarrow> string" where
  "cmdline_path pid = ''/proc/'' @ show_int pid @ ''/cmdline''"

definition cmdline_args :: "string \<Rightarrow> string list" where
  "cmdline_args cmdline = filter (\<lambda>a. a \<noteq> []) (split_char (CHR 0x00) cmdline)"

definition read_process_args :: "int \<Rightarrow> Host \<Rightarrow> string list option \<times> Host" where
  "read_process_args pid h =
     (if pid \<le> 1 then (None, h)
      else case read_stream (cmdline_path pid) h of
        (None, h1) \<Rightarrow> (None, h1)
      | (Some cmdline, h1) \<Rightarrow> (if cmdline_args cmdline = [] then None else Some (cmdline_args cmdline), h1))"

definition basename_is_udhcpc :: "string \<Rightarrow> bool" where
  "basename_is_udhcpc arg \<longleftrightarrow> last (split_char (CHR ''/'') arg) = ''udhcpc''"

definition has_arg :: "string list \<Rightarrow> string \<Rightarrow> bool" where
  "has_arg args wanted \<longleftrightarrow> wanted \<in> set args"

fun has_option_value :: "string list \<Rightarrow> string \<Rightarrow> string \<Rightarrow> bool" where
  "has_option_value (a # b # args) option value \<longleftrightarrow> (a = option \<and> b = value) \<or> has_option_value (b # args) option value"
| "has_option_value _ option value \<longleftrightarrow> False"

definition matches_udhcpc_iface :: "string list \<Rightarrow> string \<Rightarrow> bool" where
  "matches_udhcpc_iface args iface \<longleftrightarrow> list_ex basename_is_udhcpc args \<and> has_option_value args ''-i'' iface"

definition matches_owned_process :: "string list \<Rightarrow> string \<Rightarrow> string \<Rightarrow> bool" where
  "matches_owned_process args iface generation \<longleftrightarrow>
     matches_udhcpc_iface args iface \<and> generation \<noteq> [] \<and> has_arg args ''-f''
     \<and> has_option_value args ''-p'' (pidfile_for iface)
     \<and> has_option_value args ''-s'' (event_script_path iface generation)"

section \<open>Probe and clean-up\<close>

datatype UdhcpcOwnershipState = Probe_Absent | OwnedRunning | StaleArtifacts | ConflictingProcess

record UdhcpcProbeResult =
  pr_state :: UdhcpcOwnershipState
  pr_pid :: int
  pr_generation :: string
  pr_lease_exists :: bool

definition classify :: "string \<Rightarrow> string option \<Rightarrow> int option \<Rightarrow> bool \<Rightarrow> Host \<Rightarrow> UdhcpcOwnershipState \<times> Host" where
  "classify iface generation pid pidfile_exists h = (case pid of
     None \<Rightarrow> (if pidfile_exists \<or> generation \<noteq> None then StaleArtifacts else Probe_Absent, h)
   | Some p \<Rightarrow> (case read_process_args p h of
       (None, h1) \<Rightarrow> (StaleArtifacts, h1)
     | (Some args, h1) \<Rightarrow>
         if \<not> matches_udhcpc_iface args iface then (StaleArtifacts, h1)
         else (case generation of
           None \<Rightarrow> (ConflictingProcess, h1)
         | Some g \<Rightarrow>
             if \<not> matches_owned_process args iface g then (ConflictingProcess, h1)
             else case path_exists (event_script_path iface g) h1 of (there, h2) \<Rightarrow>
               (if there then OwnedRunning else ConflictingProcess, h2))))"

definition probe :: "string \<Rightarrow> Host \<Rightarrow> (string + UdhcpcProbeResult) \<times> Host" where
  "probe iface h =
     (if \<not> is_safe_iface iface then (Inl ''invalid DHCP iface'', h)
      else case active_generation iface h of
        (Inl e, h1) \<Rightarrow> (Inl e, h1)
      | (Inr generation, h1) \<Rightarrow>
          (case (case generation of None \<Rightarrow> (False, h1) | Some g \<Rightarrow> path_exists (path_for iface g) h1) of (lease, h2) \<Rightarrow>
           case path_exists (pidfile_for iface) h2 of (pidfile, h3) \<Rightarrow>
           case read_pidfile iface h3 of (pid, h4) \<Rightarrow>
           case classify iface generation pid pidfile h4 of (state, h5) \<Rightarrow>
             (Inr \<lparr> pr_state = state, pr_pid = (case pid of None \<Rightarrow> -1 | Some p \<Rightarrow> p),
                    pr_generation = (case generation of None \<Rightarrow> [] | Some g \<Rightarrow> g), pr_lease_exists = lease \<rparr>, h5)))"

definition is_running :: "string \<Rightarrow> Host \<Rightarrow> bool \<times> Host" where
  "is_running iface h = (case probe iface h of
     (Inl _, h1) \<Rightarrow> (False, h1) | (Inr r, h1) \<Rightarrow> (pr_state r = OwnedRunning, h1))"

definition cleanup_stale :: "string \<Rightarrow> Host \<Rightarrow> Host" where
  "cleanup_stale iface h =
     (if \<not> is_safe_iface iface then h
      else case active_generation iface h of (res, h1) \<Rightarrow>
        let h2 = sys_unlink (pidfile_for iface) h1;
            h3 = (case res of Inr (Some g) \<Rightarrow> sys_unlink (event_script_path iface g) h2 | _ \<Rightarrow> h2) in
        lease_clear iface h3)"

section \<open>Stop and start\<close>

datatype signal = SIGTERM | SIGKILL

record UdhcpcPorts =
  up_system :: shell
  up_kill :: "int \<Rightarrow> signal \<Rightarrow> Host \<Rightarrow> Host"
  up_usleep :: "Host \<Rightarrow> Host"
  up_ticks :: "Host \<Rightarrow> nat \<times> Host"

text \<open>\<open>read_process_args (..) && matches_owned_process (..)\<close>\<close>

definition still_owned :: "string \<Rightarrow> string \<Rightarrow> int \<Rightarrow> Host \<Rightarrow> bool \<times> Host" where
  "still_owned iface generation pid h = (case read_process_args pid h of
     (None, h1) \<Rightarrow> (False, h1) | (Some args, h1) \<Rightarrow> (matches_owned_process args iface generation, h1))"

fun wait_gone :: "nat \<Rightarrow> UdhcpcPorts \<Rightarrow> string \<Rightarrow> string \<Rightarrow> int \<Rightarrow> Host \<Rightarrow> Host" where
  "wait_gone 0 ports iface generation pid h = h"
| "wait_gone (Suc n) ports iface generation pid h = (case still_owned iface generation pid h of (owned, h1) \<Rightarrow>
     if \<not> owned then h1 else wait_gone n ports iface generation pid (up_usleep ports h1))"

definition terminate_client :: "UdhcpcPorts \<Rightarrow> string \<Rightarrow> string \<Rightarrow> int \<Rightarrow> Host \<Rightarrow> Host" where
  "terminate_client ports iface generation pid h =
     (let h1 = wait_gone 20 ports iface generation pid (up_kill ports pid SIGTERM h) in
      case still_owned iface generation pid h1 of (owned, h2) \<Rightarrow>
        if owned then up_kill ports pid SIGKILL h2 else h2)"

definition udhcpc_stop :: "UdhcpcPorts \<Rightarrow> string \<Rightarrow> Host \<Rightarrow> Host" where
  "udhcpc_stop ports iface h =
     (if \<not> is_safe_iface iface then h
      else case probe iface h of
        (Inl _, h1) \<Rightarrow> h1
      | (Inr r, h1) \<Rightarrow>
          if pr_state r = ConflictingProcess then h1
          else cleanup_stale iface (if pr_state r = OwnedRunning
            then terminate_client ports iface (pr_generation r) (pr_pid r) h1 else h1))"

text \<open>The counter is the function's static \<open>sequence\<close>.\<close>

definition next_generation :: "UdhcpcPorts \<Rightarrow> u64 \<times> Host \<Rightarrow> string \<times> u64 \<times> Host" where
  "next_generation ports s = (case s of (seq, h) \<Rightarrow> (case up_ticks ports h of (ticks, h1) \<Rightarrow>
     (show_nat (h_pid h1) @ ''_'' @ show_u64 (of_nat ticks) @ ''_'' @ show_u64 seq, seq + 1, h1)))"

definition script_lines :: "string \<Rightarrow> string \<Rightarrow> string \<Rightarrow> string list" where
  "script_lines active lease generation =
     (let q = [CHR 0x27]; d = [CHR 0x22]; bs = [CHR 0x5C] in
      [''#!/bin/sh'', ''active='' @ q @ active @ q, ''lease='' @ q @ lease @ q, ''generation='' @ q @ generation @ q,
       ''tmp='' @ d @ ''${lease}.$$'' @ d,
       ''is_current() {'',
       ''  [ -r '' @ d @ ''$active'' @ d @ '' ] || return 1'',
       ''  IFS= read -r current < '' @ d @ ''$active'' @ d @ '' || return 1'',
       ''  [ '' @ d @ ''$current'' @ d @ '' = '' @ d @ ''$generation'' @ d @ '' ]'',
       ''}'',
       ''write_fact() {'', ''  is_current || exit 0'', ''  {'',
       ''    printf '' @ q @ ''generation=%s'' @ bs @ ''n'' @ q @ '' '' @ d @ ''$generation'' @ d,
       ''    printf '' @ q @ ''event=%s'' @ bs @ ''n'' @ q @ '' '' @ d @ ''$1'' @ d,
       ''    printf '' @ q @ ''ip=%s'' @ bs @ ''n'' @ q @ '' '' @ d @ ''${ip:-}'' @ d,
       ''    printf '' @ q @ ''subnet=%s'' @ bs @ ''n'' @ q @ '' '' @ d @ ''${subnet:-}'' @ d,
       ''    printf '' @ q @ ''router=%s'' @ bs @ ''n'' @ q @ '' '' @ d @ ''${router:-}'' @ d,
       ''    printf '' @ q @ ''dns=%s'' @ bs @ ''n'' @ q @ '' '' @ d @ ''${dns:-}'' @ d,
       ''  } > '' @ d @ ''$tmp'' @ d @ '' || exit 1'',
       ''  is_current || { rm -f '' @ d @ ''$tmp'' @ d @ ''; exit 0; }'',
       ''  mv -f '' @ d @ ''$tmp'' @ d @ '' '' @ d @ ''$lease'' @ d @ '' || exit 1'',
       ''  is_current || rm -f '' @ d @ ''$lease'' @ d,
       ''}'',
       ''case '' @ d @ ''$1'' @ d @ '' in'', ''  deconfig) write_fact deconfig ;;'',
       ''  bound|renew) write_fact '' @ d @ ''$1'' @ d @ '' ;;'', ''esac'', ''exit 0''])"

definition ensure_event_script :: "string \<Rightarrow> string \<Rightarrow> Host \<Rightarrow> (string + unit) \<times> Host" where
  "ensure_event_script iface generation h =
     (let path = event_script_path iface generation;
          tmp = path @ ''.'' @ show_nat (h_pid h) @ ''.tmp'';
          script = unlines (script_lines (generation_path_for iface) (path_for iface generation) generation) in
      case write_stream tmp script h of
        (None, h1) \<Rightarrow> (Inl ''failed to write udhcpc lease-event script'', h1)
      | (Some good, h1) \<Rightarrow>
          if \<not> good then (Inl ''failed to flush udhcpc lease-event script'', sys_unlink tmp h1)
          else (case sys_status h1 of (chmoded, h2) \<Rightarrow>
            case (if chmoded then sys_rename tmp path h2 else (False, h2)) of (ok, h3) \<Rightarrow>
              if \<not> ok then (Inl ''failed to publish udhcpc lease-event script'', sys_unlink tmp h3) else (Inr (), h3)))"

fun wait_running :: "nat \<Rightarrow> UdhcpcPorts \<Rightarrow> string \<Rightarrow> Host \<Rightarrow> bool \<times> Host" where
  "wait_running 0 ports iface h = (False, h)"
| "wait_running (Suc n) ports iface h = (case is_running iface h of (running, h1) \<Rightarrow>
     if running then (True, h1) else wait_running n ports iface (up_usleep ports h1))"

definition launch_client :: "UdhcpcPorts \<Rightarrow> string \<Rightarrow> string \<Rightarrow> Host \<Rightarrow> (string + unit) \<times> Host" where
  "launch_client ports iface generation h =
     (let script_path = event_script_path iface generation in
      case run_command (up_system ports) (''udhcpc -f -i '' @ iface @ '' -t 15 -n -p '' @ shell_quote (pidfile_for iface) @
             '' -s '' @ shell_quote script_path @ '' &'') h of
        (Inl e, h1) \<Rightarrow> (Inl e, lease_clear iface (sys_unlink script_path h1))
      | (Inr _, h1) \<Rightarrow> (case wait_running 20 ports iface h1 of (running, h2) \<Rightarrow>
          if running then (Inr (), h2)
          else (Inl ''udhcpc did not remain running'', udhcpc_stop ports iface h2)))"

definition udhcpc_start :: "UdhcpcPorts \<Rightarrow> string \<Rightarrow> u64 \<times> Host \<Rightarrow> (string + unit) \<times> u64 \<times> Host" where
  "udhcpc_start ports iface s = (case s of (seq, h) \<Rightarrow>
     if \<not> is_safe_iface iface then (Inl ''invalid DHCP iface'', seq, h)
     else case probe iface h of
       (Inl e, h1) \<Rightarrow> (Inl e, seq, h1)
     | (Inr existing, h1) \<Rightarrow>
         if pr_state existing = ConflictingProcess
         then (Inl ''conflicting DHCP process prevents NetworkService ownership'', seq, h1)
         else let h2 = (case pr_state existing of OwnedRunning \<Rightarrow> udhcpc_stop ports iface h1
                        | StaleArtifacts \<Rightarrow> cleanup_stale iface h1 | _ \<Rightarrow> h1) in
           case next_generation ports (seq, h2) of (generation, seq1, h3) \<Rightarrow>
           case activate_generation iface generation h3 of
             (Inl e, h4) \<Rightarrow> (Inl e, seq1, h4)
           | (Inr _, h4) \<Rightarrow> (case ensure_event_script iface generation h4 of
               (Inl e, h5) \<Rightarrow> (Inl e, seq1, lease_clear iface h5)
             | (Inr _, h5) \<Rightarrow> (case launch_client ports iface generation h5 of (res, h6) \<Rightarrow> (res, seq1, h6))))"

section \<open>Who is signalled\<close>

definition owned_process :: "Host \<Rightarrow> string \<Rightarrow> int \<Rightarrow> bool" where
  "owned_process h iface pid \<longleftrightarrow> pid > 1 \<and> (\<exists>c g. h_files h (cmdline_path pid) = Some c
     \<and> matches_owned_process (cmdline_args c) iface g)"

lemma path_exists_files: "path_exists p h = (b, h1) \<Longrightarrow> h_files h1 = h_files h"
  by (auto simp: path_exists_def fail_errno_def split: if_splits dest: sys_status_filesD)

lemma read_process_args_Some:
  "read_process_args pid h = (Some args, h1) \<Longrightarrow>
     pid > 1 \<and> h_files h1 = h_files h \<and> (\<exists>c. h_files h (cmdline_path pid) = Some c \<and> args = cmdline_args c)"
  by (auto simp: read_process_args_def split: if_splits prod.splits option.splits dest: read_stream_files read_stream_Some)

lemma read_process_args_files: "read_process_args pid h = (x, h1) \<Longrightarrow> h_files h1 = h_files h"
  by (auto simp: read_process_args_def split: if_splits prod.splits option.splits dest: read_stream_files)

lemma classify_files: "classify iface g pid b h = (st, h1) \<Longrightarrow> h_files h1 = h_files h"
  by (auto simp: classify_def split: if_splits prod.splits option.splits dest!: read_process_args_files path_exists_files)

lemma classify_owned:
  assumes "classify iface g pid b h = (OwnedRunning, h1)"
  obtains p where "pid = Some p" and "owned_process h1 iface p"
proof -
  obtain p args h2 where "pid = Some p" and a: "read_process_args p h = (Some args, h2)"
    and "\<exists>g'. matches_owned_process args iface g'"
    using assms by (auto simp: classify_def split: option.splits prod.splits if_splits)
  moreover have "owned_process h1 iface p"
    using read_process_args_Some [OF a] classify_files [OF assms] \<open>\<exists>g'. _\<close> by (auto simp: owned_process_def)
  ultimately show thesis using that by blast
qed

lemma read_pidfile_files: "read_pidfile iface h = (x, h1) \<Longrightarrow> h_files h1 = h_files h"
  by (auto simp: read_pidfile_def split: prod.splits option.splits if_splits dest: read_stream_files)

lemma probe_Inr:
  assumes "probe iface h = (Inr r, h1)"
  obtains g pid b h2 where "h_files h2 = h_files h" and "classify iface g pid b h2 = (pr_state r, h1)"
    and "pr_pid r = (case pid of None \<Rightarrow> -1 | Some p \<Rightarrow> p)"
proof -
  obtain g k1 where a: "active_generation iface h = (Inr g, k1)"
    using assms by (auto simp: probe_def split: if_splits prod.splits sum.splits)
  obtain l k2 where l: "(case g of None \<Rightarrow> (False, k1) | Some g \<Rightarrow> path_exists (path_for iface g) k1) = (l, k2)"
    by (cases "case g of None \<Rightarrow> (False, k1) | Some g \<Rightarrow> path_exists (path_for iface g) k1")
  obtain b k3 where b: "path_exists (pidfile_for iface) k2 = (b, k3)" by (cases "path_exists (pidfile_for iface) k2")
  obtain pid k4 where p: "read_pidfile iface k3 = (pid, k4)" by (cases "read_pidfile iface k3")
  obtain st k5 where c: "classify iface g pid b k4 = (st, k5)" by (cases "classify iface g pid b k4")
  have "h_files k4 = h_files h"
    using active_generation_files [OF a] l path_exists_files [OF b] read_pidfile_files [OF p]
    by (auto split: option.splits dest: path_exists_files)
  moreover have "st = pr_state r" "k5 = h1" "pr_pid r = (case pid of None \<Rightarrow> -1 | Some p \<Rightarrow> p)"
    using assms by (auto simp: probe_def a l b p c split: if_splits)
  ultimately show thesis using that c by blast
qed

lemma probe_files: "probe iface h = (Inr r, h1) \<Longrightarrow> h_files h1 = h_files h"
  by (elim probe_Inr) (auto dest: classify_files)

lemma probe_owned:
  assumes "probe iface h = (Inr r, h1)" and "pr_state r = OwnedRunning"
  shows "owned_process h1 iface (pr_pid r)"
proof (rule probe_Inr [OF assms(1)])
  fix g pid b h2
  assume c: "classify iface g pid b h2 = (pr_state r, h1)" and p: "pr_pid r = (case pid of None \<Rightarrow> -1 | Some p \<Rightarrow> p)"
  from c have "classify iface g pid b h2 = (OwnedRunning, h1)" by (simp add: assms(2))
  then obtain q where "pid = Some q" "owned_process h1 iface q" by (rule classify_owned)
  then show ?thesis using p by simp
qed

lemma still_owned_True: "still_owned iface g pid h = (True, h1) \<Longrightarrow> owned_process h1 iface pid"
  by (auto simp: still_owned_def owned_process_def split: prod.splits option.splits dest!: read_process_args_Some)

lemma wait_gone_kill: "wait_gone n (ports\<lparr> up_kill := k \<rparr>) iface g pid h = wait_gone n ports iface g pid h"
  by (induction n arbitrary: h) (auto split: prod.splits)

lemma wait_running_kill: "wait_running n (ports\<lparr> up_kill := k \<rparr>) iface h = wait_running n ports iface h"
  by (induction n arbitrary: h) (auto split: prod.splits)

definition kills_agree :: "string \<Rightarrow> UdhcpcPorts \<Rightarrow> (int \<Rightarrow> signal \<Rightarrow> Host \<Rightarrow> Host) \<Rightarrow> bool" where
  "kills_agree iface ports k \<longleftrightarrow> (\<forall>pid sig h. owned_process h iface pid \<longrightarrow> k pid sig h = up_kill ports pid sig h)"

lemma terminate_client_kill:
  assumes "kills_agree iface ports k" and "owned_process h iface pid"
  shows "terminate_client (ports\<lparr> up_kill := k \<rparr>) iface g pid h = terminate_client ports iface g pid h"
proof -
  have "k pid SIGTERM h = up_kill ports pid SIGTERM h" using assms by (simp add: kills_agree_def)
  moreover have "still_owned iface g pid h1 = (True, h2) \<Longrightarrow> k pid SIGKILL h2 = up_kill ports pid SIGKILL h2" for h1 h2
    using still_owned_True [of iface g pid h1 h2] assms(1) by (simp add: kills_agree_def)
  ultimately show ?thesis
    by (simp add: terminate_client_def wait_gone_kill Let_def split: prod.splits)
qed

lemma stop_kill:
  assumes "kills_agree iface ports k"
  shows "udhcpc_stop (ports\<lparr> up_kill := k \<rparr>) iface h = udhcpc_stop ports iface h"
  using terminate_client_kill [OF assms] probe_owned [of iface h]
  by (auto simp: udhcpc_stop_def split: prod.splits sum.splits)

lemma start_kill:
  assumes "kills_agree iface ports k"
  shows "udhcpc_start (ports\<lparr> up_kill := k \<rparr>) iface s = udhcpc_start ports iface s"
proof -
  have n: "next_generation (ports\<lparr> up_kill := k \<rparr>) x = next_generation ports x" for x
    by (simp add: next_generation_def)
  have l: "launch_client (ports\<lparr> up_kill := k \<rparr>) iface g h = launch_client ports iface g h" for g h
    unfolding launch_client_def wait_running_kill stop_kill [OF assms] by simp
  show ?thesis unfolding udhcpc_start_def stop_kill [OF assms] n l by simp
qed

section \<open>Properties\<close>


definition foreign_host :: Host where
  "foreign_host = \<lparr> h_files = [''/tmp/smart_hmi_udhcpc_eth0.pid'' \<mapsto> ''42'' @ [newline],
       ''/proc/42/cmdline'' \<mapsto> ''udhcpc'' @ [CHR 0x00] @ ''-i'' @ [CHR 0x00] @ ''eth0'' @ [CHR 0x00]],
     h_script = [], h_errno = 0, h_pid = 7 \<rparr>"


end
