(* ===== verification/Daemon.thy ===== *)
theory Daemon
  imports Control_Ledger Udhcpc Snapshot Wifi_Backend Wpa_Monitor Wifi_Manager
begin

text \<open>
  The daemon (\<^verbatim>\<open>src/service/network_daemon.cpp\<close>, \<^verbatim>\<open>network_daemon_events.cpp\<close>): projections, the
  Ethernet transaction over configuration file and control plane, the operations behind the IPC
  methods and the wiring of the platform functions into the control plane. The pointers the
  constructor always sets are not optional here, so the "unavailable" answers for null members
  do not occur; log output is left out. The world of the control plane is a \<open>Machine\<close>: the host
  and the two process-wide counters.
\<close>

section \<open>Projections\<close>

definition make_wifi_runtime_fact :: "WpaEventFact \<Rightarrow> WifiManagerState \<Rightarrow> WifiRuntimeFact" where
  "make_wifi_runtime_fact events manager = \<lparr> wr_l2_state = we_l2_state events, wr_dhcp_state = wm_dhcp_state manager,
     wr_failure_reason = (if wm_failure_reason manager \<noteq> [] then wm_failure_reason manager else we_failure_reason events) \<rparr>"

definition project_wpa_compatibility :: "WpaEventFact \<Rightarrow> NetworkSnapshot \<Rightarrow> WifiManagerState \<Rightarrow> WpaEventsView" where
  "project_wpa_compatibility events truth manager =
     (let runtime = make_wifi_runtime_fact events manager in
      \<lparr> ev_attached = we_attached events, ev_connected = if_connected (ns_wifi truth),
        ev_disconnected = (wr_l2_state runtime = L2_Disconnected), ev_dhcp_requested = dhcp_client_active (wm_dhcp_state manager),
        ev_has_ip = if_has_ip (ns_wifi truth), ev_has_default_route = if_has_default_route (ns_wifi truth),
        ev_dns_available = ns_dns_available truth, ev_ip4 = if_ip4 (ns_wifi truth), ev_gateway4 = if_gateway4 (ns_wifi truth),
        ev_dns4 = ns_dns4 truth, ev_connect_events = we_connect_events events, ev_disconnect_events = we_disconnect_events events,
        ev_dhcp_requests = wm_dhcp_requests manager, ev_scan_started_events = we_scan_started_events events,
        ev_scan_result_events = we_scan_result_events events, ev_scan_failed_events = we_scan_failed_events events,
        ev_event_sequence = we_event_sequence events, ev_last_scan_started_sequence = we_last_scan_started_sequence events,
        ev_last_scan_result_sequence = we_last_scan_result_sequence events,
        ev_last_scan_failed_sequence = we_last_scan_failed_sequence events,
        ev_wifi_state = legacy_wifi_state truth runtime, ev_failure_reason = wr_failure_reason runtime,
        ev_last_event = we_last_event events, ev_last_ssid = we_last_ssid events, ev_last_bssid = we_last_bssid events \<rparr>)"

definition command_result :: "string \<Rightarrow> WifiCommandResult" where
  "command_result requested = \<lparr> wc_requested = requested, wc_has_enabled = False, wc_enabled = False \<rparr>"

definition daemon_snapshot :: "NetworkSnapshot \<Rightarrow> WpaEventFact \<Rightarrow> WifiManagerState \<Rightarrow> NetworkControlPlane \<Rightarrow> NetworkSnapshot" where
  "daemon_snapshot live events manager cp =
     (normalize_network_snapshot (make_wifi_runtime_fact events manager) live)\<lparr> ns_route_policy := cp_route_policy cp \<rparr>"

section \<open>Wiring\<close>

record Machine =
  mc_host :: Host
  mc_stage_sequence :: u64
  mc_generation_sequence :: u64

definition on_host :: "(Host \<Rightarrow> (string + unit) \<times> Host) \<Rightarrow> Machine err_act" where
  "on_host f s = (case f (mc_host (snd s)) of
     (Inl e, h) \<Rightarrow> (False, e, (snd s)\<lparr> mc_host := h \<rparr>)
   | (Inr _, h) \<Rightarrow> (True, [], (snd s)\<lparr> mc_host := h \<rparr>))"

definition start_port :: "UdhcpcPorts \<Rightarrow> string \<Rightarrow> Machine err_act" where
  "start_port ports iface s = (case udhcpc_start ports iface (mc_generation_sequence (snd s), mc_host (snd s)) of (res, seq, h) \<Rightarrow>
     let w = (snd s)\<lparr> mc_generation_sequence := seq, mc_host := h \<rparr> in
     (case res of Inl e \<Rightarrow> (False, e, w) | Inr _ \<Rightarrow> (True, [], w)))"

definition lease_port :: "string \<Rightarrow> string \<times> Machine \<Rightarrow> (bool \<times> DhcpLeaseFact option) \<times> string \<times> Machine" where
  "lease_port iface s = (case lease_read iface (mc_host (snd s)) of (res, h) \<Rightarrow>
     let w = (snd s)\<lparr> mc_host := h \<rparr> in
     (case res of Inl e \<Rightarrow> ((False, None), e, w) | Inr found \<Rightarrow> ((True, found), [], w)))"

definition daemon_ops ::
  "UdhcpcPorts \<Rightarrow> (Host \<Rightarrow> IfAddr list option \<times> Host) \<Rightarrow> string \<Rightarrow> string \<Rightarrow> Machine NetworkControlPlaneOps" where
  "daemon_ops ports getifaddrs eth_iface wifi_iface = \<lparr>
     op_start_dhcp = Some (start_port ports),
     op_stop_dhcp = Some (\<lambda>i w. w\<lparr> mc_host := udhcpc_stop ports i (mc_host w) \<rparr>),
     op_read_lease = Some lease_port,
     op_clear_lease = Some (\<lambda>i w. w\<lparr> mc_host := lease_clear i (mc_host w) \<rparr>),
     op_apply_ipv4 = Some (\<lambda>i a n. on_host (apply_ipv4 (up_system ports) i a n)),
     op_clear_ipv4 = Some (\<lambda>i. on_host (clear_ipv4 (up_system ports) i)),
     op_set_default_route = Some (\<lambda>i g m. on_host (set_default_route (up_system ports) i g m)),
     op_clear_default_route = Some (\<lambda>i g m. on_host (clear_default_route (up_system ports) i g m)),
     op_set_dns = Some (\<lambda>d. on_host (set_primary_dns d)),
     op_clear_dns = Some (on_host clear_dns),
     op_snapshot = Some (\<lambda>w. case read_live_snapshot getifaddrs (Some eth_iface) (Some wifi_iface) (mc_host w) of
        (s, h) \<Rightarrow> (s, w\<lparr> mc_host := h \<rparr>)) \<rparr>"

text \<open>Brownfield adoption; the boolean says whether the Wi-Fi manager is told.\<close>

definition adopt_existing_dhcp :: "Machine NetworkControlPlaneOps \<Rightarrow> string \<Rightarrow> Machine Run \<Rightarrow> bool \<times> Machine Run" where
  "adopt_existing_dhcp ops iface r =
     (case probe iface (mc_host (world r)) of
        (Inl _, h) \<Rightarrow> (False, r\<lparr> world := (world r)\<lparr> mc_host := h \<rparr> \<rparr>)
      | (Inr pr, h) \<Rightarrow>
          (let r1 = r\<lparr> world := (world r)\<lparr> mc_host := h \<rparr> \<rparr> in
           case pr_state pr of
             OwnedRunning \<Rightarrow> adopt_dhcp ops iface r1
           | StaleArtifacts \<Rightarrow> (False, r1\<lparr> world := (world r1)\<lparr> mc_host := cleanup_stale iface h \<rparr> \<rparr>)
           | _ \<Rightarrow> (False, r1)))"

section \<open>The Ethernet transaction\<close>

definition apply_ethernet_runtime :: "Machine NetworkControlPlaneOps \<Rightarrow> string \<Rightarrow> EthernetConfig \<Rightarrow> Machine Run act" where
  "apply_ethernet_runtime ops iface config r =
     (if ec_method config = ''static'' then
        apply_ethernet_static ops (ec_ip4 config) (ec_netmask4 config) (ec_gateway4 config)
          (if ec_dns_enabled config then ec_dns4 config else []) (ec_route_metric config) (clear_err r)
      else start_dhcp ops iface (clear_err r))"

definition failure_with_rollback :: "string \<Rightarrow> string \<Rightarrow> string" where
  "failure_with_rollback failure rollback_error =
     (if rollback_error = [] then failure else failure @ ''; rollback_failed: '' @ rollback_error)"

definition put_host :: "Host \<Rightarrow> Machine Run \<Rightarrow> Machine Run" where
  "put_host h r = r\<lparr> world := (world r)\<lparr> mc_host := h \<rparr> \<rparr>"

definition put_stage :: "StageRun \<Rightarrow> Machine Run \<Rightarrow> Machine Run" where
  "put_stage s r = r\<lparr> world := (world r)\<lparr> mc_host := sr_host s, mc_stage_sequence := sr_sequence s \<rparr> \<rparr>"

definition take_stage :: "StageRun \<Rightarrow> Machine Run \<Rightarrow> StageRun" where
  "take_stage s r = s\<lparr> sr_host := mc_host (world r), sr_sequence := mc_stage_sequence (world r) \<rparr>"

text \<open>Discard the stage, bring the previous configuration back and report the failure.\<close>

definition roll_back :: "Machine NetworkControlPlaneOps \<Rightarrow> string \<Rightarrow> EthernetConfig \<Rightarrow> string \<Rightarrow> StageRun \<Rightarrow> Machine Run \<Rightarrow>
    EthernetConfig NetworkOperationResult \<times> Machine Run" where
  "roll_back ops iface previous failure stage r =
     (let r1 = put_stage (discard_ethernet_config (take_stage stage r)) r;
          r2 = snd (apply_ethernet_runtime ops iface previous r1) in
      (op_failure EthernetConfig_default 500 (failure_with_rollback failure (err r2)), r2))"

definition or_text :: "string \<Rightarrow> string \<Rightarrow> string" where
  "or_text e dflt = (if e = [] then dflt else e)"

definition apply_ethernet_transaction :: "(nat \<Rightarrow> string) \<Rightarrow> Machine NetworkControlPlaneOps \<Rightarrow> string \<Rightarrow> string \<Rightarrow>
    EthernetConfig \<Rightarrow> Machine Run \<Rightarrow> EthernetConfig NetworkOperationResult \<times> Machine Run" where
  "apply_ethernet_transaction strerror ops config_dir iface desired r0 =
     (case load_ethernet_config config_dir iface (mc_host (world r0)) of (previous, h) \<Rightarrow>
      let r = put_host h r0 in
      case stage_ethernet_config strerror config_dir desired
             \<lparr> sr_stage = EthernetConfigStage_default, sr_error = [], sr_sequence = mc_stage_sequence (world r), sr_host = h \<rparr> of
        (staged, s1) \<Rightarrow>
      let r1 = put_stage s1 r in
      if \<not> staged then (op_failure EthernetConfig_default 500 (''failed to stage ethernet config: '' @ sr_error s1), r1)
      else case apply_ethernet_runtime ops iface desired r1 of (applied, r2) \<Rightarrow>
        if \<not> applied then roll_back ops iface previous (or_text (err r2) ''failed to apply ethernet runtime config'') s1 r2
        else case commit_ethernet_config strerror (take_stage s1 r2) of (result, s2) \<Rightarrow>
          let r3 = put_stage s2 r2 in
          if result = Commit_Failed
          then roll_back ops iface previous (or_text (sr_error s2) ''failed to commit ethernet config'') s2 r3
          else (op_success desired 200, r3))"

definition eth_get_config :: "string \<Rightarrow> string \<Rightarrow> Machine Run \<Rightarrow> EthernetConfig NetworkOperationResult \<times> Machine Run" where
  "eth_get_config config_dir eth_iface r = (case load_ethernet_config config_dir eth_iface (mc_host (world r)) of (c, h) \<Rightarrow>
     (op_success c 200, put_host h r))"

definition eth_set_dhcp :: "(nat \<Rightarrow> string) \<Rightarrow> Machine NetworkControlPlaneOps \<Rightarrow> string \<Rightarrow> string \<Rightarrow> Machine Run \<Rightarrow>
    EthernetConfig NetworkOperationResult \<times> Machine Run" where
  "eth_set_dhcp strerror ops config_dir eth_iface r = (case load_ethernet_config config_dir eth_iface (mc_host (world r)) of (c, h) \<Rightarrow>
     apply_ethernet_transaction strerror ops config_dir eth_iface
       (c\<lparr> ec_iface := eth_iface, ec_method := ''dhcp'', ec_ip4 := [], ec_netmask4 := [], ec_gateway4 := [], ec_dns4 := [],
           ec_route_metric := 10, ec_dns_enabled := True \<rparr>) (put_host h r))"

definition eth_set_static :: "(nat \<Rightarrow> string) \<Rightarrow> Machine NetworkControlPlaneOps \<Rightarrow> string \<Rightarrow> string \<Rightarrow>
    string \<Rightarrow> string \<Rightarrow> string \<Rightarrow> string \<Rightarrow> Machine Run \<Rightarrow> EthernetConfig NetworkOperationResult \<times> Machine Run" where
  "eth_set_static strerror ops config_dir eth_iface ip netmask gateway dns r =
     (case load_ethernet_config config_dir eth_iface (mc_host (world r)) of (c, h) \<Rightarrow>
     apply_ethernet_transaction strerror ops config_dir eth_iface
       (c\<lparr> ec_iface := eth_iface, ec_method := ''static'', ec_ip4 := ip, ec_netmask4 := netmask, ec_gateway4 := gateway,
           ec_dns4 := dns, ec_route_metric := 10, ec_dns_enabled := (dns \<noteq> []) \<rparr>) (put_host h r))"

section \<open>The Wi-Fi manager's mechanisms and reconciliation\<close>

definition manager_ports :: "Machine NetworkControlPlaneOps \<Rightarrow> string \<Rightarrow> Machine Run DhcpPorts" where
  "manager_ports ops wifi_iface = \<lparr>
     dp_start = Some (\<lambda>r. case start_dhcp ops wifi_iface r of (ok, r1) \<Rightarrow> (ok, err r1, r1)),
     dp_stop = Some (Control_Plane.stop_dhcp ops wifi_iface),
     dp_running = Some (\<lambda>r. case is_running wifi_iface (mc_host (world r)) of (running, h) \<Rightarrow> (running, put_host h r)) \<rparr>"

text \<open>The link notification of the WPA monitor.\<close>

definition on_wpa_link :: "Machine NetworkControlPlaneOps \<Rightarrow> string \<Rightarrow> bool \<Rightarrow>
    WifiManagerState \<times> Machine Run \<Rightarrow> WifiManagerState \<times> Machine Run" where
  "on_wpa_link ops wifi_iface connected =
     (if connected then on_l2_connected (manager_ports ops wifi_iface) else on_l2_disconnected (manager_ports ops wifi_iface))"

definition daemon_reconcile :: "Machine NetworkControlPlaneOps \<Rightarrow> string \<Rightarrow>
    WifiManagerState \<times> Machine Run \<Rightarrow> bool \<times> WifiManagerState \<times> Machine Run" where
  "daemon_reconcile ops wifi_iface s =
     (case reconcile_dhcp_process (manager_ports ops wifi_iface) s of (_, m, r) \<Rightarrow>
      case reconcile_full ops r of (ok, r1) \<Rightarrow> (ok, m, r1))"

text \<open>\<open>injected\<close> says that a snapshot provider was passed to the constructor, \<open>fd\<close> is
  \<open>network_event_fd ()\<close>; the result is the returned bool, \<open>changed\<close> and the state.\<close>

definition daemon_reconcile_changed :: "Machine NetworkControlPlaneOps \<Rightarrow> string \<Rightarrow> bool \<Rightarrow> int \<Rightarrow>
    WifiManagerState \<times> Machine Run \<Rightarrow> bool \<times> bool \<times> WifiManagerState \<times> Machine Run" where
  "daemon_reconcile_changed ops wifi_iface injected fd s =
     (case reconcile_dhcp_process (manager_ports ops wifi_iface) s of (dhcp_process_changed, m, r) \<Rightarrow>
      if \<not> injected \<and> fd < 0 then (case reconcile_full ops r of (ok, r1) \<Rightarrow> (ok, True, m, r1))
      else case reconcile_changed ops r of (ok, network_changed, r1) \<Rightarrow> (ok, dhcp_process_changed \<or> network_changed, m, r1))"

definition consume_runtime_state_dirty :: "bool \<Rightarrow> int \<Rightarrow> WpaEventFact \<Rightarrow> u64 \<Rightarrow> bool \<times> u64" where
  "consume_runtime_state_dirty injected fd events last_wpa_event_sequence =
     (if injected \<or> fd < 0 then (True, last_wpa_event_sequence)
      else (we_event_sequence events \<noteq> last_wpa_event_sequence, we_event_sequence events))"

section \<open>Operations behind the IPC methods\<close>

definition daemon_ping :: "string \<Rightarrow> PingInfo" where
  "daemon_ping version = \<lparr> pi_service = ''network_service'', pi_version = version, pi_mode = ''explicit_apply'' \<rparr>"

definition daemon_wpa_events :: "NetworkSnapshot \<Rightarrow> WpaEventFact \<Rightarrow> WifiManagerState \<Rightarrow> NetworkControlPlane \<Rightarrow>
    WpaEventsView NetworkOperationResult" where
  "daemon_wpa_events live events manager cp =
     op_success (project_wpa_compatibility events (daemon_snapshot live events manager cp) manager) 200"

definition route_policy_get :: "NetworkControlPlane \<Rightarrow> RoutePolicyInfo NetworkOperationResult" where
  "route_policy_get cp = op_success \<lparr> rp_policy = cp_route_policy cp, rp_persistent = False \<rparr> 200"

definition RoutePolicyInfo_default :: RoutePolicyInfo where
  "RoutePolicyInfo_default = \<lparr> rp_policy = EthernetPreferred, rp_persistent = False \<rparr>"

definition route_policy_apply :: "'w NetworkControlPlaneOps \<Rightarrow> RoutePolicy \<Rightarrow> 'w Run \<Rightarrow> RoutePolicyInfo NetworkOperationResult \<times> 'w Run" where
  "route_policy_apply ops policy r =
     (if policy = ManualMetric
      then (op_failure RoutePolicyInfo_default 400 ''manual_metric is not a supported product route policy'', r)
      else case set_route_policy ops policy (clear_err r) of (ok, r1) \<Rightarrow>
        if \<not> ok then (op_failure RoutePolicyInfo_default 500 (or_text (err r1) ''failed to apply route policy''), r1)
        else (route_policy_get (plane r1), r1))"

definition command_op :: "WifiCommandResult \<Rightarrow> 'w err_act \<Rightarrow> 'w \<Rightarrow> WifiCommandResult NetworkOperationResult \<times> 'w" where
  "command_op answer f w = (case f ([], w) of (ok, e, w1) \<Rightarrow>
     (if ok then op_success answer 200 else op_failure (command_result []) 500 e, w1))"

definition daemon_wifi_connect :: "'w WifiPorts \<Rightarrow> string \<Rightarrow> string \<Rightarrow> string \<Rightarrow> 'w \<Rightarrow> WifiCommandResult NetworkOperationResult \<times> 'w" where
  "daemon_wifi_connect ports wifi_iface ssid password =
     command_op (command_result ''connect'') (connect_new (backend_profile_ops ports wifi_iface) ssid password)"

definition daemon_wifi_connect_saved :: "'w WifiPorts \<Rightarrow> string \<Rightarrow> string \<Rightarrow> 'w \<Rightarrow> WifiCommandResult NetworkOperationResult \<times> 'w" where
  "daemon_wifi_connect_saved ports wifi_iface ssid =
     command_op (command_result ''connect_saved'') (connect_saved (backend_profile_ops ports wifi_iface) ssid)"

definition daemon_wifi_forget :: "'w WifiPorts \<Rightarrow> string \<Rightarrow> string \<Rightarrow> 'w \<Rightarrow> WifiCommandResult NetworkOperationResult \<times> 'w" where
  "daemon_wifi_forget ports wifi_iface ssid =
     command_op (command_result ''forget'') (forget (backend_profile_ops ports wifi_iface) ssid)"

definition daemon_wifi_set_autoconnect :: "'w WifiPorts \<Rightarrow> string \<Rightarrow> string \<Rightarrow> bool \<Rightarrow> 'w \<Rightarrow> WifiCommandResult NetworkOperationResult \<times> 'w" where
  "daemon_wifi_set_autoconnect ports wifi_iface ssid enabled =
     command_op ((command_result ''autoconnect'')\<lparr> wc_has_enabled := True, wc_enabled := enabled \<rparr>)
       (set_autoconnect (backend_profile_ops ports wifi_iface) ssid enabled)"

definition list_op :: "(string \<times> 'w \<Rightarrow> 'a list \<times> string \<times> 'w) \<Rightarrow> 'w \<Rightarrow> 'a list NetworkOperationResult \<times> 'w" where
  "list_op f w = (case f ([], w) of (records, e, w1) \<Rightarrow>
     (if e \<noteq> [] \<and> records = [] then op_failure [] 500 e else op_success records 200, w1))"

definition daemon_wifi_scan :: "'w WifiPorts \<Rightarrow> string \<Rightarrow> 'w \<Rightarrow> WifiApRecord list NetworkOperationResult \<times> 'w" where
  "daemon_wifi_scan ports wifi_iface = list_op (wifi_scan ports wifi_iface)"

definition daemon_wifi_list_saved :: "'w WifiPorts \<Rightarrow> string \<Rightarrow> 'w \<Rightarrow> WifiSavedNetwork list NetworkOperationResult \<times> 'w" where
  "daemon_wifi_list_saved ports wifi_iface = list_op (wifi_list_saved ports wifi_iface)"

definition daemon_wifi_scan_start :: "'w ScanPorts \<Rightarrow> WifiScanLifecycle \<times> 'w \<Rightarrow> WifiScanStatus NetworkOperationResult \<times> WifiScanLifecycle \<times> 'w" where
  "daemon_wifi_scan_start ports s = (case scan_start ports s of (status, s1) \<Rightarrow>
     (if st_state status = Scan_Failed
      then op_failure \<lparr> st_scan_id = 0, st_state = Scan_Idle, st_error = [], st_records = [] \<rparr> 500 (st_error status)
      else op_success status 202, s1))"

definition daemon_wifi_scan_status :: "'w ScanPorts \<Rightarrow> WifiScanLifecycle \<times> 'w \<Rightarrow> WifiScanStatus NetworkOperationResult \<times> WifiScanLifecycle \<times> 'w" where
  "daemon_wifi_scan_status ports s = (case scan_poll ports s of (status, s1) \<Rightarrow> (op_success status 200, s1))"

text \<open>Leaving Wi-Fi: the DHCP client goes first, through the manager, then the supplicant. \<open>stop\<close>
  is the manager's \<open>stop_dhcp\<close> on the daemon's state.\<close>

definition daemon_wifi_set_enabled :: "'w WifiPorts \<Rightarrow> string \<Rightarrow> ('w \<Rightarrow> 'w) \<Rightarrow> bool \<Rightarrow> 'w \<Rightarrow> WifiEnabledResult NetworkOperationResult \<times> 'w" where
  "daemon_wifi_set_enabled ports wifi_iface stop enabled w =
     (case Wifi_Backend.wifi_set_enabled ports wifi_iface enabled ([], if enabled then w else stop w) of (ok, e, w1) \<Rightarrow>
      (if ok then op_success \<lparr> we_enabled = enabled \<rparr> 200 else op_failure \<lparr> we_enabled = False \<rparr> 500 e, w1))"

definition daemon_wifi_disconnect :: "'w WifiPorts \<Rightarrow> string \<Rightarrow> ('w \<Rightarrow> 'w) \<Rightarrow> 'w \<Rightarrow> WifiCommandResult NetworkOperationResult \<times> 'w" where
  "daemon_wifi_disconnect ports wifi_iface stop w =
     command_op (command_result ''disconnect'') (Wifi_Backend.wifi_disconnect ports wifi_iface) (stop w)"

end
