(* ===== verification/Daemon_Files.thy ===== *)
theory Daemon_Files
  imports Daemon
begin

text \<open>
  The Ethernet transaction of the daemon against the configuration file. The platform functions
  the daemon wires into its control plane write files under three prefixes only
  (\<open>runtime_path\<close>); hence no configuration file is touched by applying a configuration, and
  \<open>apply_ethernet_transaction\<close> on the daemon's own ports leaves the committed file with exactly the
  contents its answer promises.
\<close>

section \<open>Files the platform functions write\<close>

definition runtime_path :: "string \<Rightarrow> bool" where
  "runtime_path q \<longleftrightarrow> starts_with ''/tmp/network_service_'' q \<or> starts_with ''/tmp/smart_hmi_udhcpc_'' q \<or> q = resolv_conf"

definition view :: "(string \<Rightarrow> bool) \<Rightarrow> Host \<Rightarrow> string \<Rightarrow> string option" where
  "view V h = (\<lambda>q. if V q then h_files h q else None)"

definition reserved :: "(string \<Rightarrow> bool) \<Rightarrow> bool" where
  "reserved V \<longleftrightarrow> (\<forall>q. runtime_path q \<longrightarrow> \<not> V q)"

text \<open>External programs, signalled or waiting, leave those files alone.\<close>

definition quiet_machine :: "(string \<Rightarrow> bool) \<Rightarrow> UdhcpcPorts \<Rightarrow> (Host \<Rightarrow> IfAddr list option \<times> Host) \<Rightarrow> bool" where
  "quiet_machine V ports getifaddrs \<longleftrightarrow> (\<forall>h.
     (\<forall>cmd. view V (snd (up_system ports cmd h)) = view V h)
     \<and> (\<forall>pid sig. view V (up_kill ports pid sig h) = view V h)
     \<and> view V (up_usleep ports h) = view V h
     \<and> view V (snd (up_ticks ports h)) = view V h
     \<and> view V (snd (getifaddrs h)) = view V h)"

lemma runtime_paths [simp]:
  "runtime_path (path_for i g)" "runtime_path (generation_path_for i)" "runtime_path (marker_tmp i n)"
  "runtime_path (pidfile_for i)" "runtime_path (event_script_path i g)" "runtime_path (event_script_path i g @ s)"
  "runtime_path resolv_conf"
  by (simp_all add: runtime_path_def path_for_def generation_path_for_def marker_tmp_def pidfile_for_def event_script_path_def)

lemma view_eqI: "h_files h1 = h_files h \<Longrightarrow> view V h1 = view V h"
  unfolding view_def by metis

lemma view_put_other:
  assumes "reserved V" and "runtime_path p"
  shows "view V (sys_unlink p h) = view V h"
    and "write_stream p d h = (x, h1) \<Longrightarrow> view V h1 = view V h"
    and "runtime_path a \<Longrightarrow> sys_rename a p h = (ok, h1) \<Longrightarrow> view V h1 = view V h"
proof -
  have p: "q \<noteq> p" if "V q" for q using assms that by (auto simp: reserved_def)
  have r: "q \<noteq> a" if "V q" "runtime_path a" for q a using assms(1) that by (auto simp: reserved_def)
  show "view V (sys_unlink p h) = view V h" using p by (auto simp: view_def fun_eq_iff)
  show "write_stream p d h = (x, h1) \<Longrightarrow> view V h1 = view V h"
    using p by (auto simp: view_def fun_eq_iff dest: write_stream_other)
  show "runtime_path a \<Longrightarrow> sys_rename a p h = (ok, h1) \<Longrightarrow> view V h1 = view V h"
    using p r by (auto simp: view_def fun_eq_iff dest!: sys_rename_result(1))
qed

lemmas view_reads = read_stream_files [THEN conjunct1, THEN view_eqI] sys_status_filesD [THEN conjunct1, THEN view_eqI]
  active_generation_files [THEN view_eqI] lease_read_files [THEN view_eqI] path_exists_files [THEN view_eqI]
  read_process_args_files [THEN view_eqI]

lemma lease_clear_view: "reserved V \<Longrightarrow> view V (lease_clear i h) = view V h"
  by (auto simp: lease_clear_def view_put_other split: prod.splits sum.splits option.splits dest!: view_reads [where V = V])

lemma activate_view: "reserved V \<Longrightarrow> activate_generation i g h = (x, h1) \<Longrightarrow> view V h1 = view V h"
  by (auto simp: activate_generation_def Let_def view_put_other split: if_splits prod.splits option.splits
      dest!: view_put_other(2,3) [rotated -1])

lemma script_view: "reserved V \<Longrightarrow> ensure_event_script i g h = (x, h1) \<Longrightarrow> view V h1 = view V h"
  by (auto simp: ensure_event_script_def Let_def view_put_other split: if_splits prod.splits option.splits
      dest!: view_put_other(2,3) [rotated -1] view_reads [where V = V])

lemma probe_view: "probe i h = (x, h1) \<Longrightarrow> view V h1 = view V h"
proof (cases x)
  case (Inl e)
  moreover assume "probe i h = (x, h1)"
  ultimately show ?thesis
    by (auto simp: probe_def split: if_splits prod.splits sum.splits dest: view_reads(3) [where V = V])
next
  case (Inr r)
  moreover assume "probe i h = (x, h1)"
  ultimately show ?thesis using probe_files [of i h r h1] view_eqI by blast
qed

lemma is_running_view: "is_running i h = (x, h1) \<Longrightarrow> view V h1 = view V h"
  by (auto simp: is_running_def split: prod.splits sum.splits dest!: probe_view [where V = V])

lemma cleanup_view: "reserved V \<Longrightarrow> view V (cleanup_stale i h) = view V h"
  by (auto simp: cleanup_stale_def Let_def view_put_other lease_clear_view split: prod.splits sum.splits option.splits dest!: view_reads [where V = V])

lemma still_owned_view: "still_owned i g p h = (x, h1) \<Longrightarrow> view V h1 = view V h"
  by (auto simp: still_owned_def split: prod.splits option.splits dest!: view_reads [where V = V])

lemma quiet_machineD:
  assumes "quiet_machine V ports getifaddrs"
  shows "view V (up_kill ports pid sig h) = view V h" and "view V (up_usleep ports h) = view V h"
    and "up_ticks ports h = (t, h1) \<Longrightarrow> view V h1 = view V h"
    and "run_command (up_system ports) cmd h = (x, h1) \<Longrightarrow> view V h1 = view V h"
    and "getifaddrs h = (l, h1) \<Longrightarrow> view V h1 = view V h"
proof -
  note q = assms [unfolded quiet_machine_def, rule_format, of h]
  show "view V (up_kill ports pid sig h) = view V h" "view V (up_usleep ports h) = view V h" using q by blast+
  show "up_ticks ports h = (t, h1) \<Longrightarrow> view V h1 = view V h" "getifaddrs h = (l, h1) \<Longrightarrow> view V h1 = view V h"
    using q by (metis snd_conv)+
  show "run_command (up_system ports) cmd h = (x, h1) \<Longrightarrow> view V h1 = view V h"
    using q by (auto simp: run_command_def split: prod.splits if_splits) (metis snd_conv)+
qed

lemma wait_gone_view:
  assumes "quiet_machine V ports getifaddrs"
  shows "view V (wait_gone n ports i g p h) = view V h"
  by (induction n arbitrary: h) (auto simp: quiet_machineD [OF assms] split: prod.splits dest!: still_owned_view [where V = V])

lemma wait_running_view:
  assumes "quiet_machine V ports getifaddrs"
  shows "wait_running n ports i h = (x, h1) \<Longrightarrow> view V h1 = view V h"
proof (induction n arbitrary: h)
  case (Suc n)
  obtain b h2 where r: "is_running i h = (b, h2)" by (cases "is_running i h")
  show ?case using Suc is_running_view [OF r] quiet_machineD(2) [OF assms, of h2] by (auto simp: r split: if_splits)
qed simp

lemma stop_view:
  assumes "quiet_machine V ports getifaddrs" and "reserved V"
  shows "view V (udhcpc_stop ports i h) = view V h"
proof -
  have "view V (terminate_client ports i g p h) = view V h" for g p h
    by (auto simp: terminate_client_def Let_def quiet_machineD [OF assms(1)] wait_gone_view [OF assms(1)]
        split: prod.splits dest!: still_owned_view [where V = V])
  then show ?thesis
    by (auto simp: udhcpc_stop_def cleanup_view [OF assms(2)] split: prod.splits sum.splits dest!: probe_view [where V = V])
qed

lemma launch_view:
  assumes "quiet_machine V ports getifaddrs" and "reserved V" and "launch_client ports i g h = (x, h1)"
  shows "view V h1 = view V h"
proof -
  obtain y h2 where r: "run_command (up_system ports) (''udhcpc -f -i '' @ i @ '' -t 15 -n -p '' @ shell_quote (pidfile_for i) @
             '' -s '' @ shell_quote (event_script_path i g) @ '' &'') h = (y, h2)"
    by (cases "run_command (up_system ports) (''udhcpc -f -i '' @ i @ '' -t 15 -n -p '' @ shell_quote (pidfile_for i) @
             '' -s '' @ shell_quote (event_script_path i g) @ '' &'') h")
  obtain b h3 where w: "wait_running 20 ports i h2 = (b, h3)" by (cases "wait_running 20 ports i h2")
  note f = quiet_machineD(4) [OF assms(1) r] wait_running_view [OF assms(1) w]
  have f3: "view V h3 = view V h" using f by simp
  show ?thesis
    using assms(3) unfolding launch_client_def Let_def r prod.case w
    by (auto simp: f(1) f3 stop_view [OF assms(1,2)] lease_clear_view [OF assms(2)] view_put_other [OF assms(2)]
        split: sum.splits if_splits simp flip: f3)
qed

lemma start_view:
  assumes "quiet_machine V ports getifaddrs" and "reserved V" and "udhcpc_start ports i (s, h) = (x, s1, h1)"
  shows "view V h1 = view V h"
proof (cases "is_safe_iface i")
  case False
  then show ?thesis using assms(3) by (simp add: udhcpc_start_def)
next
  case True
  obtain p k1 where p: "probe i h = (p, k1)" by (cases "probe i h")
  note pv = probe_view [OF p]
  have run: "view V h1 = view V k2"
    if "(case next_generation ports (s, k2) of (g, seq1, h3) \<Rightarrow> case activate_generation i g h3 of
          (Inl e, h4) \<Rightarrow> (Inl e, seq1, h4)
        | (Inr _, h4) \<Rightarrow> (case ensure_event_script i g h4 of
            (Inl e, h5) \<Rightarrow> (Inl e, seq1, lease_clear i h5)
          | (Inr _, h5) \<Rightarrow> (case launch_client ports i g h5 of (res, h6) \<Rightarrow> (res, seq1, h6)))) = (x, s1, h1)" for k2
  proof -
    obtain g s2 k3 where n: "next_generation ports (s, k2) = (g, s2, k3)" by (cases "next_generation ports (s, k2)") auto
    have nv: "view V k3 = view V k2"
      using n quiet_machineD(3) [OF assms(1)] by (auto simp: next_generation_def split: prod.splits)
    show ?thesis
      using that unfolding n prod.case
      by (auto simp: nv lease_clear_view [OF assms(2)] split: prod.splits sum.splits
          dest!: activate_view [OF assms(2)] script_view [OF assms(2)] launch_view [OF assms(1,2)])
  qed
  show ?thesis
  proof (cases p)
    case (Inl e)
    then show ?thesis using assms(3) pv True by (simp add: udhcpc_start_def p)
  next
    case (Inr r)
    then show ?thesis
      using assms(3) pv True run stop_view [OF assms(1,2), of i k1] cleanup_view [OF assms(2), of i k1]
      by (cases "pr_state r") (simp_all add: udhcpc_start_def p Let_def)
  qed
qed

lemma configurator_view:
  assumes "quiet_machine V ports getifaddrs" and "reserved V"
  shows "apply_ipv4 (up_system ports) i a n h = (x, h1) \<Longrightarrow> view V h1 = view V h"
    and "clear_ipv4 (up_system ports) i h = (x, h1) \<Longrightarrow> view V h1 = view V h"
    and "set_default_route (up_system ports) i g m h = (x, h1) \<Longrightarrow> view V h1 = view V h"
    and "clear_default_route (up_system ports) i g m h = (x, h1) \<Longrightarrow> view V h1 = view V h"
    and "set_primary_dns d h = (x, h1) \<Longrightarrow> view V h1 = view V h"
    and "clear_dns h = (x, h1) \<Longrightarrow> view V h1 = view V h"
proof -
  note run = quiet_machineD(4) [OF assms(1)]
  have e: "exact_default_route_exists i g m h = (b, k) \<Longrightarrow> view V k = view V h" for i g m h b k
    by (auto simp: exact_default_route_exists_def split: prod.splits option.splits dest: view_reads [where V = V])
  show "apply_ipv4 (up_system ports) i a n h = (x, h1) \<Longrightarrow> view V h1 = view V h"
    "clear_ipv4 (up_system ports) i h = (x, h1) \<Longrightarrow> view V h1 = view V h"
    by (auto simp: apply_ipv4_def clear_ipv4_def split: if_splits dest: run)
  show "set_default_route (up_system ports) i g m h = (x, h1) \<Longrightarrow> view V h1 = view V h"
    by (auto simp: set_default_route_def split: if_splits prod.splits dest!: e run)
  show "clear_default_route (up_system ports) i g m h = (x, h1) \<Longrightarrow> view V h1 = view V h"
    by (auto simp: clear_default_route_def split: if_splits prod.splits dest!: e run)
  show "set_primary_dns d h = (x, h1) \<Longrightarrow> view V h1 = view V h"
    by (auto simp: set_primary_dns_def split: if_splits prod.splits option.splits
        dest!: view_put_other(2) [OF assms(2) runtime_paths(7)])
  show "clear_dns h = (x, h1) \<Longrightarrow> view V h1 = view V h"
    by (auto simp: clear_dns_def split: if_splits prod.splits option.splits
        dest!: view_put_other(2) [OF assms(2) runtime_paths(7)] dns_file_owned_files [THEN conjunct1, THEN view_eqI [where V = V]])
qed

lemma snapshot_view:
  assumes "quiet_machine V ports getifaddrs" and "read_live_snapshot getifaddrs e w h = (x, h1)"
  shows "view V h1 = view V h"
proof -
  have r: "read_carrier i h = (y, k) \<Longrightarrow> view V k = view V h" for i h y k
    by (auto simp: read_carrier_def read_file_trimmed_def split: prod.splits option.splits dest!: view_reads(1) [where V = V])
  have a: "populate_interface_addresses getifaddrs s h = (y, k) \<Longrightarrow> view V k = view V h" for s h y k
    by (auto simp: populate_interface_addresses_def Let_def split: if_splits prod.splits option.splits
        dest!: quiet_machineD(5) [OF assms(1)] r)
  have b: "populate_default_routes s h = (y, k) \<Longrightarrow> view V k = view V h" for s h y k
    by (auto simp: populate_default_routes_def split: prod.splits option.splits dest!: view_reads(1) [where V = V])
  have c: "read_dns_fact h = (y, k) \<Longrightarrow> view V k = view V h" for h y k
    by (auto simp: read_dns_fact_def split: prod.splits option.splits dest!: view_reads(1) [where V = V])
  show ?thesis using assms(2) by (auto simp: read_live_snapshot_def split: prod.splits dest!: a b c)
qed

section \<open>The control plane over quiet ports\<close>

definition silent_contract :: "('w \<Rightarrow> 'a) \<Rightarrow> 'w NetworkControlPlaneOps \<Rightarrow> bool" where
  "silent_contract v ops \<longleftrightarrow> quiet_contract v ops
     \<and> opt_all (\<lambda>f. \<forall>i g m. keeps v (f i g m)) (op_set_default_route ops)
     \<and> opt_all (\<lambda>f. \<forall>i g m. keeps v (f i g m)) (op_clear_default_route ops)"

lemma silent_quiet: "silent_contract v ops \<Longrightarrow> quiet_contract v ops"
  by (simp add: silent_contract_def)

definition world_keeps :: "('w \<Rightarrow> 'a) \<Rightarrow> 'w Run act \<Rightarrow> bool" where
  "world_keeps v f \<longleftrightarrow> (\<forall>r. v (world (snd (f r))) = v (world r))"

lemma world_keepsD: "world_keeps v f \<Longrightarrow> f r = (ok, r1) \<Longrightarrow> v (world r1) = v (world r)"
  unfolding world_keeps_def by (metis snd_conv)

lemma world_keepsI: "(\<And>r ok r1. f r = (ok, r1) \<Longrightarrow> v (world r1) = v (world r)) \<Longrightarrow> world_keeps v f"
  unfolding world_keeps_def by (metis prod.collapse)

lemma world_keeps_seq: "world_keeps v f \<Longrightarrow> world_keeps v g \<Longrightarrow> world_keeps v (act_seq f g)"
  by (rule world_keepsI) (auto simp: act_seq_def split: prod.splits if_splits dest!: world_keepsD)

lemma world_keeps_pre: "(\<And>r. v (world (h r)) = v (world r)) \<Longrightarrow> world_keeps v f \<Longrightarrow> world_keeps v (\<lambda>r. f (h r))"
  by (simp add: world_keeps_def)

lemma world_keeps_basic [simp]:
  "world_keeps v (refuse m)" "world_keeps v act_true" "world_keeps v (\<lambda>r. (True, upd_plane h r))"
  by (simp_all add: world_keeps_def refuse_def upd_plane_def act_true_def)

lemma world_keeps_port: "keeps v f \<Longrightarrow> world_keeps v (call_port f)"
  by (rule world_keepsI) (rule call_port_mine)

lemma world_simps [simp]: "world (clear_err r) = world r" "world (upd_plane h r) = world r"
  by (simp_all add: clear_err_def upd_plane_def)

lemma world_keeps_or_message: "world_keeps v f \<Longrightarrow> world_keeps v (or_message m f)"
  by (rule world_keepsI) (auto simp: or_message_def split: prod.splits if_splits dest: world_keepsD)

lemma world_keeps_clear: "silent_contract v ops \<Longrightarrow> world_keeps v (clear_owned_route ops i)"
  by (rule world_keepsI)
    (auto simp: clear_owned_route_def Let_def silent_contract_def opt_all_def split: if_splits option.splits
      dest!: world_keepsD [OF world_keeps_seq [OF world_keeps_port world_keeps_basic(3)], rotated]
        world_keepsD [OF world_keeps_basic(1)])

lemma world_keeps_ensure:
  assumes "silent_contract v ops"
  shows "world_keeps v (ensure_owned_route ops i g m)"
proof (rule world_keepsI)
  fix r ok r1 assume run: "ensure_owned_route ops i g m r = (ok, r1)"
  note clear = world_keeps_clear [OF assms, of i]
  show "v (world r1) = v (world r)"
  proof (cases "op_set_default_route ops")
    case None
    then show ?thesis
      using run world_keepsD [OF clear] by (auto simp: ensure_owned_route_def Let_def refuse_def split: if_splits)
  next
    case (Some f)
    then have "keeps v (f i g m)" using assms by (simp add: silent_contract_def opt_all_def)
    then have "world_keeps v (act_seq c (act_seq (call_port (f i g m)) (\<lambda>r1. (True, upd_plane u r1))))"
      if "world_keeps v c" for c u
      using that by (intro world_keeps_seq world_keeps_port world_keeps_basic)
    note long = world_keepsD [OF this]
    define c where "c = (if ow_active (owned_route_for (plane r) i) \<and>
        (ow_gateway4 (owned_route_for (plane r) i) \<noteq> g \<or> ow_metric (owned_route_for (plane r) i) \<noteq> m)
        then clear_owned_route ops i else act_true)"
    have c: "world_keeps v c" using clear by (simp add: c_def)
    show ?thesis
    proof (cases "g = []")
      case True
      then show ?thesis using run world_keepsD [OF clear, of "clear_err r"] by (simp add: ensure_owned_route_def Let_def)
    next
      case False
      with run Some have "act_seq c (act_seq (call_port (f i g m)) (\<lambda>r1. (True, upd_plane (set_owned_route i
            \<lparr> ow_active = True, ow_gateway4 = g, ow_metric = m \<rparr>) r1))) (clear_err r) = (ok, r1)"
        by (simp add: ensure_owned_route_def Let_def c_def)
      from long [OF c this] show ?thesis by simp
    qed
  qed
qed

lemma world_keeps_routes:
  assumes "silent_contract v ops"
  shows "world_keeps v (apply_routes ops)"
proof -
  note rules = world_keepsD [OF world_keeps_or_message [OF world_keeps_ensure [OF assms]]]
    world_keepsD [OF world_keeps_clear [OF assms]]
  have "world_keeps v (apply_eth_route ops)" "world_keeps v (apply_wifi_route ops)"
    by (rule world_keepsI, auto simp: apply_eth_route_def apply_wifi_route_def Let_def split: if_splits dest: rules)+
  from world_keeps_pre [OF _ world_keeps_seq [OF this], of clear_err]
  have "world_keeps v (\<lambda>r. act_seq (apply_eth_route ops) (apply_wifi_route ops) (clear_err r))" by simp
  then show ?thesis by (simp add: apply_routes_def [abs_def])
qed

lemma world_keeps_dns: "silent_contract v ops \<Longrightarrow> world_keeps v (recompute_dns ops)"
  by (rule world_keepsI) (rule recompute_dns_mine [OF silent_quiet])

lemma world_void:
  "untouched v f \<Longrightarrow> v (world (call_void (Some f) r)) = v (world r)"
  "opt_all (keeps v) o' \<Longrightarrow> v (world (call_ignored o' r)) = v (world r)"
  using keeps_ignored [of v o' "world r"] by (simp_all add: call_void_def call_ignored_def untouched_def)

lemma world_keeps_start:
  assumes "silent_contract v ops"
  shows "world_keeps v (start_dhcp ops i)"
proof (rule world_keepsI)
  fix r ok r1 assume run: "start_dhcp ops i r = (ok, r1)"
  note q = quiet_ports [OF silent_quiet [OF assms]]
  show "v (world r1) = v (world r)"
  proof (cases "known_iface (plane r) i \<and> op_start_dhcp ops \<noteq> None \<and> op_stop_dhcp ops \<noteq> None \<and> op_clear_lease ops \<noteq> None")
    case False
    then show ?thesis
      using run by (auto simp: start_dhcp_def refuse_def clear_err_def Let_def split: if_splits option.splits)
  next
    case True
    then obtain st sp cl where o: "op_start_dhcp ops = Some st" "op_stop_dhcp ops = Some sp" "op_clear_lease ops = Some cl"
      by blast
    have "opt_all (keeps v) (map_option (\<lambda>f. f i) (op_clear_ipv4 ops))"
      using q(6) [where i = i] by (cases "op_clear_ipv4 ops") (simp_all add: opt_all_def)
    then have reset: "v (world (reset_for_dhcp ops i sp cl r)) = v (world r)" for r
      by (simp add: reset_for_dhcp_def Let_def world_void q(2) [OF o(2)] q(4) [OF o(3)])
    have "world_keeps v (\<lambda>r. case recompute_dns ops r of (ok, r1) \<Rightarrow> (ok, if ok then r1\<lparr> err := err r \<rparr> else r1))"
      by (rule world_keepsI) (auto split: prod.splits if_splits dest: world_keepsD [OF world_keeps_dns [OF assms]])
    then have "world_keeps v (launch_dhcp ops i st)"
      unfolding launch_dhcp_def using q(1) [OF o(1)] by (intro world_keeps_seq world_keeps_port world_keeps_basic)
    then have "world_keeps v (act_seq (clear_owned_route ops i) (\<lambda>r1. launch_dhcp ops i st (reset_for_dhcp ops i sp cl r1)))"
      by (rule world_keeps_seq [OF world_keeps_clear [OF assms] world_keeps_pre [OF reset]])
    from world_keepsD [OF this, of "clear_err r"] show ?thesis
      using run True o by (simp add: start_dhcp_def Let_def clear_err_def)
  qed
qed

lemma world_keeps_static:
  assumes "silent_contract v ops"
  shows "world_keeps v (apply_ethernet_static ops ip n g d m)"
proof (rule world_keepsI)
  fix r ok r1 assume run: "apply_ethernet_static ops ip n g d m r = (ok, r1)"
  note q = quiet_ports [OF silent_quiet [OF assms]]
  show "v (world r1) = v (world r)"
  proof (cases "op_apply_ipv4 ops \<noteq> None \<and> op_stop_dhcp ops \<noteq> None \<and> op_clear_lease ops \<noteq> None")
    case False
    then show ?thesis
      using run by (auto simp: apply_ethernet_static_def refuse_def clear_err_def Let_def split: if_splits option.splits)
  next
    case True
    then obtain ap sp cl where o: "op_apply_ipv4 ops = Some ap" "op_stop_dhcp ops = Some sp" "op_clear_lease ops = Some cl"
      by blast
    have reset: "v (world (reset_for_static e sp cl r)) = v (world r)" for e r
      by (simp add: reset_for_static_def world_void q(2) [OF o(2)] q(4) [OF o(3)])
    have "world_keeps v (\<lambda>r. act_seq (apply_routes ops) (recompute_dns ops) (upd_plane u r))" for u
      by (rule world_keeps_pre [OF _ world_keeps_seq [OF world_keeps_routes [OF assms] world_keeps_dns [OF assms]]]) simp
    note tail = world_keeps_pre [OF reset world_keeps_seq [OF world_keeps_port [OF q(5) [OF o(1)]] this]]
    have "world_keeps v (act_seq (clear_owned_route ops e) (\<lambda>r1. act_seq (call_port (ap e ip n))
        (\<lambda>r2. act_seq (apply_routes ops) (recompute_dns ops) (upd_plane u r2)) (reset_for_static e sp cl r1)))" for e u
      by (rule world_keeps_seq [OF world_keeps_clear [OF assms] tail])
    from world_keepsD [OF this, where r = "clear_err r"] show ?thesis
      using run o unfolding apply_ethernet_static_def by (simp add: Let_def)
  qed
qed

lemma world_keeps_runtime: "silent_contract v ops \<Longrightarrow> world_keeps v (apply_ethernet_runtime ops i c)"
  unfolding apply_ethernet_runtime_def [abs_def]
  by (cases "ec_method c = ''static''") (simp_all add: world_keeps_pre world_keeps_static world_keeps_start)

section \<open>The daemon's own ports\<close>

lemma keeps_on_host:
  "(\<And>h x h1. f h = (x, h1) \<Longrightarrow> view V h1 = view V h) \<Longrightarrow> keeps (\<lambda>w. view V (mc_host w)) (on_host f)"
  unfolding keeps_def on_host_def by (auto split: prod.splits sum.splits)

lemma daemon_ops_silent:
  assumes "quiet_machine V ports getifaddrs" and "reserved V"
  shows "silent_contract (\<lambda>w. view V (mc_host w)) (daemon_ops ports getifaddrs e w)"
proof -
  let ?v = "\<lambda>w. view V (mc_host w)"
  note conf = configurator_view [OF assms]
  have start: "keeps ?v (start_port ports i)" for i
    by (auto simp: keeps_def start_port_def Let_def split: prod.splits sum.splits dest: start_view [OF assms])
  have lease: "keeps ?v (lease_port i)" for i
    by (auto simp: keeps_def lease_port_def Let_def split: prod.splits sum.splits dest: view_reads(4) [where V = V])
  have "untouched ?v (\<lambda>w. snd (case read_live_snapshot getifaddrs x y (mc_host w) of (s, h) \<Rightarrow> (s, w\<lparr> mc_host := h \<rparr>)))" for x y
    by (auto simp: untouched_def split: prod.splits dest: snapshot_view [OF assms(1)])
  then show ?thesis
    using keeps_on_host [OF conf(1)] keeps_on_host [OF conf(2)] keeps_on_host [OF conf(3)] keeps_on_host [OF conf(4)]
      keeps_on_host [OF conf(5)] keeps_on_host [OF conf(6)] start lease
    by (simp add: silent_contract_def quiet_contract_def daemon_ops_def opt_all_def untouched_def
        stop_view [OF assms] lease_clear_view [OF assms(2)])
qed

section \<open>The transaction\<close>

definition config_file :: "string \<Rightarrow> string \<Rightarrow> bool" where
  "config_file dir q \<longleftrightarrow> starts_with (ethernet_config_path dir) q"

lemma load_files: "load_ethernet_config dir i h = (c, h1) \<Longrightarrow> h_files h1 = h_files h \<and> h_pid h1 = h_pid h"
  by (auto simp: load_ethernet_config_def Let_def split: prod.splits option.splits dest: read_stream_files)

lemma config_paths: "config_file dir (ethernet_config_path dir)" "config_file dir (stage_path dir n s)"
  by (auto simp: config_file_def stage_path_def starts_with_iff)

lemma viewD: "view V h1 = view V h \<Longrightarrow> V q \<Longrightarrow> h_files h1 q = h_files h q"
  by (drule fun_cong [of _ _ q]) (simp add: view_def)

lemma roll_back_file:
  assumes "silent_contract (\<lambda>w. view V (mc_host w)) ops" and "V q" and "q \<noteq> st_temp_path (sr_stage stage)"
    and "roll_back ops i prev msg stage r = (res, r1)"
  shows "h_files (mc_host (world r1)) q = h_files (mc_host (world r)) q \<and> \<not> op_ok res"
proof -
  let ?d = "discard_ethernet_config (take_stage stage r)"
  obtain b r2 where a: "apply_ethernet_runtime ops i prev (put_stage ?d r) = (b, r2)"
    by (cases "apply_ethernet_runtime ops i prev (put_stage ?d r)")
  have "view V (mc_host (world r2)) = view V (sr_host ?d)"
    using world_keepsD [OF world_keeps_runtime [OF assms(1)] a] by (simp add: put_stage_def)
  from viewD [OF this assms(2)] have "h_files (mc_host (world r2)) q = h_files (sr_host ?d) q" .
  moreover have "h_files (sr_host ?d) q = h_files (mc_host (world r)) q"
    using discard_files [of q "take_stage stage r"] assms(3) by (simp add: take_stage_def)
  moreover have "r1 = r2" "\<not> op_ok res"
    using assms(4) unfolding roll_back_def Let_def a snd_conv by (auto simp: op_failure_def op_ok_def)
  ultimately show ?thesis by simp
qed

text \<open>The transaction as the sequence of its four steps.\<close>

lemma transaction_steps:
  fixes r :: "Machine Run"
  assumes run: "apply_ethernet_transaction strerror ops dir i desired r = (res, r1)"
  obtains prev h staged s1 applied r2 result s2 where
    "load_ethernet_config dir i (mc_host (world r)) = (prev, h)"
    and "stage_ethernet_config strerror dir desired
      \<lparr> sr_stage = EthernetConfigStage_default, sr_error = [], sr_sequence = mc_stage_sequence (world r), sr_host = h \<rparr> = (staged, s1)"
    and "apply_ethernet_runtime ops i desired (put_stage s1 (put_host h r)) = (applied, r2)"
    and "commit_ethernet_config strerror (take_stage s1 r2) = (result, s2)"
    and "(res, r1) = (if \<not> staged then (op_failure EthernetConfig_default 500 (''failed to stage ethernet config: '' @ sr_error s1), put_stage s1 (put_host h r))
     else if \<not> applied then roll_back ops i prev (or_text (err r2) ''failed to apply ethernet runtime config'') s1 r2
     else if result = Commit_Failed then roll_back ops i prev (or_text (sr_error s2) ''failed to commit ethernet config'') s2 (put_stage s2 r2)
     else (op_success desired 200, put_stage s2 r2))"
proof -
  obtain prev h where l: "load_ethernet_config dir i (mc_host (world r)) = (prev, h)"
    by (cases "load_ethernet_config dir i (mc_host (world r))")
  let ?s0 = "\<lparr> sr_stage = EthernetConfigStage_default, sr_error = [], sr_sequence = mc_stage_sequence (world r), sr_host = h \<rparr>"
  obtain staged s1 where st: "stage_ethernet_config strerror dir desired ?s0 = (staged, s1)"
    by (cases "stage_ethernet_config strerror dir desired ?s0")
  obtain applied r2 where a: "apply_ethernet_runtime ops i desired (put_stage s1 (put_host h r)) = (applied, r2)"
    by (cases "apply_ethernet_runtime ops i desired (put_stage s1 (put_host h r))")
  obtain result s2 where c: "commit_ethernet_config strerror (take_stage s1 r2) = (result, s2)"
    by (cases "commit_ethernet_config strerror (take_stage s1 r2)")
  have w: "mc_stage_sequence (world (put_host h r)) = mc_stage_sequence (world r)" by (simp add: put_host_def)
  show ?thesis
    by (rule that [OF l st a c]) (use run [symmetric] in \<open>unfold apply_ethernet_transaction_def l prod.case Let_def w st a c\<close>)
qed

text \<open>Each way it ends, seen from the files beside the configuration.\<close>

lemma transaction_cases:
  fixes r :: "Machine Run"
  assumes silent: "silent_contract (\<lambda>w. view (config_file dir) (mc_host w)) ops"
    and run: "apply_ethernet_transaction strerror ops dir i desired r = (res, r1)"
  defines "path \<equiv> ethernet_config_path dir" and "tmp \<equiv> stage_path dir (h_pid (mc_host (world r))) (mc_stage_sequence (world r))"
  obtains (no_stage) "\<not> op_ok res" "\<And>q. q \<noteq> tmp \<Longrightarrow> h_files (mc_host (world r1)) q = h_files (mc_host (world r)) q"
    | (rolled_back) prev m s k where "roll_back ops i prev m s k = (res, r1)" "st_temp_path (sr_stage s) = tmp"
      "\<And>q. config_file dir q \<Longrightarrow> q \<noteq> tmp \<Longrightarrow> h_files (mc_host (world k)) q = h_files (mc_host (world r)) q"
    | (committed) "res = op_success desired 200" "h_files (mc_host (world r1)) path = Some (serialize_ethernet_config desired)"
proof -
  from run obtain prev h staged s1 applied r2 result s2 where l: "load_ethernet_config dir i (mc_host (world r)) = (prev, h)"
    and st: "stage_ethernet_config strerror dir desired
      \<lparr> sr_stage = EthernetConfigStage_default, sr_error = [], sr_sequence = mc_stage_sequence (world r), sr_host = h \<rparr> = (staged, s1)"
    and a: "apply_ethernet_runtime ops i desired (put_stage s1 (put_host h r)) = (applied, r2)"
    and c: "commit_ethernet_config strerror (take_stage s1 r2) = (result, s2)"
    and e: "(res, r1) = (if \<not> staged then (op_failure EthernetConfig_default 500 (''failed to stage ethernet config: '' @ sr_error s1), put_stage s1 (put_host h r))
     else if \<not> applied then roll_back ops i prev (or_text (err r2) ''failed to apply ethernet runtime config'') s1 r2
     else if result = Commit_Failed then roll_back ops i prev (or_text (sr_error s2) ''failed to commit ethernet config'') s2 (put_stage s2 r2)
     else (op_success desired 200, put_stage s2 r2))"
    by (rule transaction_steps)
  note lf = load_files [OF l]
  have "tmp = stage_path dir (h_pid h) (mc_stage_sequence (world r))" using lf by (simp add: tmp_def)
  note sr = stage_result [OF st, simplified, folded this]
  have "view (config_file dir) (mc_host (world r2)) = view (config_file dir) (sr_host s1)"
    using world_keepsD [OF world_keeps_runtime [OF silent] a] by (simp add: put_stage_def)
  note f2 = viewD [OF this]
  have "path \<noteq> []" by (simp add: path_def ethernet_config_path_def)
  then have cr: "staged \<Longrightarrow> h_files (sr_host s2) = (if result = Commit_Failed then h_files (mc_host (world r2))
      else (h_files (mc_host (world r2)))(tmp := None, path := h_files (mc_host (world r2)) tmp))"
    and cs: "staged \<Longrightarrow> result = Commit_Failed \<Longrightarrow> sr_stage s2 = sr_stage s1"
    using commit_result [OF c, of tmp path "config_directory dir"] sr(2) stage_path_ne by (auto simp: take_stage_def path_def tmp_def)
  have old: "q \<noteq> tmp \<Longrightarrow> h_files (sr_host s1) q = h_files (mc_host (world r)) q" for q using sr(1) [of q] lf by simp
  have ptmp: "config_file dir tmp" by (simp add: tmp_def config_paths)
  consider "\<not> staged" | "staged" "\<not> applied" | "staged" "applied" "result = Commit_Failed" | "staged" "applied" "result \<noteq> Commit_Failed" by blast
  then show ?thesis
  proof cases
    case 1
    then show ?thesis using no_stage e old by (simp add: op_failure_def op_ok_def put_stage_def)
  next
    case 2
    then show ?thesis using rolled_back [of prev _ s1 r2] e sr(2) f2 old by simp
  next
    case 3
    then show ?thesis using rolled_back [of prev _ s2 "put_stage s2 r2"] e sr(2) cs cr f2 old by (simp add: put_stage_def)
  next
    case 4
    then show ?thesis using committed e cr f2 [OF ptmp] sr(2) by (simp add: put_stage_def)
  qed
qed

lemma transaction_file:
  fixes r :: "Machine Run"
  assumes silent: "silent_contract (\<lambda>w. view (config_file dir) (mc_host w)) ops"
    and run: "apply_ethernet_transaction strerror ops dir i desired r = (res, r1)"
  defines "path \<equiv> ethernet_config_path dir" and "tmp \<equiv> stage_path dir (h_pid (mc_host (world r))) (mc_stage_sequence (world r))"
  shows "op_ok res \<Longrightarrow> or_value res = desired \<and> h_files (mc_host (world r1)) path = Some (serialize_ethernet_config desired)"
    and "\<not> op_ok res \<Longrightarrow> config_file dir q \<Longrightarrow> q \<noteq> tmp \<Longrightarrow> h_files (mc_host (world r1)) q = h_files (mc_host (world r)) q"
proof -
  have path: "config_file dir path" "path \<noteq> tmp"
    using config_paths(1) stage_path_ne(1) unfolding path_def tmp_def by metis+
  note ways = transaction_cases [OF silent run, folded path_def tmp_def]
  show "op_ok res \<Longrightarrow> or_value res = desired \<and> h_files (mc_host (world r1)) path = Some (serialize_ethernet_config desired)"
    by (cases rule: ways) (use roll_back_file [OF silent path(1)] path(2) in \<open>auto simp: op_success_def\<close>)
  show "\<not> op_ok res \<Longrightarrow> config_file dir q \<Longrightarrow> q \<noteq> tmp \<Longrightarrow> h_files (mc_host (world r1)) q = h_files (mc_host (world r)) q"
    by (cases rule: ways) (use roll_back_file [OF silent, of q] in \<open>auto simp: op_success_def op_ok_def\<close>)
qed

section \<open>Properties\<close>

text \<open>C31: on the daemon's own platform functions, when external programs leave the configuration
  files alone and the configuration directory is not one of the runtime prefixes, a transaction
  that answers success has committed exactly the desired configuration, and one that answers a
  failure, at whichever step and whatever system calls failed, has left the committed file and
  every other file beside it as they were, a leftover of its own staging file apart.\<close>
theorem eth_transaction_file:
  assumes "quiet_machine (config_file dir) ports getifaddrs" and "reserved (config_file dir)"
    and "apply_ethernet_transaction strerror (daemon_ops ports getifaddrs eth wifi) dir iface desired r = (res, r1)"
  shows "if op_ok res
     then or_value res = desired \<and>
       h_files (mc_host (world r1)) (ethernet_config_path dir) = Some (serialize_ethernet_config desired)
     else \<forall>q. config_file dir q \<and> q \<noteq> stage_path dir (h_pid (mc_host (world r))) (mc_stage_sequence (world r)) \<longrightarrow>
       h_files (mc_host (world r1)) q = h_files (mc_host (world r)) q"
  using transaction_file [OF daemon_ops_silent [OF assms(1,2)] assms(3)] by auto

definition example_ports :: "int \<Rightarrow> UdhcpcPorts" where
  "example_ports rc = \<lparr> up_system = (\<lambda>cmd h. (rc, h)), up_kill = (\<lambda>pid sig h. h), up_usleep = id, up_ticks = (\<lambda>h. (0, h)) \<rparr>"

definition example_run :: "Machine Run" where
  "example_run = \<lparr> plane = new_control_plane ''eth0'' ''wlan0'', err = [],
     world = \<lparr> mc_host = \<lparr> h_files = [''/d/smart_hmi_ethernet.conf'' \<mapsto> ''old''], h_script = [], h_errno = 0, h_pid = 7 \<rparr>,
       mc_stage_sequence = 0, mc_generation_sequence = 0 \<rparr> \<rparr>"

lemma example_quiet: "quiet_machine V (example_ports rc) (\<lambda>h. (Some [], h))"
  by (simp add: quiet_machine_def example_ports_def)

lemma example_reserved: "reserved (config_file ''/d/'')"
  by (auto simp: reserved_def config_file_def runtime_path_def starts_with_iff ethernet_config_path_def config_directory_def)

theorem eth_transaction_file_witness:
  "h_files (mc_host (world (snd (apply_ethernet_transaction (\<lambda>e. []) (daemon_ops (example_ports 0) (\<lambda>h. (Some [], h)) ''eth0'' ''wlan0'')
      ''/d/'' ''eth0'' example_config example_run)))) ''/d/smart_hmi_ethernet.conf'' = Some (serialize_ethernet_config example_config)"
proof -
  let ?run = "apply_ethernet_transaction (\<lambda>e. []) (daemon_ops (example_ports 0) (\<lambda>h. (Some [], h)) ''eth0'' ''wlan0'')
      ''/d/'' ''eth0'' example_config example_run"
  obtain res r1 where r: "?run = (res, r1)" by (cases ?run)
  have "op_ok (fst ?run)" by code_simp
  then have ok: "op_ok res" by (simp add: r)
  from eth_transaction_file [OF example_quiet example_reserved r] ok show ?thesis
    by (simp add: r ethernet_config_path_def config_directory_def)
qed

end
