(* ===== verification/Json_Reader.thy ===== *)
theory Json_Reader
  imports Json_Text
begin

text \<open>
  The \<open>JsonReader\<close> of \<^verbatim>\<open>src/ipc/network_ipc_v1_business_dispatch.cpp\<close> and the accessors built on
  it. Unlike the session's scanner it decodes \<open>\u\<close> escapes to UTF-8, looks for one member of an
  object and refuses leading zeros and repeated members. Positions are suffixes as in
  \<open>Ipc_Json\<close>, the depth is the number of levels left, and the \<open>for (;;)\<close> loops carry fuel that
  \<open>find_loop_fuel\<close> and its companions show to be enough. The theorem: a parameter object as a client
  prints it is read back member by member, whatever bytes its strings hold.
\<close>

unbundle bit_operations_syntax

section \<open>Strings\<close>

definition utf8_byte :: "u32 \<Rightarrow> char" where
  "utf8_byte w = char_of (unat w)"

definition append_utf8 :: "u32 \<Rightarrow> string option" where
  "append_utf8 cp =
     (if cp > 0x10ffff \<or> (cp \<ge> 0xd800 \<and> cp \<le> 0xdfff) then None
      else if cp \<le> 0x7f then Some [utf8_byte cp]
      else if cp \<le> 0x7ff then Some [utf8_byte (0xc0 OR drop_bit 6 cp), utf8_byte (0x80 OR (cp AND 0x3f))]
      else if cp \<le> 0xffff then Some [utf8_byte (0xe0 OR drop_bit 12 cp), utf8_byte (0x80 OR (drop_bit 6 cp AND 0x3f)),
        utf8_byte (0x80 OR (cp AND 0x3f))]
      else Some [utf8_byte (0xf0 OR drop_bit 18 cp), utf8_byte (0x80 OR (drop_bit 12 cp AND 0x3f)),
        utf8_byte (0x80 OR (drop_bit 6 cp AND 0x3f)), utf8_byte (0x80 OR (cp AND 0x3f))])"

definition nibble_value :: "char \<Rightarrow> u32 option" where
  "nibble_value c =
     (if isdigit c then Some (of_nat (ord c - 48))
      else if 97 \<le> ord c \<and> ord c \<le> 102 then Some (of_nat (ord c - 87))
      else if 65 \<le> ord c \<and> ord c \<le> 70 then Some (of_nat (ord c - 55))
      else None)"

definition parse_hex4 :: "string \<Rightarrow> (u32 \<times> string) option" where
  "parse_hex4 s =
     (if length s < 4 then None
      else case those (map nibble_value (take 4 s)) of
        None \<Rightarrow> None
      | Some hs \<Rightarrow> Some (foldl (\<lambda>value h. push_bit 4 value OR h) 0 hs, drop 4 s))"

definition append_value :: "string option \<Rightarrow> (string \<times> string) option \<Rightarrow> (string \<times> string) option" where
  "append_value bytes r = (case bytes of None \<Rightarrow> None | Some bs \<Rightarrow> map_option (\<lambda>(v, s). (bs @ v, s)) r)"

text \<open>A \<open>\u\<close> escape after its letter: the code point and the rest.\<close>

definition unicode_escape :: "string \<Rightarrow> (u32 \<times> string) option" where
  "unicode_escape s = (case parse_hex4 s of
     None \<Rightarrow> None
   | Some (first, s1) \<Rightarrow>
       if first \<ge> 0xd800 \<and> first \<le> 0xdbff then
         (case s1 of b # u # s2 \<Rightarrow>
            if b \<noteq> backslash \<or> u \<noteq> CHR ''u'' then None
            else (case parse_hex4 s2 of
              None \<Rightarrow> None
            | Some (second, s3) \<Rightarrow>
                if second < 0xdc00 \<or> second > 0xdfff then None
                else Some (0x10000 + push_bit 10 (first - 0xd800) + (second - 0xdc00), s3))
          | _ \<Rightarrow> None)
       else Some (first, s1))"

lemma parse_hex4_length: "parse_hex4 s = Some (v, r) \<Longrightarrow> length r < length s"
  by (auto simp: parse_hex4_def split: if_splits option.splits)

lemma unicode_escape_length: "unicode_escape s = Some (v, r) \<Longrightarrow> length r < length s"
  by (auto simp: unicode_escape_def split: if_splits option.splits list.splits prod.splits dest!: parse_hex4_length)

function reader_body :: "string \<Rightarrow> (string \<times> string) option" where
  "reader_body [] = None"
| "reader_body (c # s) =
     (if c = quote_char then Some ([], s)
      else if ord c < 0x20 then None
      else if c \<noteq> backslash then cons_value c (reader_body s)
      else case s of
        [] \<Rightarrow> None
      | escaped # s' \<Rightarrow>
          if escaped = CHR ''u'' then
            (case unicode_escape s' of
               None \<Rightarrow> None
             | Some (cp, s'') \<Rightarrow> append_value (append_utf8 cp) (reader_body s''))
          else case unescape escaped of
            None \<Rightarrow> None
          | Some d \<Rightarrow> cons_value d (reader_body s'))"
  by pat_completeness auto
termination by (relation "measure length") (auto dest: unicode_escape_length)

definition reader_string :: "string \<Rightarrow> (string \<times> string) option" where
  "reader_string s = (case s of [] \<Rightarrow> None | c # s' \<Rightarrow> if c \<noteq> quote_char then None else reader_body s')"

definition reader_skip_string :: "string \<Rightarrow> string option" where
  "reader_skip_string s = map_option snd (reader_string s)"

section \<open>Values\<close>

definition reader_integer :: "string \<Rightarrow> string option" where
  "reader_integer s = (case s of [] \<Rightarrow> None | c # s' \<Rightarrow>
     if c = CHR ''0'' then (case s' of d # _ \<Rightarrow> if isdigit d then None else Some s' | [] \<Rightarrow> Some s')
     else if \<not> isdigit c then None
     else Some (dropWhile isdigit s))"

definition reader_number :: "string \<Rightarrow> string option" where
  "reader_number s =
     (let s1 = (case s of c # t \<Rightarrow> if c = CHR ''-'' then t else s | [] \<Rightarrow> s) in
      case reader_integer s1 of None \<Rightarrow> None | Some s2 \<Rightarrow>
      case skip_fraction s2 of None \<Rightarrow> None | Some s3 \<Rightarrow> skip_exponent s3)"

fun reader_array_loop :: "(string \<Rightarrow> string option) \<Rightarrow> nat \<Rightarrow> string \<Rightarrow> string option" where
  "reader_array_loop sv 0 s = None"
| "reader_array_loop sv (Suc n) s =
     (case sv s of None \<Rightarrow> None | Some s1 \<Rightarrow>
      case skip_ws s1 of [] \<Rightarrow> None | c # s2 \<Rightarrow>
        if c = CHR '']'' then Some s2
        else if c \<noteq> CHR '','' then None
        else reader_array_loop sv n (skip_ws s2))"

definition reader_array :: "(string \<Rightarrow> string option) \<Rightarrow> string \<Rightarrow> string option" where
  "reader_array sv s = (case s of [] \<Rightarrow> None | c # s1 \<Rightarrow>
     if c \<noteq> CHR ''['' then None
     else let s2 = skip_ws s1 in
       if s2 \<noteq> [] \<and> hd s2 = CHR '']'' then Some (tl s2) else reader_array_loop sv (Suc (length s2)) s2)"

fun reader_object_loop :: "(string \<Rightarrow> string option) \<Rightarrow> nat \<Rightarrow> string \<Rightarrow> string option" where
  "reader_object_loop sv 0 s = None"
| "reader_object_loop sv (Suc n) s =
     (case reader_skip_string s of None \<Rightarrow> None | Some s1 \<Rightarrow>
      case skip_ws s1 of [] \<Rightarrow> None | c # s2 \<Rightarrow>
        if c \<noteq> CHR '':'' then None
        else case sv (skip_ws s2) of None \<Rightarrow> None | Some s3 \<Rightarrow>
          case skip_ws s3 of [] \<Rightarrow> None | d # s4 \<Rightarrow>
            if d = CHR ''}'' then Some s4
            else if d \<noteq> CHR '','' then None
            else reader_object_loop sv n (skip_ws s4))"

definition reader_object :: "(string \<Rightarrow> string option) \<Rightarrow> string \<Rightarrow> string option" where
  "reader_object sv s = (case s of [] \<Rightarrow> None | c # s1 \<Rightarrow>
     if c \<noteq> CHR ''{'' then None
     else let s2 = skip_ws s1 in
       if s2 \<noteq> [] \<and> hd s2 = CHR ''}'' then Some (tl s2) else reader_object_loop sv (Suc (length s2)) s2)"

primrec reader_levels :: "nat \<Rightarrow> string \<Rightarrow> string option" where
  "reader_levels 0 s = None"
| "reader_levels (Suc n) s =
     (case s of [] \<Rightarrow> None | c # s1 \<Rightarrow>
        if c = CHR ''{'' then reader_object (reader_levels n) s
        else if c = CHR ''['' then reader_array (reader_levels n) s
        else if c = quote_char then reader_skip_string s
        else if c = CHR ''t'' then skip_literal ''true'' s
        else if c = CHR ''f'' then skip_literal ''false'' s
        else if c = CHR ''n'' then skip_literal ''null'' s
        else reader_number s)"

definition reader_value :: "string \<Rightarrow> string option" where
  "reader_value s = reader_levels (Suc kMaxJsonDepth) s"

section \<open>Members\<close>

text \<open>The loop of \<open>find_member\<close>: \<open>found\<close> is the raw text of the member, if seen.\<close>

fun find_loop :: "nat \<Rightarrow> string \<Rightarrow> string option \<Rightarrow> string \<Rightarrow> (string option \<times> string) option" where
  "find_loop 0 wanted found s = None"
| "find_loop (Suc n) wanted found s =
     (case reader_string s of None \<Rightarrow> None | Some (key, s1) \<Rightarrow>
      case skip_ws s1 of [] \<Rightarrow> None | c # s2 \<Rightarrow>
        if c \<noteq> CHR '':'' then None
        else let at_value = skip_ws s2 in
          case reader_value at_value of None \<Rightarrow> None | Some after \<Rightarrow>
          if key = wanted \<and> found \<noteq> None then None
          else let found' = (if key = wanted then Some (take (length at_value - length after) at_value) else found) in
            case skip_ws after of [] \<Rightarrow> None | d # s4 \<Rightarrow>
              if d = CHR ''}'' then Some (found', s4)
              else if d \<noteq> CHR '','' then None
              else find_loop n wanted found' (skip_ws s4))"

definition find_member :: "string \<Rightarrow> string \<Rightarrow> string option" where
  "find_member input wanted = (case skip_ws input of [] \<Rightarrow> None | c # s1 \<Rightarrow>
     if c \<noteq> CHR ''{'' then None
     else let s2 = skip_ws s1 in
       if s2 \<noteq> [] \<and> hd s2 = CHR ''}'' then None
       else case find_loop (Suc (length s2)) wanted None s2 of
         None \<Rightarrow> None
       | Some (found, r) \<Rightarrow> if skip_ws r = [] then found else None)"

definition parse_full_string :: "string \<Rightarrow> string option" where
  "parse_full_string input = (case reader_string (skip_ws input) of
     None \<Rightarrow> None | Some (v, r) \<Rightarrow> if skip_ws r = [] then Some v else None)"

definition read_string :: "string \<Rightarrow> string \<Rightarrow> string option" where
  "read_string obj key = (case find_member obj key of None \<Rightarrow> None | Some raw \<Rightarrow> parse_full_string raw)"

definition read_bool :: "string \<Rightarrow> string \<Rightarrow> bool option" where
  "read_bool obj key = (case find_member obj key of
     None \<Rightarrow> None
   | Some raw \<Rightarrow> if raw = ''true'' then Some True else if raw = ''false'' then Some False else None)"

section \<open>Strings round trip\<close>

lemma append_utf8_ascii: "n < 128 \<Longrightarrow> append_utf8 (of_nat n) = Some [char_of n]"
proof -
  assume n: "n < 128"
  then have u: "unat (of_nat n :: u32) = n" by (simp add: unat_of_nat take_bit_nat_eq_self)
  then have "\<not> of_nat n > (0x10ffff :: u32)" "\<not> of_nat n \<ge> (0xd800 :: u32)" "of_nat n \<le> (0x7f :: u32)"
    using n by (simp_all add: word_less_nat_alt word_le_nat_alt)
  then show ?thesis by (simp add: append_utf8_def utf8_byte_def u)
qed

lemma nibble_hex_digit: "k < 16 \<Longrightarrow> nibble_value (hex_digit k) = Some (of_nat k)"
proof -
  have "list_all (\<lambda>k. nibble_value (hex_digit k) = Some (of_nat k)) [0..<16]" by code_simp
  then show "k < 16 \<Longrightarrow> nibble_value (hex_digit k) = Some (of_nat k)" by (simp add: list_all_iff)
qed

lemma parse_hex4_control:
  assumes "n < 32"
  shows "parse_hex4 (CHR ''0'' # CHR ''0'' # hex_digit (n div 16) # hex_digit (n mod 16) # s) = Some (of_nat n, s)"
proof -
  have "list_all (\<lambda>n. foldl (\<lambda>value h. push_bit 4 value OR h) 0 [0, 0, of_nat (n div 16), of_nat (n mod 16)] = (of_nat n :: u32)) [0..<32]"
    by code_simp
  then have v: "foldl (\<lambda>value h. push_bit 4 value OR h) 0 [0, 0, of_nat (n div 16), of_nat (n mod 16)] = (of_nat n :: u32)"
    using assms by (simp add: list_all_iff del: foldl.simps)
  have h: "nibble_value (hex_digit (n div 16)) = Some (of_nat (n div 16))" "nibble_value (hex_digit (n mod 16)) = Some (of_nat (n mod 16))"
    using assms by (simp_all add: nibble_hex_digit)
  have "nibble_value (CHR ''0'') = Some 0" by code_simp
  then show ?thesis using v h by (simp add: parse_hex4_def)
qed

lemma reader_escaped_char: "reader_body (json_escape_char c @ s) = cons_value c (reader_body s)"
proof (cases "ord c < 0x20 \<and> c \<notin> {CHR 0x08, CHR 0x0C, CHR 0x0A, CHR 0x0D, CHR 0x09}")
  case True
  have "\<not> of_nat (ord c) \<ge> (0xd800 :: u32)"
    using True by (simp add: word_le_nat_alt unat_of_nat take_bit_nat_eq_self)
  then have "unicode_escape (CHR ''0'' # CHR ''0'' # hex_digit (ord c div 16) # hex_digit (ord c mod 16) # s) = Some (of_nat (ord c), s)"
    using parse_hex4_control [of "ord c" s] True by (simp add: unicode_escape_def)
  moreover have "append_utf8 (of_nat (ord c)) = Some [c]" using append_utf8_ascii [of "ord c"] True by simp
  moreover have "c \<noteq> backslash" and "c \<noteq> quote_char" using True by (auto simp: eq_char_ord chr_defs)
  moreover have "\<not> ord backslash < 32" by (simp add: chr_defs)
  ultimately show ?thesis using True by (simp add: json_escape_char_def append_value_def cons_value_def)
next
  case False
  then show ?thesis by (auto simp: json_escape_char_def escape_simps)
qed

lemma reader_escaped: "reader_body (json_escape v @ quote_char # r) = Some (v, r)"
  by (induction v) (simp_all add: json_escape_def reader_escaped_char cons_value_def)

lemma reader_quoted [simp]: "reader_string (quoted v @ r) = Some (v, r)"
  by (simp add: reader_string_def quoted_def reader_escaped)

section \<open>Every loop has enough fuel\<close>

lemma reader_body_length: "reader_body s = Some (v, r) \<Longrightarrow> length r < length s"
proof (induction s arbitrary: v r rule: reader_body.induct)
  case (2 c s)
  show ?case
  proof (cases "c = backslash \<and> (\<exists>s'. s = CHR ''u'' # s')")
    case True
    then obtain s' where s: "s = CHR ''u'' # s'" and c: "c = backslash" by blast
    then obtain cp t where u: "unicode_escape s' = Some (cp, t)"
      using 2(4) by (auto split: if_splits option.splits)
    then obtain w where "reader_body t = Some (w, r)"
      using 2(4) s c by (auto simp: append_value_def split: if_splits option.splits)
    then have "length r < length t" using 2(2) [of "CHR ''u''" s' "(cp, t)" cp t] u s c by (simp add: chr_defs)
    then show ?thesis using unicode_escape_length [OF u] s by simp
  next
    case False
    then show ?thesis
      using 2 by (fastforce simp: cons_value_def split: if_splits list.splits option.splits)
  qed
qed simp

lemma reader_string_length: "reader_string s = Some (v, r) \<Longrightarrow> length r < length s"
  by (auto simp: reader_string_def split: list.splits if_splits dest: reader_body_length)

lemma reader_array_loop_eq: "reader_array_loop sv n s = skip_array_loop sv n s"
  by (induction n arbitrary: s) (auto split: option.splits list.splits)

lemma reader_number_length: "reader_number s = Some r \<Longrightarrow> length r \<le> length s"
proof -
  have i: "reader_integer s = Some r \<Longrightarrow> length r \<le> length s" for s r
    by (auto simp: reader_integer_def split: list.splits if_splits intro: length_dropWhile_le [THEN order_trans])
  have f: "skip_fraction s = Some r \<Longrightarrow> length r \<le> length s" for s r
    by (auto simp: skip_fraction_def split: list.splits if_splits intro: length_dropWhile_le [THEN order_trans])
  have e: "skip_exponent s = Some r \<Longrightarrow> length r \<le> length s" for s r
    by (auto simp: skip_exponent_def Let_def split: list.splits if_splits intro: length_dropWhile_le [THEN order_trans])
  show "reader_number s = Some r \<Longrightarrow> length r \<le> length s"
    by (fastforce simp: reader_number_def Let_def split: list.splits if_splits option.splits dest!: i f e)
qed

text \<open>One round of an object loop: the key, the value and the comma take at least a character.\<close>

lemma object_round:
  assumes "reader_string s = Some (k, s1)" and "skip_ws s1 = c # s2" and "shrinking sv" and "sv (skip_ws s2) = Some s3"
    and "skip_ws s3 = d # s4"
  shows "length (skip_ws s4) < length s" and "length s4 < length s"
  using reader_string_length [OF assms(1)] skip_ws_tail [OF assms(2)] skip_ws_length [of s2] shrinkingD [OF assms(3,4)]
    skip_ws_tail [OF assms(5)] skip_ws_length [of s4] by linarith+

lemma reader_skip_stringE:
  assumes "reader_skip_string s = Some r"
  obtains k where "reader_string s = Some (k, r)"
  using assms by (auto simp: reader_skip_string_def)

lemma reader_object_loop_fuel:
  assumes "shrinking sv"
  shows "length s < n \<Longrightarrow> length s < k \<Longrightarrow> reader_object_loop sv n s = reader_object_loop sv k s"
proof (induction n arbitrary: s k)
  case (Suc n)
  then obtain k' where k: "k = Suc k'" by (cases k) auto
  have "reader_object_loop sv n (skip_ws s4) = reader_object_loop sv k' (skip_ws s4)"
    if "reader_skip_string s = Some s1" "skip_ws s1 = c # s2" "sv (skip_ws s2) = Some s3" "skip_ws s3 = d # s4" for s1 c s2 s3 d s4
    using that(1) by (rule reader_skip_stringE)
      (use object_round(1) [OF _ that(2) assms that(3,4)] Suc k in \<open>fastforce intro!: Suc.IH\<close>)
  then show ?case by (auto simp: k split: option.splits list.splits)
qed simp

lemma reader_object_loop_length:
  assumes "shrinking sv"
  shows "reader_object_loop sv n s = Some r \<Longrightarrow> length r \<le> length s"
proof (induction n arbitrary: s)
  case (Suc n)
  then obtain s1 c s2 s3 d s4 where st: "reader_skip_string s = Some s1" "skip_ws s1 = c # s2" "sv (skip_ws s2) = Some s3"
    "skip_ws s3 = d # s4" and r: "r = s4 \<or> reader_object_loop sv n (skip_ws s4) = Some r"
    by (auto split: option.splits list.splits if_splits)
  obtain k where "reader_string s = Some (k, s1)" using st(1) by (rule reader_skip_stringE)
  from object_round [OF this st(2) assms st(3,4)] show ?case using r Suc.IH [of "skip_ws s4"] by auto
qed simp

lemma reader_levels_shrinking: "shrinking (reader_levels n)"
proof (induction n)
  case 0
  then show ?case by (simp add: shrinking_def)
next
  case (Suc n)
  have o: "reader_object (reader_levels n) s = Some r \<Longrightarrow> length r \<le> length s" for s r
    using skip_ws_length [of "tl s"]
    by (auto simp: reader_object_def Let_def simp del: reader_object_loop.simps split: list.splits if_splits
        dest!: reader_object_loop_length [OF Suc])
  have a: "reader_array (reader_levels n) s = Some r \<Longrightarrow> length r \<le> length s" for s r
    using skip_ws_length [of "tl s"]
    by (auto simp: reader_array_def Let_def reader_array_loop_eq simp del: skip_array_loop.simps reader_array_loop.simps split: list.splits if_splits
        dest!: skip_array_loop_length [OF Suc, rotated])
  have "reader_levels (Suc n) s = Some r \<Longrightarrow> length r \<le> length s" for s r
    by (auto simp: reader_skip_string_def split: list.splits if_splits
        dest: o a reader_number_length skip_literal_length reader_string_length)
  then show ?case by (simp only: shrinking_def) blast
qed

lemma reader_value_shrinking: "shrinking reader_value"
  using reader_levels_shrinking by (simp add: reader_value_def [abs_def] del: reader_levels.simps)

lemma find_loop_fuel: "length s < n \<Longrightarrow> length s < k \<Longrightarrow> find_loop n w f s = find_loop k w f s"
proof (induction n arbitrary: s k f)
  case (Suc n)
  then obtain k' where k: "k = Suc k'" by (cases k) auto
  have "find_loop n w g (skip_ws s4) = find_loop k' w g (skip_ws s4)"
    if "reader_string s = Some (key, s1)" "skip_ws s1 = c # s2" "reader_value (skip_ws s2) = Some s3" "skip_ws s3 = d # s4"
    for key s1 c s2 s3 d s4 g
    using object_round(1) [OF that(1,2) reader_value_shrinking that(3,4)] Suc k by (intro Suc.IH) linarith+
  then show ?case by (auto simp: k Let_def split: option.splits list.splits)
qed simp

section \<open>Printed parameters\<close>

fun scalar :: "json \<Rightarrow> bool" where
  "scalar (JArray js) = False"
| "scalar (JObject fs) = False"
| "scalar _ = True"

lemma reader_integer_show_nat: "num_end r \<Longrightarrow> reader_integer (show_nat n @ r) = Some r"
proof -
  assume r: "num_end r"
  obtain c t where ct: "show_nat n = c # t" "isdigit c" "list_all isdigit t" "c = CHR ''0'' \<longrightarrow> t = []"
    using show_nat_head by blast
  have "dropWhile isdigit (t @ r) = r"
    using ct(3) r by (induction t) (auto simp: num_end_def split: list.splits)
  then show ?thesis using ct r by (auto simp: reader_integer_def num_end_def split: list.splits)
qed

lemma reader_number_show_int: "num_end r \<Longrightarrow> reader_number (show_int i @ r) = Some r"
proof -
  assume r: "num_end r"
  obtain c t where ct: "show_nat (nat i) = c # t" "isdigit c" using show_nat_head by blast
  have "c \<noteq> CHR ''-''" using ct(2) by (auto simp: chr_defs)
  then show ?thesis
    using r ct(1) reader_integer_show_nat [OF r, of "nat i"] reader_integer_show_nat [OF r, of "nat (- i)"]
    by (simp add: reader_number_def show_int_def skip_tail_end)
qed

lemma reader_value_number:
  "c \<notin> {quote_char, CHR ''{'', CHR ''['', CHR '']'', CHR ''}'', CHR ''t'', CHR ''f'', CHR ''n''} \<Longrightarrow>
   reader_value (c # s) = reader_number (c # s)"
  by (simp add: reader_value_def)

lemma reader_scalar:
  assumes "scalar j" and "num_end r"
  shows "reader_value (print_json j @ r) = Some r"
proof (cases j)
  case (JString v)
  have "reader_value (quote_char # s) = reader_skip_string (quote_char # s)" for s
    by (simp add: reader_value_def)
  then show ?thesis using JString reader_quoted [of v r] by (simp add: reader_skip_string_def quoted_def)
next
  case (JNumber i)
  have "reader_value (show_int i @ r) = reader_number (show_int i @ r)"
    using show_int_head [of i] by (elim exE conjE) (simp only: append_Cons, rule reader_value_number)
  then show ?thesis using JNumber reader_number_show_int [OF assms(2), of i] by (simp only: print_json.simps)
next
  case (JBool b)
  have "reader_value (CHR ''t'' # s) = skip_literal ''true'' (CHR ''t'' # s)"
    "reader_value (CHR ''f'' # s) = skip_literal ''false'' (CHR ''f'' # s)" for s
    by (simp_all add: reader_value_def)
  then show ?thesis using JBool by (cases b) (simp_all add: show_bool_def skip_literal_def)
qed (use assms in simp_all)

lemma find_loop_member:
  assumes "scalar j" and "d = CHR '','' \<or> d = CHR ''}''" and "\<not> (k = w \<and> found \<noteq> None)"
  shows "find_loop (Suc n) w found (quoted k @ CHR '':'' # print_json j @ d # t) =
     (let found' = (if k = w then Some (print_json j) else found) in
      if d = CHR ''}'' then Some (found', t) else find_loop n w found' (skip_ws t))"
proof -
  have sp: "\<not> isspace (CHR '':'')" "\<not> isspace d" using assms(2) by (auto simp: chr_defs)
  have "num_end (d # t)" using assms(2) by auto
  from reader_scalar [OF assms(1) this] have v: "reader_value (print_json j @ d # t) = Some (d # t)" .
  show ?thesis using assms(2,3) by (auto simp: Let_def sp v)
qed

lemma find_loop_print:
  assumes "fs \<noteq> []" and "list_all (scalar \<circ> snd) fs" and "distinct (map fst fs)"
    and "found \<noteq> None \<Longrightarrow> w \<notin> fst ` set fs" and "length fs \<le> n"
  shows "find_loop n w found (commas (map print_field fs) @ CHR ''}'' # r) =
     Some (case map_of fs w of Some j \<Rightarrow> Some (print_json j) | None \<Rightarrow> found, r)"
  using assms
proof (induction fs arbitrary: n found)
  case (Cons f fs)
  then obtain n' where n: "n = Suc n'" by (cases n) auto
  obtain k j where f: "f = (k, j)" by (cases f)
  have j: "scalar j" using Cons.prems(2) f by simp
  define found' where "found' = (if k = w then Some (print_json j) else found)"
  have dup: "\<not> (k = w \<and> found \<noteq> None)" using Cons.prems(4) f by force
  show ?case
  proof (cases "fs = []")
    case True
    then show ?thesis
      using find_loop_member [OF j _ dup, of "CHR ''}''" n' r] by (simp add: n f Let_def del: find_loop.simps)
  next
    case False
    define t where "t = commas (map print_field fs) @ CHR ''}'' # r"
    have ih: "find_loop n' w found' t = Some (case map_of fs w of Some j \<Rightarrow> Some (print_json j) | None \<Rightarrow> found', r)"
      unfolding t_def
    proof (rule Cons.IH)
      show "found' \<noteq> None \<Longrightarrow> w \<notin> fst ` set fs"
        using Cons.prems(3,4) f by (cases "k = w") (simp_all add: found'_def)
    qed (use Cons.prems False n in simp_all)
    obtain f' fs' where fs: "fs = f' # fs'" using False by (cases fs) auto
    have t: "skip_ws t = t" by (cases f') (simp add: t_def fs commas_Cons)
    have "commas (map print_field (f # fs)) @ CHR ''}'' # r = quoted k @ CHR '':'' # print_json j @ CHR '','' # t"
      using False by (simp add: f t_def commas_Cons)
    then have "find_loop n w found (commas (map print_field (f # fs)) @ CHR ''}'' # r) = find_loop n' w found' t"
      using find_loop_member [OF j _ dup, of "CHR '',''" n' t] t
      by (simp add: n found'_def Let_def del: find_loop.simps commas.simps list.map)
    moreover have "k = w \<Longrightarrow> map_of fs w = None" using Cons.prems(3) f by (auto simp: map_of_eq_None_iff)
    ultimately show ?thesis using ih by (auto simp: f found'_def simp del: commas.simps split: option.splits)
  qed
qed simp

section \<open>Properties\<close>

lemma find_member_print:
  assumes "list_all (scalar \<circ> snd) fs" and "distinct (map fst fs)"
  shows "find_member (print_json (JObject fs)) w = map_option print_json (map_of fs w)"
proof (cases "fs = []")
  case True
  then show ?thesis by (simp add: find_member_def chr_defs)
next
  case False
  let ?s = "commas (map print_field fs) @ ''}''"
  obtain f fs' where fs: "fs = f # fs'" using False by (cases fs) auto
  obtain k j where f: "f = (k, j)" by (cases f)
  have sk: "skip_ws ?s = ?s" "?s \<noteq> []" "hd ?s \<noteq> CHR ''}''"
    by (simp_all add: fs f commas_Cons quoted_def chr_defs)
  have "length fs \<le> length (commas (map print_field fs))"
    using length_commas [of "map print_field fs"] by (simp add: list_all_iff split_beta)
  then have "find_loop (Suc (length ?s)) w None ?s = Some (map_option print_json (map_of fs w), [])"
    using find_loop_print [of fs None w "Suc (length ?s)" "[]"] False assms by (simp split: option.splits)
  moreover have "\<not> isspace (CHR ''{'')" by (simp add: chr_defs)
  ultimately show ?thesis using sk by (simp add: find_member_def Let_def del: find_loop.simps)
qed

text \<open>C32: a parameter object printed with any strings (control characters, quotes and bytes of
  any value included), numbers and booleans under distinct names is read back exactly: the
  string accessor returns a member's string, the boolean accessor its boolean, and both refuse
  a missing member and a member of another type.\<close>
theorem params_read_back:
  assumes "list_all (scalar \<circ> snd) fs" and "distinct (map fst fs)"
  shows "read_string (print_json (JObject fs)) k = (case map_of fs k of Some (JString v) \<Rightarrow> Some v | _ \<Rightarrow> None)
    \<and> read_bool (print_json (JObject fs)) k = (case map_of fs k of Some (JBool b) \<Rightarrow> Some b | _ \<Rightarrow> None)"
proof (cases "map_of fs k")
  case None
  then show ?thesis using find_member_print [OF assms, of k] by (simp add: read_string_def read_bool_def)
next
  case (Some j)
  then have "scalar j" using assms(1) map_of_SomeD [OF Some] by (force simp: list_all_iff)
  moreover have "parse_full_string (show_int i) = None" "show_int i \<noteq> ''true''" "show_int i \<noteq> ''false''" for i
    using show_int_head [of i] by (auto simp: parse_full_string_def reader_string_def)
  moreover have "parse_full_string (show_bool b) = None" for b
    by (simp add: parse_full_string_def reader_string_def show_bool_def chr_defs)
  moreover have "parse_full_string (quoted v) = Some v" for v
    using reader_quoted [of v "[]"] skip_ws_quoted [of v "[]"] by (simp add: parse_full_string_def)
  ultimately show ?thesis
    using find_member_print [OF assms, of k] Some
    by (cases j) (simp_all add: read_string_def read_bool_def quoted_def show_bool_def)
qed

theorem params_read_back_witness:
  "read_string (print_json (JObject [(''ssid'', JString [CHR 0x00, CHR 0x22, CHR 0xC3]), (''enabled'', JBool True)])) ''ssid''
     = Some [CHR 0x00, CHR 0x22, CHR 0xC3]"
  using params_read_back [of "[(''ssid'', JString [CHR 0x00, CHR 0x22, CHR 0xC3]), (''enabled'', JBool True)]" "''ssid''"] by simp

end
