(* ===== verification/Representation.thy ===== *)
theory Representation
  imports Json_Text Contracts Network_State Wifi_Scan
begin

text \<open>
  The payload texts of \<^verbatim>\<open>src/ipc/network_ipc_representation.cpp\<close>, built by concatenation as the
  streams of the source build them, and for each of them the JSON value it denotes: \<open>x_payload\<close> is
  the code, \<open>x_json\<close> the value, and \<open>x_payload_json\<close> says the text is the printed value whatever
  bytes the strings hold. \<open>version\<close> is the build macro \<open>NETWORK_SERVICE_VERSION\<close>.
\<close>

section \<open>Members\<close>

text \<open>\<open>"\"name\":" << text\<close>, and the same with an escaped string, a boolean, a number.\<close>

definition field_text :: "string \<Rightarrow> string \<Rightarrow> string" where
  "field_text name t = quote_char # name @ [quote_char, CHR '':''] @ t"

definition field_string :: "string \<Rightarrow> string \<Rightarrow> string" where
  "field_string name v = field_text name (quote_char # json_escape v @ [quote_char])"

definition field_bool :: "string \<Rightarrow> bool \<Rightarrow> string" where
  "field_bool name b = field_text name (show_bool b)"

definition field_int :: "string \<Rightarrow> int \<Rightarrow> string" where
  "field_int name i = field_text name (show_int i)"

text \<open>A text literal that \<open>json_escape\<close> leaves alone.\<close>

definition literal_text :: "string \<Rightarrow> bool" where
  "literal_text n \<longleftrightarrow> list_all (\<lambda>c. 32 \<le> ord c \<and> c \<noteq> quote_char \<and> c \<noteq> backslash) n"

lemma json_escape_literal: "literal_text n \<Longrightarrow> json_escape n = n"
proof (induction n)
  case (Cons c n)
  then have "json_escape_char c = [c]"
    by (auto simp: literal_text_def json_escape_char_def chr_defs)
  then show ?case using Cons by (simp add: json_escape_def literal_text_def)
qed (simp add: json_escape_def)

lemma field_json:
  assumes "literal_text n"
  shows "field_string n v = quoted n @ '':'' @ print_json (JString v)"
    and "field_bool n b = quoted n @ '':'' @ print_json (JBool b)"
    and "field_int n i = quoted n @ '':'' @ print_json (JNumber i)"
    and "field_text n (print_json j) = quoted n @ '':'' @ print_json j"
  using json_escape_literal [OF assms]
  by (simp_all add: field_string_def field_bool_def field_int_def field_text_def quoted_def)

section \<open>Payloads\<close>

fun route_policy_to_string :: "RoutePolicy \<Rightarrow> string" where
  "route_policy_to_string WifiPreferred = ''wifi_preferred''"
| "route_policy_to_string WifiOnly = ''wifi_only''"
| "route_policy_to_string ManualMetric = ''manual_metric''"
| "route_policy_to_string EthernetPreferred = ''ethernet_preferred''"

definition dns_policy_to_string :: "DnsPolicy \<Rightarrow> string" where
  "dns_policy_to_string p = ''overwrite''"

definition iface_payload :: "InterfaceSnapshot \<Rightarrow> string" where
  "iface_payload i = ''{'' @ field_string ''iface'' (if_iface i) @ '','' @ field_bool ''exists'' (if_exists i) @ '','' @
     field_bool ''carrier_up'' (if_carrier_up i) @ '','' @ field_bool ''enabled'' (if_enabled i) @ '','' @
     field_bool ''connected'' (if_connected i) @ '','' @ field_bool ''has_ip'' (if_has_ip i) @ '','' @
     field_string ''ip4'' (if_ip4 i) @ '','' @ field_string ''netmask4'' (if_netmask4 i) @ '','' @
     field_bool ''has_default_route'' (if_has_default_route i) @ '','' @ field_string ''gateway4'' (if_gateway4 i) @ '','' @
     field_int ''route_metric'' (if_route_metric i) @ '','' @ field_string ''ssid'' (if_ssid i) @ '','' @
     field_int ''signal_dbm'' (if_signal_dbm i) @ '','' @ field_int ''signal_bars'' (if_signal_bars i) @ ''}''"

definition snapshot_payload :: "string \<Rightarrow> NetworkSnapshot \<Rightarrow> string" where
  "snapshot_payload version s = ''{'' @ field_text ''version'' (quote_char # version @ [quote_char]) @ '','' @
     field_string ''primary_iface'' (ns_primary_iface s) @ '','' @ field_bool ''online'' (ns_online s) @ '','' @
     field_bool ''dns_available'' (ns_dns_available s) @ '','' @ field_string ''dns4'' (ns_dns4 s) @ '','' @
     field_text ''route_policy'' (quote_char # route_policy_to_string (ns_route_policy s) @ [quote_char]) @ '','' @
     field_text ''dns_policy'' (quote_char # dns_policy_to_string (ns_dns_policy s) @ [quote_char]) @ '','' @
     field_text ''eth'' (iface_payload (ns_eth s)) @ '','' @ field_text ''wifi'' (iface_payload (ns_wifi s)) @ ''}''"

text \<open>The lambda \<open>append\<close>: the stream and the flag \<open>first\<close>.\<close>

definition append_change :: "string \<Rightarrow> bool \<Rightarrow> string \<times> bool \<Rightarrow> string \<times> bool" where
  "append_change name enabled s = (case s of (os, first) \<Rightarrow>
     if \<not> enabled then (os, first)
     else ((if first then os else os @ '','') @ quote_char # name @ [quote_char], False))"

definition state_changes_payload :: "NetworkStateChangeSet \<Rightarrow> string" where
  "state_changes_payload c =
     fst (append_change ''dns'' (ch_dns c) (append_change ''route'' (ch_route c)
       (append_change ''wifi'' (ch_wifi c) (append_change ''eth'' (ch_eth c) (''{'' @ field_text ''changed'' ''['', True))))) @ '']}''"

definition ping_payload :: "PingInfo \<Rightarrow> string" where
  "ping_payload p = ''{'' @ field_string ''service'' (pi_service p) @ '','' @ field_string ''version'' (pi_version p) @ '','' @
     field_string ''mode'' (pi_mode p) @ ''}''"

definition route_policy_payload :: "RoutePolicyInfo \<Rightarrow> string" where
  "route_policy_payload p = ''{'' @ field_text ''policy'' (quote_char # route_policy_to_string (rp_policy p) @ [quote_char]) @ '','' @
     field_bool ''persistent'' (rp_persistent p) @ ''}''"

definition wpa_events_payload :: "WpaEventsView \<Rightarrow> string" where
  "wpa_events_payload v = ''{'' @ field_bool ''attached'' (ev_attached v) @ '','' @ field_bool ''connected'' (ev_connected v) @ '','' @
     field_bool ''disconnected'' (ev_disconnected v) @ '','' @ field_bool ''dhcp_requested'' (ev_dhcp_requested v) @ '','' @
     field_bool ''has_ip'' (ev_has_ip v) @ '','' @ field_bool ''has_default_route'' (ev_has_default_route v) @ '','' @
     field_bool ''dns_available'' (ev_dns_available v) @ '','' @ field_string ''ip4'' (ev_ip4 v) @ '','' @
     field_string ''gateway4'' (ev_gateway4 v) @ '','' @ field_string ''dns4'' (ev_dns4 v) @ '','' @
     field_int ''connect_events'' (uint (ev_connect_events v)) @ '','' @ field_int ''disconnect_events'' (uint (ev_disconnect_events v)) @ '','' @
     field_int ''dhcp_requests'' (uint (ev_dhcp_requests v)) @ '','' @ field_int ''scan_started_events'' (uint (ev_scan_started_events v)) @ '','' @
     field_int ''scan_result_events'' (uint (ev_scan_result_events v)) @ '','' @
     field_int ''scan_failed_events'' (uint (ev_scan_failed_events v)) @ '','' @
     field_int ''event_sequence'' (uint (ev_event_sequence v)) @ '','' @
     field_int ''last_scan_started_sequence'' (uint (ev_last_scan_started_sequence v)) @ '','' @
     field_int ''last_scan_result_sequence'' (uint (ev_last_scan_result_sequence v)) @ '','' @
     field_int ''last_scan_failed_sequence'' (uint (ev_last_scan_failed_sequence v)) @ '','' @
     field_string ''wifi_state'' (ev_wifi_state v) @ '','' @ field_string ''failure_reason'' (ev_failure_reason v) @ '','' @
     field_string ''last_event'' (ev_last_event v) @ '','' @ field_string ''last_ssid'' (ev_last_ssid v) @ '','' @
     field_string ''last_bssid'' (ev_last_bssid v) @ ''}''"

definition ethernet_config_payload :: "EthernetConfig \<Rightarrow> string" where
  "ethernet_config_payload c = ''{'' @ field_string ''iface'' (ec_iface c) @ '','' @ field_string ''method'' (ec_method c) @ '','' @
     field_string ''ip4'' (ec_ip4 c) @ '','' @ field_string ''netmask4'' (ec_netmask4 c) @ '','' @
     field_string ''gateway4'' (ec_gateway4 c) @ '','' @ field_string ''dns4'' (ec_dns4 c) @ '','' @
     field_int ''route_metric'' (ec_route_metric c) @ '','' @ field_bool ''dns_enabled'' (ec_dns_enabled c) @ ''}''"

text \<open>The row loop: a comma before every row but the first.\<close>

fun row_loop :: "('a \<Rightarrow> string) \<Rightarrow> nat \<Rightarrow> 'a list \<Rightarrow> string" where
  "row_loop row i [] = []"
| "row_loop row i (r # rs) = (if i > 0 then '','' else []) @ row r @ row_loop row (Suc i) rs"

definition ap_row :: "WifiApRecord \<Rightarrow> string" where
  "ap_row r = ''{'' @ field_string ''bssid'' (ap_bssid r) @ '','' @ field_int ''frequency'' (ap_frequency r) @ '','' @
     field_int ''signal'' (ap_signal_dbm r) @ '','' @ field_string ''flags'' (ap_flags r) @ '','' @
     field_string ''ssid'' (ap_ssid r) @ ''}''"

definition wifi_scan_payload :: "WifiApRecord list \<Rightarrow> string" where
  "wifi_scan_payload rs = ''{'' @ field_int ''count'' (int (length rs)) @ '','' @ field_text ''aps'' (''['' @ row_loop ap_row 0 rs @ '']'') @ ''}''"

definition saved_row :: "WifiSavedNetwork \<Rightarrow> string" where
  "saved_row r = ''{'' @ field_int ''network_id'' (sn_network_id r) @ '','' @ field_string ''ssid'' (sn_ssid r) @ '','' @
     field_string ''bssid'' (sn_bssid r) @ '','' @ field_string ''flags'' (sn_flags r) @ '','' @
     field_bool ''current'' (sn_is_current r) @ '','' @ field_bool ''disabled'' (sn_is_disabled r) @ '','' @
     field_bool ''temp_disabled'' (sn_is_temp_disabled r) @ '','' @ field_bool ''autoconnect'' (sn_autoconnect r) @ ''}''"

definition wifi_saved_payload :: "WifiSavedNetwork list \<Rightarrow> string" where
  "wifi_saved_payload rs = ''{'' @ field_int ''count'' (int (length rs)) @ '','' @ field_text ''saved'' (''['' @ row_loop saved_row 0 rs @ '']'') @ ''}''"

definition wifi_scan_status_payload :: "WifiScanStatus \<Rightarrow> string" where
  "wifi_scan_status_payload s = ''{'' @ field_int ''scanId'' (uint (st_scan_id s)) @ '','' @
     field_text ''state'' (quote_char # wifi_scan_state_name (st_state s) @ [quote_char]) @ '','' @
     field_string ''error'' (st_error s) @ '','' @ field_text ''results'' (wifi_scan_payload (st_records s)) @ ''}''"

definition wifi_enabled_payload :: "WifiEnabledResult \<Rightarrow> string" where
  "wifi_enabled_payload r = ''{'' @ field_bool ''enabled'' (we_enabled r) @ ''}''"

definition wifi_command_payload :: "WifiCommandResult \<Rightarrow> string" where
  "wifi_command_payload r = ''{'' @ field_string ''requested'' (wc_requested r) @
     (if wc_has_enabled r then '','' @ field_bool ''enabled'' (wc_enabled r) else []) @ ''}''"

definition v0_success :: "int \<Rightarrow> string \<Rightarrow> string" where
  "v0_success status payload_json = ''{'' @ field_int ''status'' status @ '','' @ field_text ''result'' payload_json @ ''}''"

definition v0_error :: "int \<Rightarrow> string \<Rightarrow> string" where
  "v0_error status message = ''{'' @ field_int ''status'' status @ '','' @ field_string ''error'' message @ ''}''"

section \<open>The values the payloads denote\<close>

definition iface_json :: "InterfaceSnapshot \<Rightarrow> json" where
  "iface_json i = JObject [(''iface'', JString (if_iface i)), (''exists'', JBool (if_exists i)), (''carrier_up'', JBool (if_carrier_up i)),
     (''enabled'', JBool (if_enabled i)), (''connected'', JBool (if_connected i)), (''has_ip'', JBool (if_has_ip i)),
     (''ip4'', JString (if_ip4 i)), (''netmask4'', JString (if_netmask4 i)), (''has_default_route'', JBool (if_has_default_route i)),
     (''gateway4'', JString (if_gateway4 i)), (''route_metric'', JNumber (if_route_metric i)), (''ssid'', JString (if_ssid i)),
     (''signal_dbm'', JNumber (if_signal_dbm i)), (''signal_bars'', JNumber (if_signal_bars i))]"

definition snapshot_json :: "string \<Rightarrow> NetworkSnapshot \<Rightarrow> json" where
  "snapshot_json version s = JObject [(''version'', JString version), (''primary_iface'', JString (ns_primary_iface s)),
     (''online'', JBool (ns_online s)), (''dns_available'', JBool (ns_dns_available s)), (''dns4'', JString (ns_dns4 s)),
     (''route_policy'', JString (route_policy_to_string (ns_route_policy s))),
     (''dns_policy'', JString (dns_policy_to_string (ns_dns_policy s))),
     (''eth'', iface_json (ns_eth s)), (''wifi'', iface_json (ns_wifi s))]"

definition state_changes_json :: "NetworkStateChangeSet \<Rightarrow> json" where
  "state_changes_json c = JObject [(''changed'', JArray (map JString
     ((if ch_eth c then [''eth''] else []) @ (if ch_wifi c then [''wifi''] else []) @
      (if ch_route c then [''route''] else []) @ (if ch_dns c then [''dns''] else []))))]"

definition ping_json :: "PingInfo \<Rightarrow> json" where
  "ping_json p = JObject [(''service'', JString (pi_service p)), (''version'', JString (pi_version p)), (''mode'', JString (pi_mode p))]"

definition route_policy_json :: "RoutePolicyInfo \<Rightarrow> json" where
  "route_policy_json p = JObject [(''policy'', JString (route_policy_to_string (rp_policy p))), (''persistent'', JBool (rp_persistent p))]"

definition wpa_events_json :: "WpaEventsView \<Rightarrow> json" where
  "wpa_events_json v = JObject [(''attached'', JBool (ev_attached v)), (''connected'', JBool (ev_connected v)),
     (''disconnected'', JBool (ev_disconnected v)), (''dhcp_requested'', JBool (ev_dhcp_requested v)), (''has_ip'', JBool (ev_has_ip v)),
     (''has_default_route'', JBool (ev_has_default_route v)), (''dns_available'', JBool (ev_dns_available v)),
     (''ip4'', JString (ev_ip4 v)), (''gateway4'', JString (ev_gateway4 v)), (''dns4'', JString (ev_dns4 v)),
     (''connect_events'', JNumber (uint (ev_connect_events v))), (''disconnect_events'', JNumber (uint (ev_disconnect_events v))),
     (''dhcp_requests'', JNumber (uint (ev_dhcp_requests v))), (''scan_started_events'', JNumber (uint (ev_scan_started_events v))),
     (''scan_result_events'', JNumber (uint (ev_scan_result_events v))), (''scan_failed_events'', JNumber (uint (ev_scan_failed_events v))),
     (''event_sequence'', JNumber (uint (ev_event_sequence v))),
     (''last_scan_started_sequence'', JNumber (uint (ev_last_scan_started_sequence v))),
     (''last_scan_result_sequence'', JNumber (uint (ev_last_scan_result_sequence v))),
     (''last_scan_failed_sequence'', JNumber (uint (ev_last_scan_failed_sequence v))),
     (''wifi_state'', JString (ev_wifi_state v)), (''failure_reason'', JString (ev_failure_reason v)),
     (''last_event'', JString (ev_last_event v)), (''last_ssid'', JString (ev_last_ssid v)), (''last_bssid'', JString (ev_last_bssid v))]"

definition ethernet_config_json :: "EthernetConfig \<Rightarrow> json" where
  "ethernet_config_json c = JObject [(''iface'', JString (ec_iface c)), (''method'', JString (ec_method c)), (''ip4'', JString (ec_ip4 c)),
     (''netmask4'', JString (ec_netmask4 c)), (''gateway4'', JString (ec_gateway4 c)), (''dns4'', JString (ec_dns4 c)),
     (''route_metric'', JNumber (ec_route_metric c)), (''dns_enabled'', JBool (ec_dns_enabled c))]"

definition ap_json :: "WifiApRecord \<Rightarrow> json" where
  "ap_json r = JObject [(''bssid'', JString (ap_bssid r)), (''frequency'', JNumber (ap_frequency r)), (''signal'', JNumber (ap_signal_dbm r)),
     (''flags'', JString (ap_flags r)), (''ssid'', JString (ap_ssid r))]"

definition wifi_scan_json :: "WifiApRecord list \<Rightarrow> json" where
  "wifi_scan_json rs = JObject [(''count'', JNumber (int (length rs))), (''aps'', JArray (map ap_json rs))]"

definition saved_json :: "WifiSavedNetwork \<Rightarrow> json" where
  "saved_json r = JObject [(''network_id'', JNumber (sn_network_id r)), (''ssid'', JString (sn_ssid r)), (''bssid'', JString (sn_bssid r)),
     (''flags'', JString (sn_flags r)), (''current'', JBool (sn_is_current r)), (''disabled'', JBool (sn_is_disabled r)),
     (''temp_disabled'', JBool (sn_is_temp_disabled r)), (''autoconnect'', JBool (sn_autoconnect r))]"

definition wifi_saved_json :: "WifiSavedNetwork list \<Rightarrow> json" where
  "wifi_saved_json rs = JObject [(''count'', JNumber (int (length rs))), (''saved'', JArray (map saved_json rs))]"

definition wifi_scan_status_json :: "WifiScanStatus \<Rightarrow> json" where
  "wifi_scan_status_json s = JObject [(''scanId'', JNumber (uint (st_scan_id s))), (''state'', JString (wifi_scan_state_name (st_state s))),
     (''error'', JString (st_error s)), (''results'', wifi_scan_json (st_records s))]"

definition wifi_enabled_json :: "WifiEnabledResult \<Rightarrow> json" where
  "wifi_enabled_json r = JObject [(''enabled'', JBool (we_enabled r))]"

definition wifi_command_json :: "WifiCommandResult \<Rightarrow> json" where
  "wifi_command_json r = JObject ((''requested'', JString (wc_requested r)) #
     (if wc_has_enabled r then [(''enabled'', JBool (wc_enabled r))] else []))"

section \<open>Text and value agree\<close>

lemma literal_names:
  "literal_text ''aps''"
  "literal_text ''attached''"
  "literal_text ''autoconnect''"
  "literal_text ''bssid''"
  "literal_text ''carrier_up''"
  "literal_text ''changed''"
  "literal_text ''connect_events''"
  "literal_text ''connected''"
  "literal_text ''count''"
  "literal_text ''current''"
  "literal_text ''dhcp_requested''"
  "literal_text ''dhcp_requests''"
  "literal_text ''disabled''"
  "literal_text ''disconnect_events''"
  "literal_text ''disconnected''"
  "literal_text ''dns4''"
  "literal_text ''dns_available''"
  "literal_text ''dns_enabled''"
  "literal_text ''dns_policy''"
  "literal_text ''enabled''"
  "literal_text ''error''"
  "literal_text ''eth''"
  "literal_text ''event_sequence''"
  "literal_text ''exists''"
  "literal_text ''failure_reason''"
  "literal_text ''flags''"
  "literal_text ''frequency''"
  "literal_text ''gateway4''"
  "literal_text ''has_default_route''"
  "literal_text ''has_ip''"
  "literal_text ''iface''"
  "literal_text ''ip4''"
  "literal_text ''last_bssid''"
  "literal_text ''last_event''"
  "literal_text ''last_scan_failed_sequence''"
  "literal_text ''last_scan_result_sequence''"
  "literal_text ''last_scan_started_sequence''"
  "literal_text ''last_ssid''"
  "literal_text ''method''"
  "literal_text ''mode''"
  "literal_text ''netmask4''"
  "literal_text ''network_id''"
  "literal_text ''online''"
  "literal_text ''persistent''"
  "literal_text ''policy''"
  "literal_text ''primary_iface''"
  "literal_text ''requested''"
  "literal_text ''result''"
  "literal_text ''results''"
  "literal_text ''route_metric''"
  "literal_text ''route_policy''"
  "literal_text ''saved''"
  "literal_text ''scanId''"
  "literal_text ''scan_failed_events''"
  "literal_text ''scan_result_events''"
  "literal_text ''scan_started_events''"
  "literal_text ''service''"
  "literal_text ''signal''"
  "literal_text ''signal_bars''"
  "literal_text ''signal_dbm''"
  "literal_text ''ssid''"
  "literal_text ''state''"
  "literal_text ''status''"
  "literal_text ''temp_disabled''"
  "literal_text ''version''"
  "literal_text ''wifi''"
  "literal_text ''wifi_state''"
  by code_simp+

lemma quoted_literals:
  "quote_char # route_policy_to_string p @ [quote_char] = quoted (route_policy_to_string p)"
  "quote_char # dns_policy_to_string d @ [quote_char] = quoted (dns_policy_to_string d)"
  "quote_char # wifi_scan_state_name st @ [quote_char] = quoted (wifi_scan_state_name st)"
proof -
  have "literal_text (route_policy_to_string p)" by (cases p) (simp_all only: route_policy_to_string.simps, code_simp+)
  then show "quote_char # route_policy_to_string p @ [quote_char] = quoted (route_policy_to_string p)"
    by (simp add: quoted_def json_escape_literal)
  have "literal_text ''overwrite''" by code_simp
  then show "quote_char # dns_policy_to_string d @ [quote_char] = quoted (dns_policy_to_string d)"
    by (simp add: quoted_def json_escape_literal dns_policy_to_string_def)
  have "literal_text (wifi_scan_state_name st)" by (cases st) (simp_all only: wifi_scan_state_name.simps, code_simp+)
  then show "quote_char # wifi_scan_state_name st @ [quote_char] = quoted (wifi_scan_state_name st)"
    by (simp add: quoted_def json_escape_literal)
qed

lemma field_quoted:
  "literal_text n \<Longrightarrow> field_text n (quoted v) = quoted n @ '':'' @ print_json (JString v)"
  using field_json(4) [of n "JString v"] by simp

lemma row_loop_commas: "row_loop row i rs = (if i > 0 \<and> rs \<noteq> [] then '','' else []) @ commas (map row rs)"
  by (induction rs arbitrary: i) (simp_all add: commas_Cons)

lemmas payload_simps = field_json field_quoted literal_names quoted_literals

lemma iface_payload_json: "iface_payload i = print_json (iface_json i)"
  unfolding iface_payload_def iface_json_def by (simp add: payload_simps)

lemma row_payload_json: "ap_row r = print_json (ap_json r)" "saved_row w = print_json (saved_json w)"
  unfolding ap_row_def ap_json_def saved_row_def saved_json_def by (simp_all add: payload_simps)

lemma snapshot_payload_json:
  assumes "literal_text version"
  shows "snapshot_payload version s = print_json (snapshot_json version s)"
proof -
  have "quote_char # version @ [quote_char] = quoted version"
    using json_escape_literal [OF assms] by (simp add: quoted_def)
  then show ?thesis
    unfolding snapshot_payload_def snapshot_json_def iface_payload_json by (simp add: payload_simps)
qed

lemma rows_payload: "''['' @ row_loop row 0 rs @ '']'' = print_json (JArray (map j rs))" if "\<And>r. row r = print_json (j r)"
proof -
  have "row = (\<lambda>r. print_json (j r))" using that by (rule ext)
  then show ?thesis by (simp add: row_loop_commas comp_def)
qed

lemma wifi_scan_payload_json: "wifi_scan_payload rs = print_json (wifi_scan_json rs)"
  unfolding wifi_scan_payload_def wifi_scan_json_def rows_payload [of ap_row ap_json, OF row_payload_json(1)]
  by (simp add: payload_simps del: print_json.simps) (simp add: payload_simps)

lemma wifi_saved_payload_json: "wifi_saved_payload rs = print_json (wifi_saved_json rs)"
  unfolding wifi_saved_payload_def wifi_saved_json_def rows_payload [of saved_row saved_json, OF row_payload_json(2)]
  by (simp add: payload_simps del: print_json.simps) (simp add: payload_simps)

lemma ethernet_config_payload_json: "ethernet_config_payload c = print_json (ethernet_config_json c)"
  unfolding ethernet_config_payload_def ethernet_config_json_def by (simp add: payload_simps)

lemma wpa_events_payload_json: "wpa_events_payload v = print_json (wpa_events_json v)"
  unfolding wpa_events_payload_def wpa_events_json_def by (simp add: payload_simps)

lemma small_payload_json:
  "ping_payload p = print_json (ping_json p)" "route_policy_payload i = print_json (route_policy_json i)"
  "wifi_enabled_payload e = print_json (wifi_enabled_json e)" "wifi_command_payload c = print_json (wifi_command_json c)"
  unfolding ping_payload_def ping_json_def route_policy_payload_def route_policy_json_def wifi_enabled_payload_def wifi_enabled_json_def
    wifi_command_payload_def wifi_command_json_def by (simp_all add: payload_simps)

lemma wifi_scan_status_payload_json: "wifi_scan_status_payload s = print_json (wifi_scan_status_json s)"
  unfolding wifi_scan_status_payload_def wifi_scan_status_json_def wifi_scan_payload_json by (simp add: payload_simps)

lemma state_changes_payload_json: "state_changes_payload c = print_json (state_changes_json c)"
proof -
  have "literal_text ''eth''" "literal_text ''wifi''" "literal_text ''route''" "literal_text ''dns''" "literal_text ''changed''" by code_simp+
  then have "json_escape ''eth'' = ''eth''" "json_escape ''wifi'' = ''wifi''" "json_escape ''route'' = ''route''" "json_escape ''dns'' = ''dns''"
    "json_escape ''changed'' = ''changed''"
    by (simp_all only: json_escape_literal)
  then show ?thesis
    unfolding state_changes_payload_def state_changes_json_def append_change_def
    by (simp add: field_text_def quoted_def)
qed

end
