(* ===== verification/Business_Dispatch.thy ===== *)
theory Business_Dispatch
  imports Json_Reader Representation Ipc_Codec
begin

text \<open>
  The v1 dispatcher (\<^verbatim>\<open>src/ipc/network_ipc_v1_business_dispatch.cpp\<close>): from a method name and the raw
  parameter text to one call of the daemon and an encoded response. The daemon is the record of
  its methods over a world \<open>'w\<close>. The specification reads a request into a \<open>BusinessCall\<close> or a refusal,
  a pure function, and then performs that one call: the dispatcher is shown equal to it, and its
  answer to be a JSON object of the protocol's shape for every request whatsoever.
\<close>

section \<open>The daemon as the IPC layer sees it\<close>

type_synonym ('a, 'w) daemon_call = "'w \<Rightarrow> 'a NetworkOperationResult \<times> 'w"

record 'w NetworkDaemonOps =
  nd_route_policy_get :: "(RoutePolicyInfo, 'w) daemon_call"
  nd_route_policy_apply :: "RoutePolicy \<Rightarrow> (RoutePolicyInfo, 'w) daemon_call"
  nd_eth_get_config :: "(EthernetConfig, 'w) daemon_call"
  nd_eth_set_dhcp :: "(EthernetConfig, 'w) daemon_call"
  nd_eth_set_static :: "string \<Rightarrow> string \<Rightarrow> string \<Rightarrow> string \<Rightarrow> (EthernetConfig, 'w) daemon_call"
  nd_wifi_scan :: "(WifiApRecord list, 'w) daemon_call"
  nd_wifi_scan_start :: "(WifiScanStatus, 'w) daemon_call"
  nd_wifi_scan_status :: "(WifiScanStatus, 'w) daemon_call"
  nd_wifi_set_enabled :: "bool \<Rightarrow> (WifiEnabledResult, 'w) daemon_call"
  nd_wifi_connect :: "string \<Rightarrow> string \<Rightarrow> (WifiCommandResult, 'w) daemon_call"
  nd_wifi_connect_saved :: "string \<Rightarrow> (WifiCommandResult, 'w) daemon_call"
  nd_wifi_list_saved :: "(WifiSavedNetwork list, 'w) daemon_call"
  nd_wifi_forget :: "string \<Rightarrow> (WifiCommandResult, 'w) daemon_call"
  nd_wifi_set_autoconnect :: "string \<Rightarrow> bool \<Rightarrow> (WifiCommandResult, 'w) daemon_call"
  nd_wifi_disconnect :: "(WifiCommandResult, 'w) daemon_call"
  nd_wpa_events :: "(WpaEventsView, 'w) daemon_call"
  nd_snapshot :: "'w \<Rightarrow> NetworkSnapshot \<times> 'w"
  nd_ping :: "'w \<Rightarrow> PingInfo \<times> 'w"

section \<open>Responses\<close>

definition parse_product_route_policy :: "string \<Rightarrow> RoutePolicy option" where
  "parse_product_route_policy value =
     (if value = ''ethernet_preferred'' then Some EthernetPreferred
      else if value = ''wifi_preferred'' then Some WifiPreferred
      else if value = ''wifi_only'' then Some WifiOnly
      else None)"

definition encode_response_payload :: "string \<Rightarrow> u8 list" where
  "encode_response_payload payload = (case encode_frame Msg_Response payload of (error, frame) \<Rightarrow>
     if error \<noteq> CE_None then [] else frame)"

definition business_error :: "u64 \<Rightarrow> int \<Rightarrow> string \<Rightarrow> string \<Rightarrow> u8 list" where
  "business_error request_id status code msg = encode_response_payload
     (''{'' @ field_text ''requestId'' (show_u64 request_id) @ '','' @ field_int ''status'' status @ '','' @
      field_text ''error'' (''{'' @ field_text ''code'' (quote_char # code @ [quote_char]) @ '','' @
        field_string ''message'' msg @ ''}'') @ ''}'')"

definition business_success :: "u64 \<Rightarrow> int \<Rightarrow> string \<Rightarrow> u8 list" where
  "business_success request_id status payload_json = encode_response_payload
     (''{'' @ field_text ''requestId'' (show_u64 request_id) @ '','' @ field_int ''status'' status @ '','' @
      field_text ''result'' payload_json @ ''}'')"

definition operation_response :: "u64 \<Rightarrow> 'a NetworkOperationResult \<Rightarrow> ('a \<Rightarrow> string) \<Rightarrow> u8 list" where
  "operation_response request_id result payload_encoder =
     (if \<not> op_ok result then business_error request_id (or_status result) ''OPERATION_FAILED'' (or_error result)
      else business_success request_id (or_status result) (payload_encoder (or_value result)))"

definition invalid_params :: "u64 \<Rightarrow> string \<Rightarrow> u8 list" where
  "invalid_params request_id msg = business_error request_id 400 ''INVALID_PARAMS'' msg"

text \<open>\<open>operation_response(request_id, daemon.f(..), encoder)\<close>\<close>

definition respond :: "u64 \<Rightarrow> ('a \<Rightarrow> string) \<Rightarrow> 'a NetworkOperationResult \<times> 'w \<Rightarrow> u8 list \<times> 'w" where
  "respond request_id encoder r = (case r of (result, w) \<Rightarrow> (operation_response request_id result encoder, w))"

section \<open>Dispatch\<close>

definition dispatch_business_request :: "'w NetworkDaemonOps \<Rightarrow> u64 \<Rightarrow> string \<Rightarrow> string \<Rightarrow> 'w \<Rightarrow> u8 list \<times> 'w" where
  "dispatch_business_request daemon request_id method params_json w =
     (if method = ''network.route_policy.get'' then
        respond request_id route_policy_payload (nd_route_policy_get daemon w)
      else if method = ''network.route_policy.apply'' then
        (case read_string params_json ''policy'' of
           Some policy_name \<Rightarrow> (case parse_product_route_policy policy_name of
             Some policy \<Rightarrow> respond request_id route_policy_payload (nd_route_policy_apply daemon policy w)
           | None \<Rightarrow> (invalid_params request_id
               ''network.route_policy.apply requires policy ethernet_preferred, wifi_preferred, or wifi_only'', w))
         | None \<Rightarrow> (invalid_params request_id
               ''network.route_policy.apply requires policy ethernet_preferred, wifi_preferred, or wifi_only'', w))
      else if method = ''eth.get_config'' then
        respond request_id ethernet_config_payload (nd_eth_get_config daemon w)
      else if method = ''eth.set_dhcp'' then
        respond request_id ethernet_config_payload (nd_eth_set_dhcp daemon w)
      else if method = ''eth.set_static'' then
        (case (read_string params_json ''ip'', read_string params_json ''mask'', read_string params_json ''gateway'',
               read_string params_json ''dns'') of
           (Some ip, Some netmask, Some gateway, Some dns) \<Rightarrow>
             respond request_id ethernet_config_payload (nd_eth_set_static daemon ip netmask gateway dns w)
         | _ \<Rightarrow> (invalid_params request_id ''eth.set_static requires string ip/mask/gateway/dns'', w))
      else if method = ''wifi.scan.start'' then
        respond request_id wifi_scan_status_payload (nd_wifi_scan_start daemon w)
      else if method = ''wifi.scan.status'' then
        respond request_id wifi_scan_status_payload (nd_wifi_scan_status daemon w)
      else if method = ''wifi.set_enabled'' then
        (case read_bool params_json ''enabled'' of
           Some enabled \<Rightarrow> respond request_id wifi_enabled_payload (nd_wifi_set_enabled daemon enabled w)
         | None \<Rightarrow> (invalid_params request_id ''wifi.set_enabled requires boolean enabled'', w))
      else if method = ''wifi.connect'' then
        (case (read_string params_json ''ssid'', read_string params_json ''password'') of
           (Some (c # ssid), Some password) \<Rightarrow>
             respond request_id wifi_command_payload (nd_wifi_connect daemon (c # ssid) password w)
         | _ \<Rightarrow> (invalid_params request_id ''wifi.connect requires non-empty string ssid and string password'', w))
      else if method = ''wifi.connect_saved'' then
        (case read_string params_json ''ssid'' of
           Some (c # ssid) \<Rightarrow> respond request_id wifi_command_payload (nd_wifi_connect_saved daemon (c # ssid) w)
         | _ \<Rightarrow> (invalid_params request_id ''wifi.connect_saved requires non-empty string ssid'', w))
      else if method = ''wifi.saved_list'' then
        respond request_id wifi_saved_payload (nd_wifi_list_saved daemon w)
      else if method = ''wifi.forget'' then
        (case read_string params_json ''ssid'' of
           Some (c # ssid) \<Rightarrow> respond request_id wifi_command_payload (nd_wifi_forget daemon (c # ssid) w)
         | _ \<Rightarrow> (invalid_params request_id ''wifi.forget requires non-empty string ssid'', w))
      else if method = ''wifi.autoconnect'' then
        (case (read_string params_json ''ssid'', read_bool params_json ''enabled'') of
           (Some (c # ssid), Some enabled) \<Rightarrow>
             respond request_id wifi_command_payload (nd_wifi_set_autoconnect daemon (c # ssid) enabled w)
         | _ \<Rightarrow> (invalid_params request_id ''wifi.autoconnect requires non-empty string ssid and boolean enabled'', w))
      else if method = ''wifi.disconnect'' then
        respond request_id wifi_command_payload (nd_wifi_disconnect daemon w)
      else (business_error request_id 404 ''METHOD_NOT_FOUND'' ''unknown method'', w))"

section \<open>Specification: typed parameters, then one call\<close>

datatype ptype = PString | PNonEmpty | PBool | PPolicy

datatype arg = AString string | ABool bool | APolicy RoutePolicy

definition read_arg :: "string \<Rightarrow> string \<times> ptype \<Rightarrow> arg option" where
  "read_arg params p = (case p of (name, t) \<Rightarrow> (case t of
     PString \<Rightarrow> map_option AString (read_string params name)
   | PNonEmpty \<Rightarrow> (case read_string params name of Some v \<Rightarrow> if v = [] then None else Some (AString v) | None \<Rightarrow> None)
   | PBool \<Rightarrow> map_option ABool (read_bool params name)
   | PPolicy \<Rightarrow> map_option APolicy (Option.bind (read_string params name) parse_product_route_policy)))"

text \<open>The methods, the types of their parameters and the text of a refusal.\<close>

definition signatures :: "(string \<times> (string \<times> ptype) list \<times> string) list" where
  "signatures =
    [(''network.route_policy.get'', [], []),
     (''network.route_policy.apply'', [(''policy'', PPolicy)],
      ''network.route_policy.apply requires policy ethernet_preferred, wifi_preferred, or wifi_only''),
     (''eth.get_config'', [], []),
     (''eth.set_dhcp'', [], []),
     (''eth.set_static'', [(''ip'', PString), (''mask'', PString), (''gateway'', PString), (''dns'', PString)],
      ''eth.set_static requires string ip/mask/gateway/dns''),
     (''wifi.scan.start'', [], []),
     (''wifi.scan.status'', [], []),
     (''wifi.set_enabled'', [(''enabled'', PBool)], ''wifi.set_enabled requires boolean enabled''),
     (''wifi.connect'', [(''ssid'', PNonEmpty), (''password'', PString)],
      ''wifi.connect requires non-empty string ssid and string password''),
     (''wifi.connect_saved'', [(''ssid'', PNonEmpty)], ''wifi.connect_saved requires non-empty string ssid''),
     (''wifi.saved_list'', [], []),
     (''wifi.forget'', [(''ssid'', PNonEmpty)], ''wifi.forget requires non-empty string ssid''),
     (''wifi.autoconnect'', [(''ssid'', PNonEmpty), (''enabled'', PBool)],
      ''wifi.autoconnect requires non-empty string ssid and boolean enabled''),
     (''wifi.disconnect'', [], [])]"

definition perform :: "'w NetworkDaemonOps \<Rightarrow> u64 \<Rightarrow> string \<Rightarrow> arg list \<Rightarrow> 'w \<Rightarrow> u8 list \<times> 'w" where
  "perform daemon rid method args w = (case args of
     [] \<Rightarrow>
       if method = ''network.route_policy.get'' then respond rid route_policy_payload (nd_route_policy_get daemon w)
       else if method = ''eth.get_config'' then respond rid ethernet_config_payload (nd_eth_get_config daemon w)
       else if method = ''eth.set_dhcp'' then respond rid ethernet_config_payload (nd_eth_set_dhcp daemon w)
       else if method = ''wifi.scan.start'' then respond rid wifi_scan_status_payload (nd_wifi_scan_start daemon w)
       else if method = ''wifi.scan.status'' then respond rid wifi_scan_status_payload (nd_wifi_scan_status daemon w)
       else if method = ''wifi.saved_list'' then respond rid wifi_saved_payload (nd_wifi_list_saved daemon w)
       else respond rid wifi_command_payload (nd_wifi_disconnect daemon w)
   | [APolicy policy] \<Rightarrow> respond rid route_policy_payload (nd_route_policy_apply daemon policy w)
   | [ABool enabled] \<Rightarrow> respond rid wifi_enabled_payload (nd_wifi_set_enabled daemon enabled w)
   | [AString ssid] \<Rightarrow>
       if method = ''wifi.forget'' then respond rid wifi_command_payload (nd_wifi_forget daemon ssid w)
       else respond rid wifi_command_payload (nd_wifi_connect_saved daemon ssid w)
   | [AString ssid, AString password] \<Rightarrow> respond rid wifi_command_payload (nd_wifi_connect daemon ssid password w)
   | [AString ssid, ABool enabled] \<Rightarrow> respond rid wifi_command_payload (nd_wifi_set_autoconnect daemon ssid enabled w)
   | [AString ip, AString netmask, AString gateway, AString dns] \<Rightarrow>
       respond rid ethernet_config_payload (nd_eth_set_static daemon ip netmask gateway dns w)
   | _ \<Rightarrow> ([], w))"

definition typed_dispatch :: "'w NetworkDaemonOps \<Rightarrow> u64 \<Rightarrow> string \<Rightarrow> string \<Rightarrow> 'w \<Rightarrow> u8 list \<times> 'w" where
  "typed_dispatch daemon rid method params w = (case map_of signatures method of
     None \<Rightarrow> (business_error rid 404 ''METHOD_NOT_FOUND'' ''unknown method'', w)
   | Some (types, usage) \<Rightarrow> (case those (map (read_arg params) types) of
       None \<Rightarrow> (invalid_params rid usage, w)
     | Some args \<Rightarrow> perform daemon rid method args w))"

lemma known_methods:
  assumes "method \<in> fst ` set signatures"
  shows "dispatch_business_request daemon rid method params w = typed_dispatch daemon rid method params w"
proof -
  have "method \<in> set (map fst signatures)" using assms by simp
  then show ?thesis
    unfolding signatures_def list.map fst_conv list.set insert_iff empty_iff
    by (elim disjE FalseE; hypsubst)
      (simp_all add: dispatch_business_request_def typed_dispatch_def signatures_def read_arg_def perform_def
        split: option.splits list.splits)
qed

section \<open>Answers are protocol objects\<close>

definition protocol_answer :: "u64 \<Rightarrow> json \<Rightarrow> bool" where
  "protocol_answer rid j \<longleftrightarrow>
     (\<exists>status r. 200 \<le> status \<and> status < 300 \<and>
        j = JObject [(''requestId'', JNumber (uint rid)), (''status'', JNumber status), (''result'', r)])
   \<or> (\<exists>status code msg. \<not> (200 \<le> status \<and> status < 300) \<and>
        j = JObject [(''requestId'', JNumber (uint rid)), (''status'', JNumber status),
              (''error'', JObject [(''code'', JString code), (''message'', JString msg)])])"

definition answers :: "u64 \<Rightarrow> u8 list \<Rightarrow> bool" where
  "answers rid frame \<longleftrightarrow> (\<exists>j. protocol_answer rid j \<and> frame = encode_response_payload (print_json j))"

lemma show_u64_int: "show_u64 w = print_json (JNumber (uint w))"
  by (simp add: show_u64_def show_int_def)

lemma answer_names:
  "literal_text ''requestId''" "literal_text ''status''" "literal_text ''result''" "literal_text ''error''"
  "literal_text ''code''" "literal_text ''message''" "literal_text ''OPERATION_FAILED''" "literal_text ''INVALID_PARAMS''"
  "literal_text ''METHOD_NOT_FOUND''"
  by code_simp+

lemma business_error_answers:
  assumes "literal_text code" and "\<not> (200 \<le> status \<and> status < 300)"
  shows "answers rid (business_error rid status code msg)"
proof -
  let ?e = "JObject [(''code'', JString code), (''message'', JString msg)]"
  let ?j = "JObject [(''requestId'', JNumber (uint rid)), (''status'', JNumber status), (''error'', ?e)]"
  have c: "quote_char # code @ [quote_char] = quoted code" using json_escape_literal [OF assms(1)] by (simp add: quoted_def)
  have "''{'' @ field_text ''code'' (quote_char # code @ [quote_char]) @ '','' @ field_string ''message'' msg @ ''}'' = print_json ?e"
    unfolding c by (simp add: field_json field_quoted answer_names)
  then have "business_error rid status code msg = encode_response_payload (print_json ?j)"
    unfolding business_error_def show_u64_int by (simp add: field_json answer_names del: print_json.simps) (simp add: field_json)
  moreover have "protocol_answer rid ?j" using assms(2) unfolding protocol_answer_def by blast
  ultimately show ?thesis unfolding answers_def by blast
qed

lemma business_success_answers:
  assumes "200 \<le> status" and "status < 300"
  shows "answers rid (business_success rid status (print_json r))"
proof -
  let ?j = "JObject [(''requestId'', JNumber (uint rid)), (''status'', JNumber status), (''result'', r)]"
  have "business_success rid status (print_json r) = encode_response_payload (print_json ?j)"
    unfolding business_success_def show_u64_int field_json [OF answer_names(1)] field_json [OF answer_names(2)]
      field_json [OF answer_names(3)] by simp
  moreover have "protocol_answer rid ?j" using assms unfolding protocol_answer_def by blast
  ultimately show ?thesis unfolding answers_def by blast
qed

lemma respond_answers:
  assumes "\<And>x. encoder x = print_json (value_of x)"
  shows "answers rid (fst (respond rid encoder r))"
proof (cases r)
  case (Pair result w)
  then show ?thesis
    using business_error_answers [OF answer_names(7), of "or_status result" rid "or_error result"]
      business_success_answers [of "or_status result" rid "value_of (or_value result)"]
    by (simp add: respond_def operation_response_def op_ok_def assms)
qed

lemmas payload_answers =
  respond_answers [of route_policy_payload route_policy_json, OF small_payload_json(2)]
  respond_answers [of wifi_enabled_payload wifi_enabled_json, OF small_payload_json(3)]
  respond_answers [of wifi_command_payload wifi_command_json, OF small_payload_json(4)]
  respond_answers [of ethernet_config_payload ethernet_config_json, OF ethernet_config_payload_json]
  respond_answers [of wifi_saved_payload wifi_saved_json, OF wifi_saved_payload_json]
  respond_answers [of wifi_scan_status_payload wifi_scan_status_json, OF wifi_scan_status_payload_json]

lemma refusal_answers:
  "answers rid (invalid_params rid msg)" "answers rid (business_error rid 404 ''METHOD_NOT_FOUND'' msg)"
  using business_error_answers [OF answer_names(8), of 400] business_error_answers [OF answer_names(9), of 404]
  by (simp_all add: invalid_params_def)

lemma unknown_method:
  assumes "method \<notin> fst ` set signatures"
  shows "dispatch_business_request daemon rid method params w = (business_error rid 404 ''METHOD_NOT_FOUND'' ''unknown method'', w)"
  using assms unfolding signatures_def dispatch_business_request_def by simp

lemma answers_if:
  "answers rid (fst a) \<Longrightarrow> answers rid (fst b) \<Longrightarrow> answers rid (fst (if c then a else b))"
  by simp

lemma dispatch_answers: "answers rid (fst (dispatch_business_request daemon rid method params w))"
  unfolding dispatch_business_request_def
  by (intro answers_if) (auto simp: payload_answers refusal_answers split: option.split list.split)

section \<open>Properties\<close>

text \<open>C33: the dispatcher type-checks and then calls: an unknown method is refused with 404 and a
  request with a parameter that is missing, repeated or of the wrong type with 400 and the
  method's usage, both without any call of the daemon; every other request is exactly one call
  with the parameters read at their declared types.\<close>
theorem dispatch_type_checks:
  "dispatch_business_request daemon rid method params w = typed_dispatch daemon rid method params w"
proof (cases "method \<in> fst ` set signatures")
  case True
  then show ?thesis by (rule known_methods)
next
  case False
  then have "map_of signatures method = None" by (simp add: map_of_eq_None_iff)
  then show ?thesis using unknown_method [OF False] by (simp add: typed_dispatch_def)
qed

text \<open>C34: whatever the method, the parameter bytes and the daemon's result, the response is the
  frame of a JSON object with the request's own id, a status and either a result (statuses 200
  to 299) or an error with code and message; it is empty only when that object exceeds the
  maximal payload.\<close>
theorem dispatch_answers_typed:
  "\<exists>j. protocol_answer rid j
     \<and> fst (dispatch_business_request daemon rid method params w) = encode_response_payload (print_json j)
     \<and> (encode_response_payload (print_json j) = [] \<longleftrightarrow> length (print_json j) > kMaxPayloadBytes)"
proof -
  have "encode_response_payload p = [] \<longleftrightarrow> length p > kMaxPayloadBytes" for p
    using encode_frame_nonempty [of p Msg_Response] by (auto simp: encode_response_payload_def encode_frame_eq)
  then show ?thesis using dispatch_answers [of rid daemon "method" params w] unfolding answers_def by blast
qed

end
