(* ===== verification/V0_Request.thy ===== *)
theory V0_Request
  imports Business_Dispatch
begin

text \<open>
  The v0 protocol of \<^verbatim>\<open>src/ipc/network_ipc_server.cpp\<close>: a request line searched for its fields by
  substring, and \<open>handle_request\<close>, which answers it with one call of the daemon. The daemon record is
  the one of the v1 dispatcher.
\<close>

section \<open>Field extraction\<close>

text \<open>\<open>request.find(..)\<close>: the rest after the first occurrence.\<close>

fun after_first :: "string \<Rightarrow> string \<Rightarrow> string option" where
  "after_first key [] = (if key = [] then Some [] else None)"
| "after_first key (c # s) = (if starts_with key (c # s) then Some (drop (length key) (c # s)) else after_first key s)"

fun json_unescape :: "string \<Rightarrow> string" where
  "json_unescape [] = []"
| "json_unescape [c] = [c]"
| "json_unescape (c # d # s) =
     (if c \<noteq> backslash then c # json_unescape (d # s)
      else (if d = CHR ''n'' then CHR 0x0A else if d = CHR ''r'' then CHR 0x0D else if d = CHR ''t'' then CHR 0x09 else d)
        # json_unescape s)"

text \<open>The character loop of \<open>extract_json_string\<close>: the flag \<open>escaped\<close> and \<open>raw\<close>; None when the
  closing quote is missing.\<close>

fun raw_string :: "bool \<Rightarrow> string \<Rightarrow> string \<Rightarrow> string option" where
  "raw_string escaped raw [] = None"
| "raw_string escaped raw (ch # s) =
     (if escaped then raw_string False (raw @ [backslash, ch]) s
      else if ch = backslash then raw_string True raw s
      else if ch = quote_char then Some raw
      else raw_string False (raw @ [ch]) s)"

definition extract_json_string :: "string \<Rightarrow> string \<Rightarrow> string" where
  "extract_json_string request field =
     (case after_first (quote_char # field @ [quote_char]) request of
        None \<Rightarrow> []
      | Some s1 \<Rightarrow> (case after_first '':'' s1 of
          None \<Rightarrow> []
        | Some s2 \<Rightarrow> (case after_first [quote_char] s2 of
            None \<Rightarrow> []
          | Some s3 \<Rightarrow> (case raw_string False [] s3 of None \<Rightarrow> [] | Some raw \<Rightarrow> json_unescape raw))))"

definition extract_method :: "string \<Rightarrow> string" where
  "extract_method request = extract_json_string request ''method''"

section \<open>Requests\<close>

definition v0_operation_response :: "'a NetworkOperationResult \<Rightarrow> ('a \<Rightarrow> string) \<Rightarrow> string" where
  "v0_operation_response result payload_encoder =
     (if \<not> op_ok result then v0_error (or_status result) (or_error result)
      else v0_success (or_status result) (payload_encoder (or_value result)))"

definition v0_respond :: "('a \<Rightarrow> string) \<Rightarrow> 'a NetworkOperationResult \<times> 'w \<Rightarrow> string \<times> 'w" where
  "v0_respond encoder r = (case r of (result, w) \<Rightarrow> (v0_operation_response result encoder, w))"

definition v0_bool :: "string \<Rightarrow> bool" where
  "v0_bool enabled \<longleftrightarrow> enabled = ''1'' \<or> enabled = ''true''"

definition v0_response :: "string \<Rightarrow> 'w NetworkDaemonOps \<Rightarrow> string \<Rightarrow> 'w \<Rightarrow> string \<times> 'w" where
  "v0_response version daemon request w =
     (let method = extract_method request; arg = extract_json_string request in
      if method = ''network.ping'' then (case nd_ping daemon w of (info, w1) \<Rightarrow> (v0_success 200 (ping_payload info), w1))
      else if method = ''network.snapshot'' \<or> method = [] then
        (case nd_snapshot daemon w of (snap, w1) \<Rightarrow> (v0_success 200 (snapshot_payload version snap), w1))
      else if method = ''eth.get_config'' then v0_respond ethernet_config_payload (nd_eth_get_config daemon w)
      else if method = ''eth.set_dhcp'' then v0_respond ethernet_config_payload (nd_eth_set_dhcp daemon w)
      else if method = ''eth.set_static'' then
        v0_respond ethernet_config_payload (nd_eth_set_static daemon (arg ''ip'') (arg ''mask'') (arg ''gateway'') (arg ''dns'') w)
      else if method = ''wpa.events'' then v0_respond wpa_events_payload (nd_wpa_events daemon w)
      else if method = ''wifi.scan'' then v0_respond wifi_scan_payload (nd_wifi_scan daemon w)
      else if method = ''wifi.set_enabled'' then
        v0_respond wifi_enabled_payload (nd_wifi_set_enabled daemon (v0_bool (arg ''enabled'')) w)
      else if method = ''wifi.connect'' then
        v0_respond wifi_command_payload (nd_wifi_connect daemon (arg ''ssid'') (arg ''password'') w)
      else if method = ''wifi.connect_saved'' then v0_respond wifi_command_payload (nd_wifi_connect_saved daemon (arg ''ssid'') w)
      else if method = ''wifi.saved_list'' then v0_respond wifi_saved_payload (nd_wifi_list_saved daemon w)
      else if method = ''wifi.forget'' then v0_respond wifi_command_payload (nd_wifi_forget daemon (arg ''ssid'') w)
      else if method = ''wifi.autoconnect'' then
        v0_respond wifi_command_payload (nd_wifi_set_autoconnect daemon (arg ''ssid'') (v0_bool (arg ''enabled'')) w)
      else if method = ''wifi.disconnect'' then v0_respond wifi_command_payload (nd_wifi_disconnect daemon w)
      else (v0_error 404 ''unknown method'', w))"

definition v0_handle_request :: "string \<Rightarrow> 'w NetworkDaemonOps \<Rightarrow> string \<Rightarrow> 'w \<Rightarrow> string \<times> 'w" where
  "v0_handle_request version daemon request w = (case v0_response version daemon request w of (response, w1) \<Rightarrow>
     (response @ [CHR 0x0A], w1))"

end
