(* ===== verification/Ipc_Server.thy ===== *)
theory Ipc_Server
  imports V0_Request Ipc_Outbound Ipc_Event Ipc_Session
begin

text \<open>
  The IPC server (\<^verbatim>\<open>src/ipc/network_ipc_server.cpp\<close>): the client table and the body of the poll loop.
  A reference to a client is its index in the table, since \<open>broadcast_event\<close> reaches every client
  while one of them is being served. The clock counts nanoseconds. The sockets, the clock and
  the daemon are ports over a world \<open>'w\<close>; a call that is interrupted by a signal is repeated by
  every loop with nothing changed, so the ports stand for the call after such repetitions. Log
  output and the two descriptors of the wake pipe are left out: a wake-up is a result of \<open>poll\<close>.
\<close>

section \<open>State\<close>

definition kMaxRequestBytes :: nat where "kMaxRequestBytes = 64 * 1024"
definition kMaxActiveClients :: nat where "kMaxActiveClients = 8"
definition kReadBudgetPerTick :: nat where "kReadBudgetPerTick = 16 * 1024"
definition kWriteBudgetPerTick :: nat where "kWriteBudgetPerTick = 64 * 1024"
definition kFramesPerClientTick :: nat where "kFramesPerClientTick = 4"

text \<open>Durations, in nanoseconds.\<close>

definition milliseconds :: "int \<Rightarrow> int" where "milliseconds n = n * 1000000"
definition kClientHandshakeIdleTimeout :: int where "kClientHandshakeIdleTimeout = milliseconds 1000"
definition kLeaseReconcileInterval :: int where "kLeaseReconcileInterval = milliseconds 250"
definition kFallbackStateObservationInterval :: int where "kFallbackStateObservationInterval = milliseconds (30 * 1000)"
definition kWriteStallTimeout :: int where "kWriteStallTimeout = milliseconds kDefaultWriteStallTimeoutMs"

datatype ClientProtocol = Undecided | V0 | V1

record ClientState =
  cl_fd :: int
  cl_protocol :: ClientProtocol
  cl_initial :: "u8 list"
  cl_v0_request :: string
  cl_session :: "Session option"
  cl_decoder :: FrameDecoder
  cl_outbound :: OutboundQueue
  cl_last_input_activity :: int
  cl_write_progress_at :: int
  cl_write_timer_active :: bool
  cl_close_after_flush :: bool
  cl_closed :: bool

definition new_client :: "int \<Rightarrow> int \<Rightarrow> ClientState" where
  "new_client fd now = \<lparr> cl_fd = fd, cl_protocol = Undecided, cl_initial = [], cl_v0_request = [], cl_session = None,
     cl_decoder = FrameDecoder_default, cl_outbound = new_queue kDefaultOutboundMaxFrames kDefaultOutboundMaxBytes,
     cl_last_input_activity = now, cl_write_progress_at = now, cl_write_timer_active = False,
     cl_close_after_flush = False, cl_closed = False \<rparr>"

record 'w Server =
  sv_clients :: "ClientState list"
  sv_detector :: NetworkStateChangeDetector
  sv_next_lease_reconcile :: int
  sv_next_fallback_observation :: int
  sv_running :: bool
  sv_generation :: u64
  sv_next_session_sequence :: u64
  sv_sequencer :: EventSequencer
  sv_listen_fd :: int
  sv_socket_path :: string
  sv_world :: 'w

datatype write_outcome = Wrote nat | Write_EAGAIN | Write_failed
datatype recv_outcome = Received "u8 list" | Recv_EAGAIN | Recv_failed

text \<open>The bits of a client's \<open>revents\<close> (\<open>POLLNVAL\<close> counts as an error), and what \<open>poll\<close> reports: the wake pipe, the
  daemon's event descriptor, the listening socket and the clients in the order polled.\<close>

record Revents =
  re_err :: bool
  re_in :: bool
  re_out :: bool
  re_hup :: bool

record PollResult =
  pr_wake :: bool
  pr_network :: bool
  pr_listen_error :: bool
  pr_listen_in :: bool
  pr_clients :: "Revents list"

text \<open>\<open>ip_poll\<close> is \<open>None\<close> when \<open>poll\<close> fails or times out; it takes each client's descriptor with whether output is
  waited for, and the timeout. \<open>ip_accept\<close> gives the descriptors that \<open>accept\<close> returns until it fails.\<close>

record 'w ServerPorts =
  ip_version :: string
  ip_daemon :: "'w NetworkDaemonOps"
  ip_reconcile :: "'w \<Rightarrow> bool \<times> 'w"
  ip_runtime_dirty :: "'w \<Rightarrow> bool \<times> 'w"
  ip_refresh :: "'w \<Rightarrow> 'w"
  ip_consume_events :: "'w \<Rightarrow> bool \<times> bool \<times> 'w"
  ip_now :: "'w \<Rightarrow> int \<times> 'w"
  ip_send :: "int \<Rightarrow> u8 list \<Rightarrow> 'w \<Rightarrow> write_outcome \<times> 'w"
  ip_recv :: "int \<Rightarrow> nat \<Rightarrow> 'w \<Rightarrow> recv_outcome \<times> 'w"
  ip_shutdown :: "int \<Rightarrow> 'w \<Rightarrow> 'w"
  ip_close :: "int \<Rightarrow> 'w \<Rightarrow> 'w"
  ip_poll :: "(int \<times> bool) list \<Rightarrow> int \<Rightarrow> 'w \<Rightarrow> PollResult option \<times> 'w"
  ip_accept :: "int \<Rightarrow> 'w \<Rightarrow> int list \<times> 'w"
  ip_nonblocking :: "int \<Rightarrow> 'w \<Rightarrow> bool \<times> 'w"
  ip_socket :: "'w \<Rightarrow> int \<times> 'w"
  ip_bind :: "int \<Rightarrow> string \<Rightarrow> 'w \<Rightarrow> bool \<times> 'w"
  ip_listen :: "int \<Rightarrow> nat \<Rightarrow> 'w \<Rightarrow> bool \<times> 'w"
  ip_unlink :: "string \<Rightarrow> 'w \<Rightarrow> 'w"
  ip_chmod :: "string \<Rightarrow> nat \<Rightarrow> 'w \<Rightarrow> 'w"

definition make_server_generation :: "u64 \<Rightarrow> u64 \<Rightarrow> u64" where
  "make_server_generation now pid = (let g = xor now (push_bit 32 pid) in if g = 0 then 1 else g)"

definition starts_with_v1_magic :: "u8 list \<Rightarrow> bool" where
  "starts_with_v1_magic data \<longleftrightarrow> length data \<ge> 4 \<and> take 4 data = kMagic"

section \<open>Access\<close>

definition client :: "'w Server \<Rightarrow> nat \<Rightarrow> ClientState" where
  "client s i = sv_clients s ! i"

definition upd_client :: "nat \<Rightarrow> (ClientState \<Rightarrow> ClientState) \<Rightarrow> 'w Server \<Rightarrow> 'w Server" where
  "upd_client i f s = s\<lparr> sv_clients := (sv_clients s)[i := f (client s i)] \<rparr>"

definition set_closed :: "nat \<Rightarrow> 'w Server \<Rightarrow> 'w Server" where
  "set_closed i = upd_client i (\<lambda>c. c\<lparr> cl_closed := True \<rparr>)"

definition read_clock :: "'w ServerPorts \<Rightarrow> 'w Server \<Rightarrow> int \<times> 'w Server" where
  "read_clock p s = (case ip_now p (sv_world s) of (t, w) \<Rightarrow> (t, s\<lparr> sv_world := w \<rparr>))"

definition close_fd :: "'w ServerPorts \<Rightarrow> ClientState \<Rightarrow> 'w Server \<Rightarrow> 'w Server" where
  "close_fd p c s = (if cl_fd c \<ge> 0 then s\<lparr> sv_world := ip_close p (cl_fd c) (ip_shutdown p (cl_fd c) (sv_world s)) \<rparr> else s)"

definition cleanup_clients :: "'w ServerPorts \<Rightarrow> 'w Server \<Rightarrow> 'w Server" where
  "cleanup_clients p s = (fold (close_fd p) (filter cl_closed (sv_clients s)) s)
     \<lparr> sv_clients := filter (\<lambda>c. \<not> cl_closed c) (sv_clients s) \<rparr>"

section \<open>Output\<close>

definition start_write_timer :: "'w ServerPorts \<Rightarrow> nat \<Rightarrow> 'w Server \<Rightarrow> 'w Server" where
  "start_write_timer p i s = (case read_clock p s of (now, s1) \<Rightarrow>
     upd_client i (\<lambda>c. c\<lparr> cl_write_timer_active := True, cl_write_progress_at := now \<rparr>) s1)"

definition enqueue_frame :: "'w ServerPorts \<Rightarrow> nat \<Rightarrow> u8 list \<Rightarrow> 'w Server \<Rightarrow> bool \<times> 'w Server" where
  "enqueue_frame p i frame s =
     (let was_empty = queue_empty (cl_outbound (client s i)) in
      case enqueue frame (cl_outbound (client s i)) of (result, q) \<Rightarrow>
        let s1 = upd_client i (\<lambda>c. c\<lparr> cl_outbound := q \<rparr>) s in
        if result = OE_Accepted then (True, if was_empty then start_write_timer p i s1 else s1)
        else (False, set_closed i s1))"

definition receives_events :: "ClientState \<Rightarrow> bool" where
  "receives_events c \<longleftrightarrow> \<not> cl_closed c \<and> cl_protocol c = V1 \<and>
     (case cl_session c of None \<Rightarrow> False | Some ss \<Rightarrow> ss_state ss = Ready \<and> ss_events_subscribed ss)"

definition broadcast_event :: "'w ServerPorts \<Rightarrow> string \<Rightarrow> string \<Rightarrow> 'w Server \<Rightarrow> bool \<times> 'w Server" where
  "broadcast_event p event_name payload_json s =
     (case encode_event event_name payload_json (sv_sequencer s) of (event, es) \<Rightarrow>
      let s1 = s\<lparr> sv_sequencer := es \<rparr> in
      if event = [] then (False, s1)
      else (True, fold (\<lambda>i t. if receives_events (client t i) then snd (enqueue_frame p i event t) else t)
                    [0..<length (sv_clients s1)] s1))"

definition observe_state :: "'w ServerPorts \<Rightarrow> 'w Server \<Rightarrow> 'w Server" where
  "observe_state p s = (case nd_snapshot (ip_daemon p) (sv_world s) of (snap, w) \<Rightarrow>
     case observe snap (sv_detector s) of (changes, d) \<Rightarrow>
     let s1 = s\<lparr> sv_world := w, sv_detector := d \<rparr> in
     if \<not> changes_any changes then s1
     else snd (broadcast_event p ''network.state.changed'' (state_changes_payload changes) s1))"

definition reconcile_if_due :: "'w ServerPorts \<Rightarrow> 'w Server \<Rightarrow> 'w Server" where
  "reconcile_if_due p s = (case read_clock p s of (now, s1) \<Rightarrow>
     if now < sv_next_lease_reconcile s1 then s1
     else case ip_reconcile p (sv_world s1) of (lease_changed, w1) \<Rightarrow>
       case ip_runtime_dirty p w1 of (runtime_dirty, w2) \<Rightarrow>
       let s2 = s1\<lparr> sv_next_lease_reconcile := now + kLeaseReconcileInterval, sv_world := w2 \<rparr> in
       if lease_changed \<or> runtime_dirty then observe_state p s2 else s2)"

definition fallback_observation_if_due :: "'w ServerPorts \<Rightarrow> 'w Server \<Rightarrow> 'w Server" where
  "fallback_observation_if_due p s = (case read_clock p s of (now, s1) \<Rightarrow>
     if now < sv_next_fallback_observation s1 then s1
     else observe_state p (s1\<lparr> sv_next_fallback_observation := now + kFallbackStateObservationInterval,
       sv_world := ip_refresh p (sv_world s1) \<rparr>))"

definition consume_network_events :: "'w ServerPorts \<Rightarrow> 'w Server \<Rightarrow> 'w Server" where
  "consume_network_events p s = (case ip_consume_events p (sv_world s) of (ok, changed, w) \<Rightarrow>
     let s1 = s\<lparr> sv_world := w \<rparr> in if ok \<and> changed then observe_state p s1 else s1)"

text \<open>The write loop; the flag tells whether the code after it runs.\<close>

function flush_loop :: "'w ServerPorts \<Rightarrow> nat \<Rightarrow> nat \<Rightarrow> 'w Server \<Rightarrow> bool \<times> 'w Server" where
  "flush_loop p i budget s =
     (let q = cl_outbound (client s i) in
      if queue_empty q \<or> budget = 0 then (True, s)
      else let attempt = min (front_size q) budget in
        case ip_send p (cl_fd (client s i)) (take attempt (front_data q)) (sv_world s) of (r, w) \<Rightarrow>
        let s1 = s\<lparr> sv_world := w \<rparr> in
        case r of
          Wrote n \<Rightarrow>
            (let consumed = min n attempt in
             if consumed = 0 then (False, set_closed i s1)
             else case consume consumed q of (ok, q1) \<Rightarrow>
               let s2 = upd_client i (\<lambda>c. c\<lparr> cl_outbound := q1 \<rparr>) s1 in
               if \<not> ok then (False, set_closed i s2)
               else case read_clock p s2 of (now, s3) \<Rightarrow>
                 flush_loop p i (budget - consumed) (upd_client i (\<lambda>c. c\<lparr> cl_write_progress_at := now,
                   cl_write_timer_active := \<not> queue_empty q1 \<rparr>) s3))
        | Write_EAGAIN \<Rightarrow> (False, if \<not> cl_write_timer_active (client s1 i) then start_write_timer p i s1 else s1)
        | _ \<Rightarrow> (False, set_closed i s1))"
  by pat_completeness auto
termination by (relation "measure (\<lambda>(p, i, budget, s). budget)") auto

declare flush_loop.simps [simp del]

definition flush_client :: "'w ServerPorts \<Rightarrow> nat \<Rightarrow> 'w Server \<Rightarrow> 'w Server" where
  "flush_client p i s =
     (let c = client s i in
      if cl_closed c \<or> queue_empty (cl_outbound c) then
        (if queue_empty (cl_outbound c)
         then upd_client i (\<lambda>c. c\<lparr> cl_write_timer_active := False, cl_closed := cl_closed c \<or> cl_close_after_flush c \<rparr>) s
         else s)
      else case flush_loop p i kWriteBudgetPerTick s of (go, s1) \<Rightarrow>
        if \<not> go then s1
        else if queue_empty (cl_outbound (client s1 i)) then
          upd_client i (\<lambda>c. c\<lparr> cl_write_timer_active := False, cl_closed := cl_closed c \<or> cl_close_after_flush c \<rparr>) s1
        else if \<not> cl_write_timer_active (client s1 i) then start_write_timer p i s1 else s1)"

section \<open>Requests\<close>

definition put_session :: "Session \<Rightarrow> FrameDecoder \<Rightarrow> nat \<Rightarrow> 'w Server \<Rightarrow> 'w Server" where
  "put_session ss d i = upd_client i (\<lambda>c. c\<lparr> cl_session := Some ss, cl_decoder := d \<rparr>)"

text \<open>\<open>if (response.empty() || !enqueue_frame(..)) client.closed = true\<close>\<close>

definition send_or_close :: "'w ServerPorts \<Rightarrow> nat \<Rightarrow> u8 list \<Rightarrow> 'w Server \<Rightarrow> bool \<times> 'w Server" where
  "send_or_close p i response s =
     (if response = [] then (False, set_closed i s)
      else case enqueue_frame p i response s of (ok, s1) \<Rightarrow> if ok then (True, s1) else (False, set_closed i s1))"

definition run_server_action :: "'w ServerPorts \<Rightarrow> nat \<Rightarrow> HandleResult \<Rightarrow> 'w Server \<Rightarrow> bool \<times> 'w Server" where
  "run_server_action p i result s = (case hr_server_action result of
     EmitEventsSubscribed \<Rightarrow> (case broadcast_event p ''network.events.subscribed'' ''{}'' s of (ok, s1) \<Rightarrow>
       if ok then (True, s1) else (False, set_closed i s1))
   | SendAuthoritativeSnapshot \<Rightarrow> (case nd_snapshot (ip_daemon p) (sv_world s) of (snap, w) \<Rightarrow>
       send_or_close p i (encode_snapshot_response (hr_action_request_id result) (sv_generation s)
         (es_last_sequence (sv_sequencer s)) (snapshot_payload (ip_version p) snap)) (s\<lparr> sv_world := w \<rparr>))
   | DispatchBusinessRequest \<Rightarrow>
       (case dispatch_business_request (ip_daemon p) (hr_action_request_id result) (hr_action_method result)
               (hr_action_params_json result) (sv_world s) of (response, w) \<Rightarrow>
         send_or_close p i response (s\<lparr> sv_world := w \<rparr>))
   | Act_None \<Rightarrow> (True, s))"

definition enqueue_response :: "'w ServerPorts \<Rightarrow> nat \<Rightarrow> u8 list \<Rightarrow> 'w Server \<Rightarrow> bool \<times> 'w Server" where
  "enqueue_response p i response s = (if response = [] then (True, s) else enqueue_frame p i response s)"

definition process_v1_frame :: "'w ServerPorts \<Rightarrow> nat \<Rightarrow> 'w Server \<Rightarrow> bool \<times> 'w Server" where
  "process_v1_frame p i s = (case (cl_session (client s i), take_frame (cl_decoder (client s i))) of
     (Some ss, Some (frame, d)) \<Rightarrow>
       if cl_closed (client s i) then (False, s)
       else case handle_frame frame ss of (result, ss1) \<Rightarrow>
         let s1 = put_session ss1 d i s in
         case enqueue_response p i (hr_response result) s1 of (ok, s2) \<Rightarrow>
         if \<not> ok then (False, s2)
         else case run_server_action p i result s2 of (ok1, s3) \<Rightarrow>
           if \<not> ok1 then (False, s3)
           else let s4 = (if hr_close_after_send result then upd_client i (\<lambda>c. c\<lparr> cl_close_after_flush := True \<rparr>) s3 else s3) in
             (\<not> cl_closed (client s4 i), s4)
   | _ \<Rightarrow> (False, s))"

primrec service_loop :: "'w ServerPorts \<Rightarrow> nat \<Rightarrow> nat \<Rightarrow> 'w Server \<Rightarrow> 'w Server" where
  "service_loop p i 0 s = s"
| "service_loop p i (Suc n) s =
     (let c = client s i in
      if cl_closed c \<or> cl_close_after_flush c \<or> \<not> queue_empty (cl_outbound c) \<or> \<not> has_frame (cl_decoder c) then s
      else case process_v1_frame p i s of (ok, s1) \<Rightarrow>
        if \<not> ok then s1
        else service_loop p i n (if queue_empty (cl_outbound (client s1 i)) then s1 else flush_client p i s1))"

definition service_buffered_v1 :: "'w ServerPorts \<Rightarrow> nat \<Rightarrow> 'w Server \<Rightarrow> 'w Server" where
  "service_buffered_v1 p i s =
     (if cl_protocol (client s i) \<noteq> V1 \<or> cl_session (client s i) = None \<or> cl_closed (client s i) then s
      else service_loop p i kFramesPerClientTick s)"

definition complete_v0_if_ready :: "'w ServerPorts \<Rightarrow> nat \<Rightarrow> 'w Server \<Rightarrow> 'w Server" where
  "complete_v0_if_ready p i s =
     (let c = client s i in
      if cl_protocol c \<noteq> V0 \<or> cl_closed c \<or> cl_close_after_flush c \<or> CHR 0x0A \<notin> set (cl_v0_request c) then s
      else case v0_handle_request (ip_version p) (ip_daemon p) (cl_v0_request c) (sv_world s) of (response, w) \<Rightarrow>
        case enqueue_frame p i (map byte_of_char response) (s\<lparr> sv_world := w \<rparr>) of (ok, s1) \<Rightarrow>
          if \<not> ok then s1 else flush_client p i (upd_client i (\<lambda>c. c\<lparr> cl_close_after_flush := True \<rparr>) s1))"

definition session_name :: "u64 \<Rightarrow> u64 \<Rightarrow> string" where
  "session_name generation n = ''ns-'' @ show_u64 generation @ ''-'' @ show_u64 n"

definition commit_protocol_if_possible :: "'w ServerPorts \<Rightarrow> nat \<Rightarrow> 'w Server \<Rightarrow> 'w Server" where
  "commit_protocol_if_possible p i s =
     (let c = client s i in
      if cl_protocol c \<noteq> Undecided \<or> length (cl_initial c) < 4 \<or> cl_closed c then s
      else if starts_with_v1_magic (cl_initial c) then
        (case feed (cl_initial c) (cl_decoder c) of (st, d) \<Rightarrow>
         let s1 = s\<lparr> sv_next_session_sequence := sv_next_session_sequence s + 1 \<rparr>;
             ss = new_session (sv_generation s) (session_name (sv_generation s) (sv_next_session_sequence s)) in
         service_buffered_v1 p i (upd_client i (\<lambda>c. c\<lparr> cl_protocol := V1, cl_session := Some ss, cl_decoder := d,
           cl_closed := (st = DS_Error), cl_initial := [] \<rparr>) s1))
      else let s1 = upd_client i (\<lambda>c. c\<lparr> cl_protocol := V0, cl_v0_request := map char_of_byte (cl_initial c), cl_initial := [] \<rparr>) s in
        if length (cl_v0_request (client s1 i)) > kMaxRequestBytes then set_closed i s1 else complete_v0_if_ready p i s1)"

text \<open>One received chunk; a client that is closed on the way is not served further.\<close>

definition take_input :: "'w ServerPorts \<Rightarrow> nat \<Rightarrow> u8 list \<Rightarrow> 'w Server \<Rightarrow> 'w Server" where
  "take_input p i bytes s = (case cl_protocol (client s i) of
     Undecided \<Rightarrow>
       (let s1 = upd_client i (\<lambda>c. c\<lparr> cl_initial := cl_initial c @ bytes \<rparr>) s in
        if length (cl_initial (client s1 i)) > kMaxRequestBytes then set_closed i s1 else commit_protocol_if_possible p i s1)
   | V0 \<Rightarrow>
       (let s1 = upd_client i (\<lambda>c. c\<lparr> cl_v0_request := cl_v0_request c @ map char_of_byte bytes \<rparr>) s in
        if length (cl_v0_request (client s1 i)) > kMaxRequestBytes then set_closed i s1 else complete_v0_if_ready p i s1)
   | V1 \<Rightarrow>
       (case feed bytes (cl_decoder (client s i)) of (st, d) \<Rightarrow>
        let s1 = upd_client i (\<lambda>c. c\<lparr> cl_decoder := d \<rparr>) s in
        if st = DS_Error then set_closed i s1 else service_buffered_v1 p i s1))"

definition take_chunk :: "'w ServerPorts \<Rightarrow> nat \<Rightarrow> u8 list \<Rightarrow> 'w Server \<Rightarrow> 'w Server" where
  "take_chunk p i bytes s =
     (let s1 = take_input p i bytes s in
      if \<not> cl_closed (client s1 i) \<and> cl_protocol (client s1 i) = V1 \<and> has_frame (cl_decoder (client s1 i))
      then service_buffered_v1 p i s1 else s1)"

function receive_loop :: "'w ServerPorts \<Rightarrow> nat \<Rightarrow> nat \<Rightarrow> 'w Server \<Rightarrow> 'w Server" where
  "receive_loop p i budget s =
     (let c = client s i in
      if budget = 0 \<or> cl_closed c \<or> \<not> queue_empty (cl_outbound c) \<or> cl_close_after_flush c then s
      else let attempt = min 4096 budget in
        case ip_recv p (cl_fd c) attempt (sv_world s) of (r, w) \<Rightarrow>
        let s1 = s\<lparr> sv_world := w \<rparr> in
        case r of
          Received data \<Rightarrow>
            (let bytes = take attempt data in
             if bytes = [] then set_closed i s1
             else case read_clock p s1 of (now, s2) \<Rightarrow>
               receive_loop p i (budget - length bytes)
                 (take_chunk p i bytes (upd_client i (\<lambda>c. c\<lparr> cl_last_input_activity := now \<rparr>) s2)))
        | Recv_EAGAIN \<Rightarrow> s1
        | Recv_failed \<Rightarrow> set_closed i s1)"
  by pat_completeness auto
termination by (relation "measure (\<lambda>(p, i, budget, s). budget)") auto

declare receive_loop.simps [simp del]

definition receive_client :: "'w ServerPorts \<Rightarrow> nat \<Rightarrow> 'w Server \<Rightarrow> 'w Server" where
  "receive_client p i s =
     (let c = client s i in
      if cl_closed c \<or> \<not> queue_empty (cl_outbound c) \<or> cl_close_after_flush c then s
      else receive_loop p i kReadBudgetPerTick s)"

section \<open>Deadlines\<close>

definition session_ready :: "ClientState \<Rightarrow> bool" where
  "session_ready c \<longleftrightarrow> (case cl_session c of None \<Rightarrow> False | Some ss \<Rightarrow> ss_state ss = Ready)"

definition needs_input_deadline :: "ClientState \<Rightarrow> bool" where
  "needs_input_deadline c \<longleftrightarrow> (if cl_close_after_flush c then False
     else if cl_protocol c = Undecided \<or> cl_protocol c = V0 then True
     else \<not> session_ready c)"

definition apply_deadline :: "int \<Rightarrow> ClientState \<Rightarrow> ClientState" where
  "apply_deadline now c =
     (if cl_closed c then c
      else if needs_input_deadline c \<and> now - cl_last_input_activity c \<ge> kClientHandshakeIdleTimeout then c\<lparr> cl_closed := True \<rparr>
      else if \<not> queue_empty (cl_outbound c) \<and> cl_write_timer_active c \<and> now - cl_write_progress_at c \<ge> kWriteStallTimeout
      then c\<lparr> cl_closed := True \<rparr>
      else c)"

definition apply_deadlines :: "'w ServerPorts \<Rightarrow> 'w Server \<Rightarrow> 'w Server" where
  "apply_deadlines p s = (case read_clock p s of (now, s1) \<Rightarrow>
     s1\<lparr> sv_clients := map (apply_deadline now) (sv_clients s1) \<rparr>)"

definition INT_MAX :: int where "INT_MAX = 2 ^ 31 - 1"

text \<open>\<open>duration_cast\<close> truncates towards zero; a remaining time that is not positive counts as 0 anyway.\<close>

definition remaining_ms :: "int \<Rightarrow> int \<Rightarrow> int" where
  "remaining_ms now deadline = (let d = deadline - now in if d \<ge> 0 then d div 1000000 else - ((- d) div 1000000))"

definition include_deadline :: "int \<Rightarrow> int \<Rightarrow> int \<Rightarrow> int" where
  "include_deadline now deadline timeout =
     (let remaining = remaining_ms now deadline;
          candidate = (if remaining > 0 then (if remaining > INT_MAX then INT_MAX else remaining) else 0) in
      if timeout < 0 \<or> candidate < timeout then candidate else timeout)"

text \<open>The loop over the clients; \<open>None\<close> is the early \<open>return 0\<close>.\<close>

fun clients_timeout :: "int \<Rightarrow> ClientState list \<Rightarrow> int \<Rightarrow> int option" where
  "clients_timeout now [] timeout = Some timeout"
| "clients_timeout now (c # cs) timeout =
     (if cl_closed c then clients_timeout now cs timeout
      else if cl_protocol c = V1 \<and> cl_session c \<noteq> None \<and> has_frame (cl_decoder c) \<and> queue_empty (cl_outbound c)
        \<and> \<not> cl_close_after_flush c then None
      else
        let t1 = (if needs_input_deadline c
                  then include_deadline now (cl_last_input_activity c + kClientHandshakeIdleTimeout) timeout else timeout);
            t2 = (if \<not> queue_empty (cl_outbound c) \<and> cl_write_timer_active c
                  then include_deadline now (cl_write_progress_at c + kWriteStallTimeout) t1 else t1) in
        clients_timeout now cs t2)"

definition timeout_at :: "int \<Rightarrow> 'w Server \<Rightarrow> int" where
  "timeout_at now s = (case clients_timeout now (sv_clients s) (-1) of None \<Rightarrow> 0 | Some t \<Rightarrow>
     include_deadline now (sv_next_fallback_observation s) (include_deadline now (sv_next_lease_reconcile s) t))"

definition poll_timeout_ms :: "'w ServerPorts \<Rightarrow> 'w Server \<Rightarrow> int \<times> 'w Server" where
  "poll_timeout_ms p s = (case read_clock p s of (now, s1) \<Rightarrow> (timeout_at now s1, s1))"

section \<open>The loop\<close>

definition flush_pending :: "'w ServerPorts \<Rightarrow> nat \<Rightarrow> 'w Server \<Rightarrow> 'w Server" where
  "flush_pending p i s = (if queue_empty (cl_outbound (client s i)) then s else flush_client p i s)"

definition before_poll :: "'w ServerPorts \<Rightarrow> 'w Server \<Rightarrow> 'w Server" where
  "before_poll p s =
     (let s1 = fallback_observation_if_due p (reconcile_if_due p s);
          s2 = fold (\<lambda>i t. flush_pending p i (service_buffered_v1 p i t)) [0..<length (sv_clients s1)] s1 in
      cleanup_clients p (apply_deadlines p s2))"

definition accept_client :: "'w ServerPorts \<Rightarrow> int \<Rightarrow> 'w Server \<Rightarrow> 'w Server" where
  "accept_client p fd s = (case ip_nonblocking p fd (sv_world s) of (ok, w) \<Rightarrow>
     let s1 = s\<lparr> sv_world := w \<rparr> in
     if \<not> ok then s1\<lparr> sv_world := ip_close p fd w \<rparr>
     else if length (sv_clients s1) \<ge> kMaxActiveClients then s1\<lparr> sv_world := ip_close p fd (ip_shutdown p fd w) \<rparr>
     else case read_clock p s1 of (now, s2) \<Rightarrow> s2\<lparr> sv_clients := sv_clients s2 @ [new_client fd now] \<rparr>)"

definition accept_clients :: "'w ServerPorts \<Rightarrow> 'w Server \<Rightarrow> 'w Server" where
  "accept_clients p s = (case ip_accept p (sv_listen_fd s) (sv_world s) of (fds, w) \<Rightarrow>
     fold (accept_client p) fds (s\<lparr> sv_world := w \<rparr>))"

definition serve_polled :: "'w ServerPorts \<Rightarrow> nat \<times> Revents \<Rightarrow> 'w Server \<Rightarrow> 'w Server" where
  "serve_polled p e s = (case e of (i, r) \<Rightarrow>
     if cl_closed (client s i) then s
     else if \<not> re_err r \<and> \<not> re_in r \<and> \<not> re_out r \<and> \<not> re_hup r then s
     else if re_err r then set_closed i s
     else let s1 = (if re_out r then flush_pending p i s else s) in
       if cl_closed (client s1 i) then s1
       else let drained = queue_empty (cl_outbound (client s1 i));
                s2 = (if (re_in r \<or> re_hup r) \<and> drained \<and> \<not> cl_close_after_flush (client s1 i) then receive_client p i s1
                      else if re_hup r \<and> drained then set_closed i s1 else s1) in
         if cl_closed (client s2 i) then s2 else flush_pending p i (service_buffered_v1 p i s2))"

definition after_poll :: "'w ServerPorts \<Rightarrow> PollResult \<Rightarrow> nat \<Rightarrow> 'w Server \<Rightarrow> 'w Server" where
  "after_poll p r polled s =
     (if pr_wake r then s\<lparr> sv_running := False \<rparr>
      else let s1 = (if pr_network r then consume_network_events p s else s) in
        if pr_listen_error r then s1\<lparr> sv_running := False \<rparr>
        else let s2 = (if pr_listen_in r then accept_clients p s1 else s1) in
          fold (serve_polled p) (zip [0..<polled] (pr_clients r)) s2)"

definition poll_interest :: "'w Server \<Rightarrow> (int \<times> bool) list" where
  "poll_interest s = map (\<lambda>c. (cl_fd c, \<not> (queue_empty (cl_outbound c) \<and> \<not> cl_close_after_flush c))) (sv_clients s)"

definition server_iteration :: "'w ServerPorts \<Rightarrow> 'w Server \<Rightarrow> 'w Server" where
  "server_iteration p s =
     (let s1 = before_poll p s in
      if \<not> sv_running s1 then s1
      else case poll_timeout_ms p s1 of (timeout, s2) \<Rightarrow>
        case ip_poll p (poll_interest s2) timeout (sv_world s2) of (r, w) \<Rightarrow>
        let s3 = s2\<lparr> sv_world := w \<rparr> in
        case r of None \<Rightarrow> s3 | Some res \<Rightarrow> after_poll p res (length (sv_clients s2)) s3)"

definition close_all :: "'w ServerPorts \<Rightarrow> 'w Server \<Rightarrow> 'w Server" where
  "close_all p s = (fold (close_fd p) (sv_clients s) s)\<lparr> sv_clients := [] \<rparr>"

text \<open>At most \<open>n\<close> iterations of the loop; it ends only when the server is stopped.\<close>

primrec server_loop :: "'w ServerPorts \<Rightarrow> nat \<Rightarrow> 'w Server \<Rightarrow> 'w Server" where
  "server_loop p 0 s = s"
| "server_loop p (Suc n) s = (if sv_running s then server_loop p n (server_iteration p s) else close_all p s)"

section \<open>Start and stop\<close>

definition new_server :: "u64 \<Rightarrow> u64 \<Rightarrow> 'w \<Rightarrow> 'w Server" where
  "new_server now pid w = (let generation = make_server_generation now pid in
     \<lparr> sv_clients = [], sv_detector = NetworkStateChangeDetector_default, sv_next_lease_reconcile = 0, sv_next_fallback_observation = 0,
       sv_running = False, sv_generation = generation, sv_next_session_sequence = 1,
       sv_sequencer = new_sequencer generation, sv_listen_fd = -1, sv_socket_path = [], sv_world = w \<rparr>)"

definition sun_path_size :: nat where "sun_path_size = 108"

definition listen_fails :: "'w ServerPorts \<Rightarrow> int \<Rightarrow> 'w \<Rightarrow> 'w Server \<Rightarrow> bool \<times> 'w Server" where
  "listen_fails p fd w s = (False, s\<lparr> sv_listen_fd := -1, sv_world := ip_close p fd w \<rparr>)"

definition server_listen :: "'w ServerPorts \<Rightarrow> string \<Rightarrow> 'w Server \<Rightarrow> bool \<times> 'w Server" where
  "server_listen p path s =
     (case ip_socket p (sv_world s) of (fd, w1) \<Rightarrow>
      let s1 = s\<lparr> sv_socket_path := path, sv_listen_fd := fd, sv_world := w1 \<rparr> in
      if fd < 0 then (False, s1)
      else case ip_nonblocking p fd w1 of (nonblocking, w2) \<Rightarrow>
      if \<not> nonblocking then listen_fails p fd w2 s1
      else if length path \<ge> sun_path_size then listen_fails p fd w2 s1
      else case ip_bind p fd path (ip_unlink p path w2) of (bound, w3) \<Rightarrow>
      if \<not> bound then listen_fails p fd w3 s1
      else case ip_listen p fd kMaxActiveClients (ip_chmod p path 438 w3) of (listening, w4) \<Rightarrow>
      if \<not> listening then (case listen_fails p fd w4 s1 of (ok, s2) \<Rightarrow> (ok, s2\<lparr> sv_world := ip_unlink p path (sv_world s2) \<rparr>))
      else (True, s1\<lparr> sv_running := True, sv_world := w4 \<rparr>))"

definition server_start :: "'w ServerPorts \<Rightarrow> 'w Server \<Rightarrow> 'w Server" where
  "server_start p s = (case nd_snapshot (ip_daemon p) (sv_world s) of (snap, w) \<Rightarrow>
     case read_clock p (s\<lparr> sv_clients := [], sv_detector := snd (observe snap NetworkStateChangeDetector_default), sv_world := w \<rparr>) of (start, s1) \<Rightarrow>
     s1\<lparr> sv_next_lease_reconcile := start + kLeaseReconcileInterval,
         sv_next_fallback_observation := start + kFallbackStateObservationInterval \<rparr>)"

definition server_run :: "'w ServerPorts \<Rightarrow> nat \<Rightarrow> 'w Server \<Rightarrow> 'w Server" where
  "server_run p n s = server_loop p n (server_start p s)"

definition server_stop :: "'w ServerPorts \<Rightarrow> 'w Server \<Rightarrow> 'w Server" where
  "server_stop p s =
     (let fd = sv_listen_fd s;
          w1 = (if fd \<ge> 0 then ip_close p fd (ip_shutdown p fd (sv_world s)) else sv_world s);
          w2 = (if sv_socket_path s \<noteq> [] then ip_unlink p (sv_socket_path s) w1 else w1) in
      s\<lparr> sv_running := False, sv_listen_fd := (if fd \<ge> 0 then -1 else fd), sv_world := w2 \<rparr>)"

end
