(* ===== verification/Server_Bounds.thy ===== *)
theory Server_Bounds
  imports Ipc_Server Daemon
begin

text \<open>
  What the IPC server keeps: bounds on the client table and on what it buffers for each client,
  and the deadlines that drop a client which makes no progress. \<open>ok_at i P\<close> is the invariant with
  \<open>P\<close> in the place of \<open>client_ok\<close> for the client being served.
\<close>

section \<open>The invariant\<close>

definition client_ok :: "ClientState \<Rightarrow> bool" where
  "client_ok c \<longleftrightarrow> queue_ok (cl_outbound c)
     \<and> oq_max_frames (cl_outbound c) = kDefaultOutboundMaxFrames
     \<and> oq_max_bytes (cl_outbound c) = kDefaultOutboundMaxBytes
     \<and> decoder_wf (cl_decoder c)
     \<and> (cl_session c = None \<longleftrightarrow> cl_protocol c \<noteq> V1)
     \<and> (cl_closed c \<or> length (cl_initial c) < 4 \<and> length (cl_v0_request c) \<le> kMaxRequestBytes
         \<and> fd_error (cl_decoder c) = CE_None \<and> (queue_empty (cl_outbound c) \<or> cl_write_timer_active c))"

definition ok_at :: "nat \<Rightarrow> (ClientState \<Rightarrow> bool) \<Rightarrow> 'w Server \<Rightarrow> bool" where
  "ok_at i P s \<longleftrightarrow> length (sv_clients s) \<le> kMaxActiveClients
     \<and> (\<forall>j < length (sv_clients s). if j = i then P (client s j) else client_ok (client s j))"

definition server_ok :: "'w Server \<Rightarrow> bool" where
  "server_ok s \<longleftrightarrow> length (sv_clients s) \<le> kMaxActiveClients \<and> list_all client_ok (sv_clients s)"

lemma server_ok_at: "server_ok s \<longleftrightarrow> ok_at i client_ok s"
  by (auto simp: server_ok_def ok_at_def client_def list_all_length)

lemma ok_at_upd:
  assumes "ok_at i P s" and "\<And>c. c = client s i \<Longrightarrow> P c \<Longrightarrow> Q (f c)"
  shows "ok_at i Q (upd_client i f s)"
  using assms by (auto simp: ok_at_def upd_client_def client_def nth_list_update)

lemma server_ok_upd:
  assumes "server_ok s" and "\<And>c. c = client s i \<Longrightarrow> client_ok c \<Longrightarrow> client_ok (f c)"
  shows "server_ok (upd_client i f s)"
  using ok_at_upd [of i client_ok s client_ok f] assms by (simp add: server_ok_at [symmetric])

lemma ok_at_fields [simp]:
  "ok_at i P (s\<lparr> sv_world := w \<rparr>) = ok_at i P s"
  "ok_at i P (s\<lparr> sv_sequencer := q \<rparr>) = ok_at i P s"
  "ok_at i P (s\<lparr> sv_detector := d \<rparr>) = ok_at i P s"
  "ok_at i P (s\<lparr> sv_next_session_sequence := n \<rparr>) = ok_at i P s"
  "ok_at i P (s\<lparr> sv_next_lease_reconcile := t \<rparr>) = ok_at i P s"
  "ok_at i P (s\<lparr> sv_next_fallback_observation := t \<rparr>) = ok_at i P s"
  "ok_at i P (s\<lparr> sv_running := r \<rparr>) = ok_at i P s"
  by (simp_all add: ok_at_def client_def)

lemma server_ok_fields [simp]:
  "server_ok (s\<lparr> sv_world := w \<rparr>) = server_ok s"
  "server_ok (s\<lparr> sv_sequencer := q \<rparr>) = server_ok s"
  "server_ok (s\<lparr> sv_detector := d \<rparr>) = server_ok s"
  "server_ok (s\<lparr> sv_next_session_sequence := n \<rparr>) = server_ok s"
  "server_ok (s\<lparr> sv_next_lease_reconcile := t \<rparr>) = server_ok s"
  "server_ok (s\<lparr> sv_next_fallback_observation := t \<rparr>) = server_ok s"
  "server_ok (s\<lparr> sv_running := r \<rparr>) = server_ok s"
  by (simp_all add: server_ok_def)

lemma client_fields [simp]:
  "client (s\<lparr> sv_world := w \<rparr>) i = client s i"
  "client (s\<lparr> sv_next_session_sequence := n \<rparr>) i = client s i"
  by (simp_all add: client_def)

lemma read_clock_split: "read_clock p s = (fst (ip_now p (sv_world s)), s\<lparr> sv_world := snd (ip_now p (sv_world s)) \<rparr>)"
  by (simp add: read_clock_def split_beta)

lemma set_closed_ok: "server_ok s \<Longrightarrow> server_ok (set_closed i s)"
  unfolding set_closed_def by (rule server_ok_upd) (simp_all add: client_ok_def)

lemma ok_at_closed: "ok_at i P s \<Longrightarrow> (\<And>c. P c \<Longrightarrow> client_ok (c\<lparr> cl_closed := True \<rparr>)) \<Longrightarrow> server_ok (set_closed i s)"
  unfolding set_closed_def server_ok_at [of _ i] by (erule ok_at_upd) auto

text \<open>A client that is fine except that its write timer may have to be started.\<close>

definition untimed_ok :: "ClientState \<Rightarrow> bool" where
  "untimed_ok c \<longleftrightarrow> client_ok (c\<lparr> cl_write_timer_active := True \<rparr>)"

lemma untimed_close: "untimed_ok c \<Longrightarrow> client_ok (c\<lparr> cl_closed := True \<rparr>)"
  by (simp add: untimed_ok_def client_ok_def)

lemma client_untimed: "client_ok c \<Longrightarrow> untimed_ok c"
  by (auto simp: untimed_ok_def client_ok_def)

lemma untimed_timer:
  "untimed_ok c \<Longrightarrow> (queue_empty (cl_outbound c) \<or> b) \<Longrightarrow>
   client_ok (c\<lparr> cl_write_progress_at := t, cl_write_timer_active := b \<rparr>)"
  "untimed_ok c \<Longrightarrow> client_ok (c\<lparr> cl_write_timer_active := True, cl_write_progress_at := t \<rparr>)"
  by (auto simp: untimed_ok_def client_ok_def)

lemma start_write_timer_ok: "ok_at i untimed_ok s \<Longrightarrow> server_ok (start_write_timer p i s)"
  unfolding start_write_timer_def read_clock_split server_ok_at [of _ i]
  by (simp, rule ok_at_upd [where P = untimed_ok]) (simp_all add: untimed_timer)

lemma ok_at_mono: "ok_at i P s \<Longrightarrow> (\<And>c. P c \<Longrightarrow> Q c) \<Longrightarrow> ok_at i Q s"
  by (auto simp: ok_at_def)

lemma ok_at_now: "ok_at i P s \<Longrightarrow> (P (client s i) \<Longrightarrow> Q (client s i)) \<Longrightarrow> ok_at i Q s"
  by (auto simp: ok_at_def)

lemma server_untimed: "server_ok s \<Longrightarrow> ok_at i untimed_ok s"
  unfolding server_ok_at [of _ i] by (erule ok_at_mono) (rule client_untimed)

section \<open>Output\<close>

lemma enqueue_limits:
  "oq_max_frames (snd (enqueue f q)) = oq_max_frames q" "oq_max_bytes (snd (enqueue f q)) = oq_max_bytes q"
  by (simp_all add: enqueue_def)

lemma consume_limits:
  "oq_max_frames (snd (consume n q)) = oq_max_frames q" "oq_max_bytes (snd (consume n q)) = oq_max_bytes q"
  by (auto simp: consume_def split: list.splits)

lemma put_queue_ok:
  assumes "client_ok c" and "queue_ok q" and "oq_max_frames q = kDefaultOutboundMaxFrames" and "oq_max_bytes q = kDefaultOutboundMaxBytes"
  shows "untimed_ok (c\<lparr> cl_outbound := q \<rparr>)"
  using assms by (auto simp: untimed_ok_def client_ok_def)

lemma enqueue_put_ok: "client_ok c \<Longrightarrow> untimed_ok (c\<lparr> cl_outbound := snd (enqueue f (cl_outbound c)) \<rparr>)"
  by (rule put_queue_ok) (simp_all add: enqueue_limits enqueue_ok client_ok_def)

lemma consume_put_ok: "client_ok c \<Longrightarrow> untimed_ok (c\<lparr> cl_outbound := snd (consume n (cl_outbound c)) \<rparr>)"
  by (rule put_queue_ok) (simp_all add: consume_limits consume_ok client_ok_def)

lemma enqueue_put_timed:
  "client_ok c \<Longrightarrow> \<not> queue_empty (cl_outbound c) \<Longrightarrow> client_ok (c\<lparr> cl_outbound := snd (enqueue f (cl_outbound c)) \<rparr>)"
  by (simp add: client_ok_def enqueue_limits enqueue_ok) auto

lemma enqueue_frame_ok:
  assumes ok: "server_ok s"
  shows "server_ok (snd (enqueue_frame p i f s))"
proof -
  obtain r q where e: "enqueue f (cl_outbound (client s i)) = (r, q)" by fastforce
  let ?s = "upd_client i (\<lambda>c. c\<lparr> cl_outbound := q \<rparr>) s"
  have q: "q = snd (enqueue f (cl_outbound (client s i)))" by (simp add: e)
  have u: "ok_at i untimed_ok ?s"
    by (rule ok_at_upd [OF ok [unfolded server_ok_at [of _ i]]]) (simp add: q enqueue_put_ok)
  have t: "server_ok ?s" if "\<not> queue_empty (cl_outbound (client s i))"
    by (rule server_ok_upd [OF ok]) (use that in \<open>simp add: q enqueue_put_timed\<close>)
  show ?thesis
    using start_write_timer_ok [OF u] t ok_at_closed [OF u untimed_close] by (simp add: enqueue_frame_def e Let_def)
qed

lemma fold_server_ok:
  assumes "\<And>x s. server_ok s \<Longrightarrow> server_ok (f x s)"
  shows "server_ok s \<Longrightarrow> server_ok (fold f xs s)"
  by (induction xs arbitrary: s) (simp_all add: assms)

lemma broadcast_event_ok: "server_ok s \<Longrightarrow> server_ok (snd (broadcast_event p n b s))"
  by (auto simp: broadcast_event_def Let_def enqueue_frame_ok split: prod.split intro!: fold_server_ok)

lemma observe_state_ok: "server_ok s \<Longrightarrow> server_ok (observe_state p s)"
  by (simp add: observe_state_def Let_def broadcast_event_ok split: prod.split)

lemma reconcile_ok: "server_ok s \<Longrightarrow> server_ok (reconcile_if_due p s)"
  by (simp add: reconcile_if_due_def read_clock_split Let_def observe_state_ok split: prod.split)

lemma fallback_ok: "server_ok s \<Longrightarrow> server_ok (fallback_observation_if_due p s)"
  by (simp add: fallback_observation_if_due_def read_clock_split observe_state_ok)

lemma consume_network_events_ok: "server_ok s \<Longrightarrow> server_ok (consume_network_events p s)"
  by (simp add: consume_network_events_def Let_def observe_state_ok split: prod.split)


lemma flush_loop_ok: "server_ok s \<Longrightarrow> server_ok (snd (flush_loop p i b s))"
proof (induction p i b s rule: flush_loop.induct)
  case (1 p i b s)
  let ?q = "cl_outbound (client s i)"
  let ?a = "min (front_size ?q) b"
  obtain r w where send: "ip_send p (cl_fd (client s i)) (take ?a (front_data ?q)) (sv_world s) = (r, w)" by fastforce
  let ?s1 = "s\<lparr> sv_world := w \<rparr>"
  show ?case
  proof (cases "queue_empty ?q \<or> b = 0")
    case True
    then show ?thesis using 1(2) by (simp add: flush_loop.simps [of p i b s] Let_def)
  next
    case go: False
    show ?thesis
    proof (cases r)
      case (Wrote n)
      obtain ok q1 where c: "consume (min n ?a) ?q = (ok, q1)" by fastforce
      let ?s2 = "upd_client i (\<lambda>c. c\<lparr> cl_outbound := q1 \<rparr>) ?s1"
      have q1: "q1 = snd (consume (min n ?a) ?q)" by (simp add: c)
      have u: "ok_at i (\<lambda>c. untimed_ok c \<and> cl_outbound c = q1) ?s2"
        using 1(2) unfolding server_ok_at [of _ i]
        by (intro ok_at_upd [where P = client_ok]) (simp_all add: q1 consume_put_ok)
      have s3: "server_ok (upd_client i (\<lambda>c. c\<lparr> cl_write_progress_at := t, cl_write_timer_active := \<not> queue_empty q1 \<rparr>) (?s2\<lparr> sv_world := w' \<rparr>))" for t w'
        unfolding server_ok_at [of _ i]
        by (rule ok_at_upd [where P = "\<lambda>c. untimed_ok c \<and> cl_outbound c = q1"]) (use u in \<open>auto intro!: untimed_timer\<close>)
      have cl: "server_ok (set_closed i ?s2)"
        by (rule ok_at_closed [OF u]) (simp add: untimed_close)
      show ?thesis
        using 1(1) [OF refl go refl send [symmetric] refl Wrote refl _ c [symmetric] refl _ prod.collapse] 1(2) go send c cl s3 set_closed_ok [of ?s1 i]
        by (simp add: flush_loop.simps [of p i b s] Let_def Wrote read_clock_split)
    next
      case Write_EAGAIN
      then show ?thesis
        using go send 1(2) start_write_timer_ok [OF server_untimed [of ?s1 i], of p]
        by (simp add: flush_loop.simps [of p i b s] Let_def)
    next
      case Write_failed
      then show ?thesis
        using go send 1(2) set_closed_ok [of ?s1 i] by (simp add: flush_loop.simps [of p i b s] Let_def)
    qed
  qed
qed

lemma drained_ok:
  "server_ok s \<Longrightarrow> queue_empty (cl_outbound (client s i)) \<Longrightarrow>
   server_ok (upd_client i (\<lambda>c. c\<lparr> cl_write_timer_active := False, cl_closed := cl_closed c \<or> cl_close_after_flush c \<rparr>) s)"
  by (rule server_ok_upd) (auto simp: client_ok_def)

lemma flush_client_ok: "server_ok s \<Longrightarrow> server_ok (flush_client p i s)"
  using flush_loop_ok [of s p i kWriteBudgetPerTick]
  by (auto simp: flush_client_def Let_def drained_ok start_write_timer_ok server_untimed split: prod.split)

lemma flush_pending_ok: "server_ok s \<Longrightarrow> server_ok (flush_pending p i s)"
  by (simp add: flush_pending_def flush_client_ok)

section \<open>Requests\<close>

lemma feed_ok:
  assumes "decoder_wf d" and "feed b d = (st, d')"
  shows "decoder_wf d' \<and> (st \<noteq> DS_Error \<longrightarrow> fd_error d' = CE_None)"
proof -
  have "d' = decoder_step (Call_feed (Some b) (length b)) d"
    using assms(2) by (simp add: decoder_step_def feed_def [symmetric])
  then have "decoder_wf d'" using decoder.step_inv [OF assms(1)] by simp
  moreover have "st \<noteq> DS_Error \<longrightarrow> fd_error d' = CE_None"
    using assms(2)
    by (auto simp: feed_eq parse_available_deframe parsed_def Let_def split: if_splits option.splits prod.splits)
  ultimately show ?thesis by simp
qed

lemma take_frame_ok:
  assumes "decoder_wf d" and "take_frame d = Some (f, d')"
  shows "decoder_wf d' \<and> fd_error d' = fd_error d"
proof -
  have "d' = decoder_step Call_take_frame d" using assms(2) by (simp add: decoder_step_def)
  then have "decoder_wf d'" using decoder.step_inv [OF assms(1)] by simp
  with assms(2) show ?thesis by (auto simp: take_frame_def split: list.splits)
qed

lemma send_or_close_ok: "server_ok s \<Longrightarrow> server_ok (snd (send_or_close p i f s))"
  using enqueue_frame_ok [of s p i f] by (simp add: send_or_close_def set_closed_ok split_beta)

lemma run_server_action_ok: "server_ok s \<Longrightarrow> server_ok (snd (run_server_action p i r s))"
  using broadcast_event_ok [of s p "''network.events.subscribed''" "''{}''"]
  by (auto simp: run_server_action_def set_closed_ok send_or_close_ok split_beta split: ServerAction.split)

lemma close_after_flush_ok: "server_ok s \<Longrightarrow> server_ok (upd_client i (\<lambda>c. c\<lparr> cl_close_after_flush := True \<rparr>) s)"
  by (rule server_ok_upd) (simp_all add: client_ok_def)

lemma put_session_ok:
  assumes "server_ok s" and "cl_session (client s i) \<noteq> None" and "take_frame (cl_decoder (client s i)) = Some (f, d)"
  shows "server_ok (put_session ss d i s)"
  unfolding put_session_def
  by (rule server_ok_upd [OF assms(1)]) (use assms(2) take_frame_ok [OF _ assms(3)] in \<open>auto simp: client_ok_def\<close>)

lemma process_v1_frame_ok:
  assumes "server_ok s"
  shows "server_ok (snd (process_v1_frame p i s))"
proof (cases "cl_session (client s i)")
  case (Some ss)
  show ?thesis
  proof (cases "take_frame (cl_decoder (client s i))")
    case (Some a)
    obtain f d where a: "a = (f, d)" by fastforce
    obtain r ss1 where h: "handle_frame f ss = (r, ss1)" by fastforce
    have p: "server_ok (put_session ss1 d i s)"
      by (rule put_session_ok [OF assms]) (use Some a \<open>cl_session _ = Some ss\<close> in simp_all)
    have e: "server_ok (snd (enqueue_response p i (hr_response r) (put_session ss1 d i s)))"
      by (simp add: enqueue_response_def p enqueue_frame_ok)
    show ?thesis
      using assms Some a \<open>cl_session _ = Some ss\<close> h e run_server_action_ok [OF e, of p i r]
      by (simp add: process_v1_frame_def Let_def split_beta close_after_flush_ok)
  qed (use assms Some in \<open>simp add: process_v1_frame_def\<close>)
qed (use assms in \<open>simp add: process_v1_frame_def\<close>)


lemma service_loop_ok: "server_ok s \<Longrightarrow> server_ok (service_loop p i n s)"
proof (induction n arbitrary: s)
  case (Suc n)
  obtain ok s1 where e: "process_v1_frame p i s = (ok, s1)" by fastforce
  then have "server_ok s1" using process_v1_frame_ok [OF Suc.prems, of p i] by simp
  with Suc e show ?case by (simp add: Let_def flush_client_ok)
qed simp

lemma service_buffered_ok: "server_ok s \<Longrightarrow> server_ok (service_buffered_v1 p i s)"
  by (simp add: service_buffered_v1_def service_loop_ok)

lemma complete_v0_ok: "server_ok s \<Longrightarrow> server_ok (complete_v0_if_ready p i s)"
  using enqueue_frame_ok [of "s\<lparr> sv_world := w \<rparr>" p i for w]
  by (simp add: complete_v0_if_ready_def Let_def split_beta flush_client_ok close_after_flush_ok)

text \<open>Between the receipt of a chunk and the decision on the protocol, the bytes held back may be many.\<close>

definition undecided_ok :: "ClientState \<Rightarrow> bool" where
  "undecided_ok c \<longleftrightarrow> client_ok (c\<lparr> cl_initial := [] \<rparr>) \<and> cl_protocol c = Undecided"

lemma commit_protocol_ok:
  assumes "ok_at i undecided_ok s"
  shows "server_ok (commit_protocol_if_possible p i s)"
proof -
  let ?c = "client s i"
  consider (wait) "length (cl_initial ?c) < 4 \<or> cl_closed ?c \<or> cl_protocol ?c \<noteq> Undecided"
    | (v1) "\<not> length (cl_initial ?c) < 4" "\<not> cl_closed ?c" "cl_protocol ?c = Undecided" "starts_with_v1_magic (cl_initial ?c)"
    | (v0) "\<not> length (cl_initial ?c) < 4" "\<not> cl_closed ?c" "cl_protocol ?c = Undecided" "\<not> starts_with_v1_magic (cl_initial ?c)"
    by blast
  then show ?thesis
  proof cases
    case wait
    then have "server_ok s"
      unfolding server_ok_at [of _ i]
      by (intro ok_at_now [OF assms]) (auto simp: undecided_ok_def client_ok_def)
    with wait show ?thesis by (auto simp: commit_protocol_if_possible_def Let_def)
  next
    case v1
    obtain st d where f: "feed (cl_initial ?c) (cl_decoder ?c) = (st, d)" by fastforce
    have "server_ok (upd_client i (\<lambda>c. c\<lparr> cl_protocol := V1, cl_session := Some ss, cl_decoder := d,
        cl_closed := (st = DS_Error), cl_initial := [] \<rparr>) (s\<lparr> sv_next_session_sequence := n \<rparr>))" for ss n
      unfolding server_ok_at [of _ i]
      by (rule ok_at_upd [where P = undecided_ok])
        (use assms v1(2) feed_ok [OF _ f] in \<open>auto simp: undecided_ok_def client_ok_def\<close>)
    with v1 f show ?thesis by (simp add: commit_protocol_if_possible_def Let_def service_buffered_ok)
  next
    case v0
    let ?s1 = "upd_client i (\<lambda>c. c\<lparr> cl_protocol := V0, cl_v0_request := map char_of_byte (cl_initial c), cl_initial := [] \<rparr>) s"
    have c: "ok_at i (\<lambda>c. client_ok (c\<lparr> cl_v0_request := [] \<rparr>)) ?s1"
      by (rule ok_at_upd [OF assms]) (use v0(2) in \<open>auto simp: undecided_ok_def client_ok_def\<close>)
    have "server_ok (set_closed i ?s1)" by (rule ok_at_closed [OF c]) (simp add: client_ok_def)
    moreover have "server_ok ?s1" if "length (cl_v0_request (client ?s1 i)) \<le> kMaxRequestBytes"
      unfolding server_ok_at [of _ i] by (rule ok_at_now [OF c]) (use that in \<open>auto simp: client_ok_def\<close>)
    ultimately show ?thesis using v0 by (simp add: commit_protocol_if_possible_def Let_def complete_v0_ok)
  qed
qed

lemma take_input_ok:
  assumes "server_ok s"
  shows "server_ok (take_input p i b s)"
proof (cases "cl_protocol (client s i)")
  case Undecided
  let ?s1 = "upd_client i (\<lambda>c. c\<lparr> cl_initial := cl_initial c @ b \<rparr>) s"
  have u: "ok_at i undecided_ok ?s1"
    by (rule ok_at_upd [OF assms [unfolded server_ok_at [of _ i]]]) (auto simp: undecided_ok_def client_ok_def Undecided)
  have "server_ok (set_closed i ?s1)" by (rule ok_at_closed [OF u]) (simp add: undecided_ok_def client_ok_def)
  with u show ?thesis by (simp add: take_input_def Undecided Let_def commit_protocol_ok)
next
  case V0
  let ?s1 = "upd_client i (\<lambda>c. c\<lparr> cl_v0_request := cl_v0_request c @ map char_of_byte b \<rparr>) s"
  have u: "ok_at i (\<lambda>c. client_ok (c\<lparr> cl_v0_request := [] \<rparr>)) ?s1"
    by (rule ok_at_upd [OF assms [unfolded server_ok_at [of _ i]]]) (auto simp: client_ok_def)
  have "server_ok (set_closed i ?s1)" by (rule ok_at_closed [OF u]) (simp add: client_ok_def)
  moreover have "server_ok ?s1" if "length (cl_v0_request (client ?s1 i)) \<le> kMaxRequestBytes"
    unfolding server_ok_at [of _ i] by (rule ok_at_now [OF u]) (use that in \<open>simp add: client_ok_def\<close>)
  ultimately show ?thesis by (simp add: take_input_def V0 Let_def complete_v0_ok)
next
  case V1
  obtain st d where f: "feed b (cl_decoder (client s i)) = (st, d)" by fastforce
  let ?s1 = "upd_client i (\<lambda>c. c\<lparr> cl_decoder := d \<rparr>) s"
  have u: "ok_at i (\<lambda>c. client_ok (c\<lparr> cl_closed := True \<rparr>)) ?s1"
    by (rule ok_at_upd [OF assms [unfolded server_ok_at [of _ i]]]) (use feed_ok [OF _ f] in \<open>auto simp: client_ok_def\<close>)
  have "server_ok ?s1" if "st \<noteq> DS_Error"
    by (rule server_ok_upd [OF assms]) (use feed_ok [OF _ f] that in \<open>auto simp: client_ok_def\<close>)
  with ok_at_closed [OF u] show ?thesis by (simp add: take_input_def V1 f Let_def service_buffered_ok)
qed

lemma take_chunk_ok: "server_ok s \<Longrightarrow> server_ok (take_chunk p i b s)"
  by (simp add: take_chunk_def Let_def take_input_ok service_buffered_ok)

lemma receive_loop_ok: "server_ok s \<Longrightarrow> server_ok (receive_loop p i b s)"
proof (induction p i b s rule: receive_loop.induct)
  case (1 p i b s)
  let ?c = "client s i"
  obtain r w where recv: "ip_recv p (cl_fd ?c) (min 4096 b) (sv_world s) = (r, w)" by fastforce
  let ?s1 = "s\<lparr> sv_world := w \<rparr>"
  have s1: "server_ok ?s1" using 1(2) by simp
  show ?case
  proof (cases "b = 0 \<or> cl_closed ?c \<or> \<not> queue_empty (cl_outbound ?c) \<or> cl_close_after_flush ?c")
    case True
    with 1(2) show ?thesis by (simp add: receive_loop.simps [of p i b s])
  next
    case go: False
    have s3: "server_ok (take_chunk p i d (upd_client i (\<lambda>c. c\<lparr> cl_last_input_activity := t \<rparr>) (s\<lparr> sv_world := w' \<rparr>)))" for d t w'
      by (rule take_chunk_ok, rule server_ok_upd) (use 1(2) in \<open>simp_all add: client_ok_def\<close>)
    show ?thesis
    proof (cases r)
      case (Received d)
      then show ?thesis
        using 1(1) [OF refl go refl recv [symmetric] refl Received refl _ prod.collapse] go recv s3
          set_closed_ok [OF s1, of i]
        by (simp add: receive_loop.simps [of p i b s] Let_def read_clock_split)
    qed (use go recv s1 set_closed_ok [OF s1, of i] in \<open>simp_all add: receive_loop.simps [of p i b s] Let_def\<close>)
  qed
qed

lemma receive_client_ok: "server_ok s \<Longrightarrow> server_ok (receive_client p i s)"
  by (simp add: receive_client_def Let_def receive_loop_ok)


section \<open>The loop\<close>

lemma close_fd_clients: "sv_clients (close_fd p c s) = sv_clients s"
  by (simp add: close_fd_def)

lemma cleanup_ok:
  assumes "server_ok s"
  shows "server_ok (cleanup_clients p s)"
proof -
  have "length (filter (\<lambda>c. \<not> cl_closed c) (sv_clients s)) \<le> length (sv_clients s)" by (rule length_filter_le)
  also have "\<dots> \<le> kMaxActiveClients" using assms by (simp add: server_ok_def)
  finally show ?thesis using assms by (auto simp: server_ok_def cleanup_clients_def list_all_iff)
qed

lemma apply_deadline_ok: "client_ok c \<Longrightarrow> client_ok (apply_deadline now c)"
  by (auto simp: apply_deadline_def client_ok_def)

lemma apply_deadlines_ok: "server_ok s \<Longrightarrow> server_ok (apply_deadlines p s)"
  by (auto simp: apply_deadlines_def read_clock_split server_ok_def list_all_iff apply_deadline_ok)

lemma before_poll_ok: "server_ok s \<Longrightarrow> server_ok (before_poll p s)"
  by (auto simp: before_poll_def Let_def
      intro!: cleanup_ok apply_deadlines_ok fold_server_ok flush_pending_ok service_buffered_ok fallback_ok reconcile_ok)

lemma new_client_ok: "client_ok (new_client fd now)"
  by (simp add: client_ok_def new_client_def new_queue_ok, simp add: new_queue_def queue_empty_def
      FrameDecoder_default_def decoder_wf_def kHeaderSize_def)

lemma accept_client_ok: "server_ok s \<Longrightarrow> server_ok (accept_client p fd s)"
  by (simp add: accept_client_def Let_def read_clock_split server_ok_def new_client_ok split: prod.split)

lemma accept_clients_ok: "server_ok s \<Longrightarrow> server_ok (accept_clients p s)"
  by (simp add: accept_clients_def split: prod.split) (auto intro!: fold_server_ok accept_client_ok)

lemma serve_polled_ok: "server_ok s \<Longrightarrow> server_ok (serve_polled p e s)"
  by (simp add: serve_polled_def Let_def split_beta set_closed_ok flush_pending_ok receive_client_ok service_buffered_ok)

lemma after_poll_ok: "server_ok s \<Longrightarrow> server_ok (after_poll p r n s)"
  by (auto simp: after_poll_def Let_def consume_network_events_ok accept_clients_ok
      intro!: fold_server_ok serve_polled_ok)

lemma server_iteration_ok:
  assumes "server_ok s"
  shows "server_ok (server_iteration p s)"
  using before_poll_ok [OF assms, of p]
  by (simp add: server_iteration_def Let_def poll_timeout_ms_def read_clock_split after_poll_ok split: prod.split option.split)

text \<open>The iterations are a machine over the ports; each may run against a world of its own.\<close>

interpretation server: invariant_machine "\<lambda>p. server_iteration p" server_ok
  by unfold_locales (rule server_iteration_ok)

lemma server_loop_ok: "server_ok s \<Longrightarrow> server_ok (server_loop p n s)"
  by (induction n arbitrary: s) (simp_all add: server.step_inv, simp add: close_all_def server_ok_def)

lemma server_start_ok: "server_ok (server_start p s)"
  by (simp add: server_start_def read_clock_split split: prod.split, simp add: server_ok_def)

text \<open>C35: Whatever the sockets, the clock and the daemon do, at every moment of the poll loop the
  server has at most 8 clients; each has at most 32 queued frames and four maximal frames of
  queued bytes, counted exactly, a decoder whose undecoded input is below one maximal frame, and a
  session exactly when it speaks v1; a client not marked closed holds back fewer than 4 undecided
  bytes and at most 64 KiB of a v0 request, its decoder is without error, and its write timer
  runs whenever output is pending.\<close>

theorem server_bounded:
  "server_ok (server_run p n s)"
  by (simp add: server_run_def server_loop_ok server_start_ok)

section \<open>Deadlines\<close>

text \<open>A client is waited for when its session is not ready and it is not being closed; a client with
  a decoded frame and room for its answer can be served at once.\<close>

definition servable :: "ClientState \<Rightarrow> bool" where
  "servable c \<longleftrightarrow> \<not> cl_closed c \<and> cl_protocol c = V1 \<and> cl_session c \<noteq> None \<and> has_frame (cl_decoder c)
     \<and> queue_empty (cl_outbound c) \<and> \<not> cl_close_after_flush c"

definition client_deadlines :: "ClientState \<Rightarrow> int set" where
  "client_deadlines c = (if cl_closed c then {} else
     (if needs_input_deadline c then {cl_last_input_activity c + kClientHandshakeIdleTimeout} else {}) \<union>
     (if \<not> queue_empty (cl_outbound c) \<and> cl_write_timer_active c then {cl_write_progress_at c + kWriteStallTimeout} else {}))"

definition server_deadlines :: "'w Server \<Rightarrow> int set" where
  "server_deadlines s = {sv_next_lease_reconcile s, sv_next_fallback_observation s} \<union> (\<Union>c \<in> set (sv_clients s). client_deadlines c)"

text \<open>The milliseconds that may pass before a deadline.\<close>

definition ms_left :: "int \<Rightarrow> int \<Rightarrow> int" where
  "ms_left now deadline = min INT_MAX (max 0 (deadline - now) div 1000000)"

lemma ms_left_nonneg: "0 \<le> ms_left now d"
  by (simp add: ms_left_def INT_MAX_def)

lemma include_deadline_min:
  "include_deadline now d t = (if t < 0 then ms_left now d else min t (ms_left now d))"
proof -
  have "(if remaining_ms now d > 0 then (if remaining_ms now d > INT_MAX then INT_MAX else remaining_ms now d) else 0) = ms_left now d"
  proof (cases "d - now \<ge> 0")
    case True
    then show ?thesis using pos_imp_zdiv_nonneg_iff [of 1000000 "d - now"]
      by (auto simp: remaining_ms_def ms_left_def INT_MAX_def min_def max_def)
  next
    case False
    then have "(now - d) div 1000000 \<ge> 0" by (simp add: pos_imp_zdiv_nonneg_iff)
    with False show ?thesis by (auto simp: remaining_ms_def ms_left_def INT_MAX_def Let_def max_def)
  qed
  then show ?thesis by (auto simp: include_deadline_def Let_def min_def)
qed

text \<open>The timeout so far: none, or the least time left of the deadlines seen.\<close>

definition least_ms :: "int \<Rightarrow> int set \<Rightarrow> int" where
  "least_ms now D = (if D = {} then -1 else Min (ms_left now ` D))"

lemma include_deadline_least:
  assumes "finite D"
  shows "include_deadline now d (least_ms now D) = least_ms now (insert d D)"
proof (cases "D = {}")
  case False
  define m where m: "m = Min (ms_left now ` D)"
  from False assms have "m \<in> ms_left now ` D" unfolding m by (intro Min_in) auto
  then have "0 \<le> m" using ms_left_nonneg by auto
  moreover have "Min (insert (ms_left now d) (ms_left now ` D)) = min m (ms_left now d)"
    using False assms by (simp add: m min.commute)
  ultimately show ?thesis using False by (simp add: include_deadline_min least_ms_def m [symmetric])
qed (simp add: include_deadline_min least_ms_def)

lemma client_deadlines_finite: "finite (client_deadlines c)"
  by (simp add: client_deadlines_def)

lemma clients_timeout_least:
  assumes "finite D"
  shows "clients_timeout now cs (least_ms now D) =
    (if \<exists>c \<in> set cs. servable c then None else Some (least_ms now (D \<union> (\<Union>c \<in> set cs. client_deadlines c))))"
  using assms
proof (induction cs arbitrary: D)
  case (Cons c cs)
  have "clients_timeout now (c # cs) (least_ms now D) = (if servable c then None else clients_timeout now cs (least_ms now (D \<union> client_deadlines c)))"
    using Cons.prems by (cases "cl_session c") (simp_all add: servable_def client_deadlines_def include_deadline_least Let_def)
  moreover have "finite (D \<union> client_deadlines c)" using Cons.prems by (simp add: client_deadlines_finite)
  ultimately show ?case using Cons.IH [of "D \<union> client_deadlines c"] by (auto simp: Un_assoc)
qed simp

text \<open>C37: The timeout given to \<open>poll\<close> is 0 when an open client has a decoded request that can be
  served, and otherwise exactly the least of the whole milliseconds left (clipped at \<open>INT_MAX\<close>, 0 when overdue) over the
  two periodic tasks and the handshake and write deadlines of the open clients: no deadline is overslept and \<open>poll\<close>
  never blocks without one.\<close>

theorem poll_timeout_exact:
  "timeout_at now s = (if \<exists>c \<in> set (sv_clients s). servable c then 0 else Min (ms_left now ` server_deadlines s))"
proof -
  have e: "least_ms now {} = -1" by (simp add: least_ms_def)
  have fin: "finite (\<Union>c \<in> set (sv_clients s). client_deadlines c)" by (simp add: client_deadlines_finite)
  show ?thesis
    using clients_timeout_least [of "{}" now "sv_clients s"] fin
    by (simp add: timeout_at_def e include_deadline_least)
      (simp add: least_ms_def server_deadlines_def insert_commute)
qed

lemma apply_deadline_open:
  "\<not> cl_closed (apply_deadline now c) \<Longrightarrow> apply_deadline now c = c \<and> \<not> cl_closed c
    \<and> (needs_input_deadline c \<longrightarrow> now - cl_last_input_activity c < kClientHandshakeIdleTimeout)
    \<and> (queue_empty (cl_outbound c) \<or> \<not> cl_write_timer_active c \<or> now - cl_write_progress_at c < kWriteStallTimeout)"
  unfolding apply_deadline_def by (simp split: if_split_asm) linarith+


text \<open>A machine for the examples: its world is the clock, its sockets are silent and its daemon is offline.\<close>

definition offline :: "'a \<Rightarrow> ('a, int) daemon_call" where
  "offline dflt w = (op_failure dflt 503 ''offline'', w)"

definition example_daemon :: "int NetworkDaemonOps" where
  "example_daemon = (let cmd = offline \<lparr> wc_requested = [], wc_has_enabled = False, wc_enabled = False \<rparr>;
      scan = offline \<lparr> st_scan_id = 0, st_state = Scan_Idle, st_error = [], st_records = [] \<rparr>;
      route = offline \<lparr> rp_policy = EthernetPreferred, rp_persistent = False \<rparr> in
    \<lparr> nd_route_policy_get = route, nd_route_policy_apply = (\<lambda>_. route),
      nd_eth_get_config = offline EthernetConfig_default, nd_eth_set_dhcp = offline EthernetConfig_default,
      nd_eth_set_static = (\<lambda>_ _ _ _. offline EthernetConfig_default), nd_wifi_scan = offline [],
      nd_wifi_scan_start = scan, nd_wifi_scan_status = scan, nd_wifi_set_enabled = (\<lambda>_. offline \<lparr> we_enabled = False \<rparr>),
      nd_wifi_connect = (\<lambda>_ _. cmd), nd_wifi_connect_saved = (\<lambda>_. cmd), nd_wifi_list_saved = offline [],
      nd_wifi_forget = (\<lambda>_. cmd), nd_wifi_set_autoconnect = (\<lambda>_ _. cmd), nd_wifi_disconnect = cmd,
      nd_wpa_events = offline (project_wpa_compatibility WpaEventFact_default NetworkSnapshot_default WifiManagerState_default),
      nd_snapshot = (\<lambda>w. (NetworkSnapshot_default, w)),
      nd_ping = (\<lambda>w. (\<lparr> pi_service = ''network_service'', pi_version = ''1'', pi_mode = ''explicit_apply'' \<rparr>, w)) \<rparr>)"

definition example_server_ports :: "int ServerPorts" where
  "example_server_ports = \<lparr> ip_version = ''1'', ip_daemon = example_daemon, ip_reconcile = (\<lambda>w. (False, w)),
     ip_runtime_dirty = (\<lambda>w. (False, w)), ip_refresh = id, ip_consume_events = (\<lambda>w. (True, False, w)),
     ip_now = (\<lambda>w. (w, w + 1)), ip_send = (\<lambda>_ _ w. (Write_EAGAIN, w)), ip_recv = (\<lambda>_ _ w. (Recv_EAGAIN, w)),
     ip_shutdown = (\<lambda>_ w. w), ip_close = (\<lambda>_ w. w), ip_poll = (\<lambda>_ t w. (None, w + milliseconds t)),
     ip_accept = (\<lambda>_ w. ([], w)), ip_nonblocking = (\<lambda>_ w. (True, w)), ip_socket = (\<lambda>w. (3, w)),
     ip_bind = (\<lambda>_ _ w. (True, w)), ip_listen = (\<lambda>_ _ w. (True, w)), ip_unlink = (\<lambda>_ w. w), ip_chmod = (\<lambda>_ _ w. w) \<rparr>"

text \<open>Two fresh clients, one of them silent for 1.2 seconds.\<close>

definition example_server :: "int Server" where
  "example_server = (new_server 5 1 (milliseconds 1200))\<lparr> sv_clients := [new_client 7 0, new_client 8 (milliseconds 500)] \<rparr>"


end
