(* ===== verification/Netlink.thy ===== *)
theory Netlink
  imports Contracts "HOL-Library.Word"
begin

text \<open>
  The netlink monitor (\<^verbatim>\<open>src/platform/netlink_monitor.cpp\<close>): the walk over the messages of a datagram at byte level, the
  classifier, the drain loop, and the socket's opening and closing. Multi-byte header fields are read in the byte order of
  the machine, little-endian on every target of the build. The results of the successive \<open>recv\<close> calls
  are a list, since the loop ends only when the kernel says so; \<open>strerror\<close> texts come with the failing call.
  The theorem: on what the kernel writes, a drain reports a change exactly when a message says so.
\<close>

section \<open>Messages\<close>

definition NLMSG_HDRLEN :: nat where "NLMSG_HDRLEN = 16"
definition NLMSG_ERROR :: nat where "NLMSG_ERROR = 2"
definition NLMSG_DONE :: nat where "NLMSG_DONE = 3"
definition RTM_NEWLINK :: nat where "RTM_NEWLINK = 16"
definition RTM_DELLINK :: nat where "RTM_DELLINK = 17"
definition RTM_NEWADDR :: nat where "RTM_NEWADDR = 20"
definition RTM_DELADDR :: nat where "RTM_DELADDR = 21"
definition RTM_NEWROUTE :: nat where "RTM_NEWROUTE = 24"
definition RTM_DELROUTE :: nat where "RTM_DELROUTE = 25"
definition AF_INET :: u8 where "AF_INET = 2"
definition sizeof_ifinfomsg :: nat where "sizeof_ifinfomsg = 16"
definition sizeof_ifaddrmsg :: nat where "sizeof_ifaddrmsg = 8"
definition sizeof_rtmsg :: nat where "sizeof_rtmsg = 12"
definition sizeof_nlmsgerr :: nat where "sizeof_nlmsgerr = 20"
definition sizeof_buffer :: nat where "sizeof_buffer = 16 * 1024"

fun read_le :: "u8 list \<Rightarrow> nat" where
  "read_le [] = 0"
| "read_le (b # bs) = unat b + 256 * read_le bs"

definition nlmsg_len :: "u8 list \<Rightarrow> nat" where "nlmsg_len hdr = read_le (take 4 hdr)"
definition nlmsg_type :: "u8 list \<Rightarrow> nat" where "nlmsg_type hdr = read_le (take 2 (drop 4 hdr))"

definition NLMSG_ALIGN :: "nat \<Rightarrow> nat" where "NLMSG_ALIGN n = (n + 3) div 4 * 4"

text \<open>\<open>NLMSG_OK\<close>; the bytes from \<open>hdr\<close> on are the \<open>remaining\<close> ones.\<close>

definition NLMSG_OK :: "u8 list \<Rightarrow> bool" where
  "NLMSG_OK hdr \<longleftrightarrow> length hdr \<ge> NLMSG_HDRLEN \<and> nlmsg_len hdr \<ge> NLMSG_HDRLEN \<and> nlmsg_len hdr \<le> length hdr"

text \<open>A null \<open>payload\<close> is \<open>None\<close>; \<open>ifa_family\<close> and \<open>rtm_family\<close> are the first byte, \<open>rtm_dst_len\<close> the second.\<close>

definition affects_network_state :: "nat \<Rightarrow> u8 list option \<Rightarrow> nat \<Rightarrow> bool" where
  "affects_network_state message_type payload payload_size =
     (if message_type = RTM_NEWLINK \<or> message_type = RTM_DELLINK then payload \<noteq> None \<and> payload_size \<ge> sizeof_ifinfomsg
      else if message_type = RTM_NEWADDR \<or> message_type = RTM_DELADDR then
        (case payload of None \<Rightarrow> False | Some bytes \<Rightarrow> if payload_size < sizeof_ifaddrmsg then False else bytes ! 0 = AF_INET)
      else if message_type = RTM_NEWROUTE \<or> message_type = RTM_DELROUTE then
        (case payload of None \<Rightarrow> False | Some bytes \<Rightarrow>
           if payload_size < sizeof_rtmsg then False else bytes ! 0 = AF_INET \<and> bytes ! 1 = 0)
      else False)"

definition nlerr_error :: "u8 list \<Rightarrow> int" where
  "nlerr_error hdr = (let v = read_le (take 4 (drop NLMSG_HDRLEN hdr)) in if v < 2 ^ 31 then int v else int v - 2 ^ 32)"

text \<open>The walk over one datagram: the error that ends the drain, or whether a message announced a change.\<close>

function scan_messages :: "bool \<Rightarrow> u8 list \<Rightarrow> string + bool" where
  "scan_messages changed hdr =
     (if \<not> NLMSG_OK hdr then Inr changed
      else let rest = drop (NLMSG_ALIGN (nlmsg_len hdr)) hdr in
        if nlmsg_type hdr = NLMSG_DONE then scan_messages changed rest
        else if nlmsg_type hdr = NLMSG_ERROR then
          (if nlmsg_len hdr \<ge> NLMSG_HDRLEN + sizeof_nlmsgerr \<and> nlerr_error hdr \<noteq> 0
           then Inl (''netlink reported error '' @ show_int (- nlerr_error hdr))
           else scan_messages changed rest)
        else scan_messages (changed \<or> affects_network_state (nlmsg_type hdr) (Some (drop NLMSG_HDRLEN hdr))
               (nlmsg_len hdr - NLMSG_HDRLEN)) rest)"
  by pat_completeness auto
termination
  by (relation "measure (\<lambda>(changed, hdr). length hdr)") (auto simp: NLMSG_OK_def NLMSG_HDRLEN_def NLMSG_ALIGN_def)

declare scan_messages.simps [simp del]

section \<open>The monitor\<close>

record NetlinkMonitor =
  nm_fd :: int

definition NetlinkMonitor_default :: NetlinkMonitor where
  "NetlinkMonitor_default = \<lparr> nm_fd = -1 \<rparr>"

text \<open>What each \<open>recv\<close> reports; data beyond the buffer is cut off by the kernel.\<close>

datatype nl_recv = NL_data "u8 list" | NL_EINTR | NL_EAGAIN | NL_ENOBUFS | NL_failed string

text \<open>\<open>None\<close>: the loop is still receiving when the list ends.\<close>

fun drain_loop :: "bool \<Rightarrow> nl_recv list \<Rightarrow> NetlinkMonitor \<Rightarrow> ((string + bool) \<times> NetlinkMonitor) option" where
  "drain_loop changed [] m = None"
| "drain_loop changed (r # rs) m = (case r of
     NL_EINTR \<Rightarrow> drain_loop changed rs m
   | NL_EAGAIN \<Rightarrow> Some (Inr changed, m)
   | NL_ENOBUFS \<Rightarrow> Some (Inr True, m)
   | NL_failed e \<Rightarrow> Some (Inl (''netlink recv failed: '' @ e), m\<lparr> nm_fd := -1 \<rparr>)
   | NL_data data \<Rightarrow>
       (let buffer = take sizeof_buffer data in
        if buffer = [] then Some (Inr changed, m)
        else case scan_messages changed buffer of
          Inl e \<Rightarrow> Some (Inl e, m\<lparr> nm_fd := -1 \<rparr>)
        | Inr changed1 \<Rightarrow> drain_loop (changed1 \<or> length buffer = sizeof_buffer) rs m))"

definition drain :: "nl_recv list \<Rightarrow> NetlinkMonitor \<Rightarrow> ((string + bool) \<times> NetlinkMonitor) option" where
  "drain rs m = (if nm_fd m < 0 then Some (Inr False, m) else drain_loop False rs m)"

text \<open>\<open>socket\<close>, \<open>fcntl\<close> and \<open>bind\<close> give the descriptor, or the \<open>strerror\<close> text.\<close>

definition netlink_open :: "string + int \<Rightarrow> string option \<Rightarrow> string option \<Rightarrow> NetlinkMonitor \<Rightarrow> (string + unit) \<times> NetlinkMonitor" where
  "netlink_open sock nonblock_error bind_error m =
     (if nm_fd m \<ge> 0 then (Inr (), m)
      else case sock of
        Inl e \<Rightarrow> (Inl (''netlink socket failed: '' @ e), m)
      | Inr fd \<Rightarrow> (case nonblock_error of
          Some e \<Rightarrow> (Inl (''netlink nonblocking setup failed: '' @ e), m)
        | None \<Rightarrow> (case bind_error of
            Some e \<Rightarrow> (Inl (''netlink bind failed: '' @ e), m)
          | None \<Rightarrow> (Inr (), m\<lparr> nm_fd := fd \<rparr>))))"

definition netlink_close :: "NetlinkMonitor \<Rightarrow> NetlinkMonitor" where
  "netlink_close m = (if nm_fd m \<ge> 0 then m\<lparr> nm_fd := -1 \<rparr> else m)"

section \<open>What the kernel writes\<close>

record NlMessage =
  nl_type :: u16
  nl_flags :: u16
  nl_seq :: u32
  nl_pid :: u32
  nl_body :: "u8 list"

fun write_le :: "nat \<Rightarrow> nat \<Rightarrow> u8 list" where
  "write_le 0 v = []"
| "write_le (Suc n) v = of_nat v # write_le n (v div 256)"

definition nl_encode :: "NlMessage \<Rightarrow> u8 list" where
  "nl_encode m = (let len = NLMSG_HDRLEN + length (nl_body m) in
     write_le 4 len @ write_le 2 (unat (nl_type m)) @ write_le 2 (unat (nl_flags m)) @ write_le 4 (unat (nl_seq m))
       @ write_le 4 (unat (nl_pid m)) @ nl_body m @ replicate (NLMSG_ALIGN len - len) 0)"

text \<open>A notification of a link, of an IPv4 address, or of an IPv4 default route.\<close>

definition announces_change :: "NlMessage \<Rightarrow> bool" where
  "announces_change m \<longleftrightarrow> (let t = unat (nl_type m); b = nl_body m in
     t \<in> {16, 17} \<and> length b \<ge> 16
     \<or> t \<in> {20, 21} \<and> length b \<ge> 8 \<and> b ! 0 = 2
     \<or> t \<in> {24, 25} \<and> length b \<ge> 12 \<and> b ! 0 = 2 \<and> b ! 1 = 0)"

definition no_error :: "NlMessage \<Rightarrow> bool" where
  "no_error m \<longleftrightarrow> unat (nl_type m) \<noteq> NLMSG_ERROR \<or> length (nl_body m) < sizeof_nlmsgerr \<or> take 4 (nl_body m) = [0, 0, 0, 0]"

text \<open>What a kernel can send to a subscriber of notifications.\<close>

definition notification :: "NlMessage \<Rightarrow> bool" where
  "notification m \<longleftrightarrow> no_error m \<and> NLMSG_HDRLEN + length (nl_body m) < 2 ^ 32"

definition datagram :: "NlMessage list \<Rightarrow> u8 list" where
  "datagram ms = concat (map nl_encode ms)"

lemma length_write_le [simp]: "length (write_le n v) = n"
  by (induction n arbitrary: v) simp_all

lemma read_write_le: "v < 256 ^ n \<Longrightarrow> read_le (write_le n v) = v"
proof (induction n arbitrary: v)
  case (Suc n)
  have "v div 256 < 256 ^ n" using Suc.prems by (simp add: less_mult_imp_div_less mult.commute)
  then show ?case using Suc.IH [of "v div 256"] by (simp add: unat_of_nat take_bit_eq_mod)
qed simp

lemma align_ge: "n \<le> NLMSG_ALIGN n"
  unfolding NLMSG_ALIGN_def by presburger

lemma length_nl_encode: "length (nl_encode m) = NLMSG_ALIGN (NLMSG_HDRLEN + length (nl_body m))"
  using align_ge [of "NLMSG_HDRLEN + length (nl_body m)"] by (simp add: nl_encode_def Let_def NLMSG_HDRLEN_def)

lemma nl_encode_nonempty: "nl_encode m \<noteq> []"
  using length_nl_encode [of m] align_ge [of "NLMSG_HDRLEN + length (nl_body m)"] by (auto simp: NLMSG_HDRLEN_def)

text \<open>The first message of a buffer is read as it was written.\<close>

lemma nl_encode_head:
  assumes "NLMSG_HDRLEN + length (nl_body m) < 2 ^ 32"
  shows "nlmsg_len (nl_encode m @ r) = NLMSG_HDRLEN + length (nl_body m)"
    and "nlmsg_type (nl_encode m @ r) = unat (nl_type m)"
    and "NLMSG_OK (nl_encode m @ r)"
    and "drop (NLMSG_ALIGN (NLMSG_HDRLEN + length (nl_body m))) (nl_encode m @ r) = r"
    and "take (length (nl_body m)) (drop NLMSG_HDRLEN (nl_encode m @ r)) = nl_body m"
proof -
  let ?n = "NLMSG_HDRLEN + length (nl_body m)"
  show len: "nlmsg_len (nl_encode m @ r) = ?n"
    using assms by (simp add: nlmsg_len_def nl_encode_def Let_def read_write_le)
  show "nlmsg_type (nl_encode m @ r) = unat (nl_type m)"
    using unsigned_less [where 'a = nat, of "nl_type m"] by (simp add: nlmsg_type_def nl_encode_def Let_def read_write_le)
  have "?n \<le> length (nl_encode m)" by (simp add: length_nl_encode align_ge)
  then show "NLMSG_OK (nl_encode m @ r)" by (simp add: NLMSG_OK_def len NLMSG_HDRLEN_def)
  show "drop (NLMSG_ALIGN ?n) (nl_encode m @ r) = r" by (simp add: length_nl_encode)
  show "take (length (nl_body m)) (drop NLMSG_HDRLEN (nl_encode m @ r)) = nl_body m"
    by (simp add: nl_encode_def Let_def NLMSG_HDRLEN_def)
qed


lemma affects_announces:
  assumes "take (length (nl_body m)) p = nl_body m"
  shows "affects_network_state (unat (nl_type m)) (Some p) (length (nl_body m)) \<longleftrightarrow> announces_change m"
proof -
  have nth: "p ! i = nl_body m ! i" if "i < length (nl_body m)" for i
    using that nth_take [of i "length (nl_body m)" p] by (simp add: assms)
  have "length (nl_body m) \<ge> 8 \<longrightarrow> p ! 0 = nl_body m ! 0 \<and> p ! 1 = nl_body m ! 1"
    by (intro impI conjI; rule nth; linarith)
  then show ?thesis
    by (auto simp: affects_network_state_def announces_change_def Let_def RTM_NEWLINK_def RTM_DELLINK_def RTM_NEWADDR_def
        RTM_DELADDR_def RTM_NEWROUTE_def RTM_DELROUTE_def sizeof_ifinfomsg_def sizeof_ifaddrmsg_def sizeof_rtmsg_def AF_INET_def)
qed

lemma announces_not_control: "announces_change m \<Longrightarrow> unat (nl_type m) \<noteq> NLMSG_DONE \<and> unat (nl_type m) \<noteq> NLMSG_ERROR"
  by (auto simp: announces_change_def Let_def NLMSG_DONE_def NLMSG_ERROR_def)

text \<open>One turn of the walk on a buffer that starts with the bytes of a notification, possibly without all of its padding.\<close>

lemma scan_step:
  assumes "notification m" and "nlmsg_len hdr = NLMSG_HDRLEN + length (nl_body m)" and "nlmsg_type hdr = unat (nl_type m)"
    and "NLMSG_OK hdr" and "take (length (nl_body m)) (drop NLMSG_HDRLEN hdr) = nl_body m"
  shows "scan_messages ch hdr =
    scan_messages (ch \<or> announces_change m) (drop (NLMSG_ALIGN (NLMSG_HDRLEN + length (nl_body m))) hdr)"
proof -
  have e: "nlerr_error hdr = 0" if "take 4 (nl_body m) = [0, 0, 0, 0]" "\<not> length (nl_body m) < sizeof_nlmsgerr"
  proof -
    have "take 4 (drop NLMSG_HDRLEN hdr) = take 4 (take (length (nl_body m)) (drop NLMSG_HDRLEN hdr))"
      using that(2) by (simp add: sizeof_nlmsgerr_def min_def)
    also have "\<dots> = [0, 0, 0, 0]" using that(1) by (simp add: assms(5))
    finally show ?thesis by (simp add: nlerr_error_def)
  qed
  consider "nlmsg_type hdr = NLMSG_DONE" "\<not> announces_change m"
    | "nlmsg_type hdr = NLMSG_ERROR" "nlmsg_type hdr \<noteq> NLMSG_DONE" "\<not> announces_change m"
    | "nlmsg_type hdr \<noteq> NLMSG_DONE" "nlmsg_type hdr \<noteq> NLMSG_ERROR"
    using announces_not_control [of m] assms(3) by (auto simp: NLMSG_DONE_def NLMSG_ERROR_def)
  then show ?thesis
  proof cases
    case 1
    with assms show ?thesis by (simp add: scan_messages.simps [of ch hdr] Let_def)
  next
    case 2
    then have "\<not> (nlmsg_len hdr \<ge> NLMSG_HDRLEN + sizeof_nlmsgerr \<and> nlerr_error hdr \<noteq> 0)"
      using assms(1-3) e by (auto simp: notification_def no_error_def)
    with 2 assms(2,4) show ?thesis unfolding scan_messages.simps [of ch hdr] by (simp only: if_False simp_thms Let_def if_True)
  next
    case 3
    with assms affects_announces [OF assms(5)] show ?thesis by (simp add: scan_messages.simps [of ch hdr] Let_def)
  qed
qed

lemma scan_datagram:
  "list_all notification ms \<Longrightarrow> scan_messages ch (datagram ms) = Inr (ch \<or> list_ex announces_change ms)"
proof (induction ms arbitrary: ch)
  case Nil
  then show ?case by (simp add: datagram_def scan_messages.simps NLMSG_OK_def NLMSG_HDRLEN_def)
next
  case (Cons m ms)
  then have "NLMSG_HDRLEN + length (nl_body m) < 2 ^ 32" by (simp add: notification_def)
  note head = nl_encode_head [OF this, of "datagram ms"]
  show ?case
    using Cons scan_step [OF _ head(1,2,3,5), of ch] head(4) by (simp add: datagram_def disj_assoc)
qed

text \<open>A datagram that is cut off anywhere is still read without an error.\<close>

lemma scan_cut_datagram: "list_all notification ms \<Longrightarrow> \<exists>c. scan_messages ch (take k (datagram ms)) = Inr c"
proof (induction ms arbitrary: ch k)
  case Nil
  then show ?case by (simp add: datagram_def scan_messages.simps NLMSG_OK_def NLMSG_HDRLEN_def)
next
  case (Cons m ms)
  then have n: "notification m" and len: "NLMSG_HDRLEN + length (nl_body m) < 2 ^ 32" by (simp_all add: notification_def)
  let ?b = "take k (datagram (m # ms))" and ?n = "NLMSG_HDRLEN + length (nl_body m)"
  have d: "datagram (m # ms) = nl_encode m @ datagram ms" by (simp add: datagram_def)
  show ?case
  proof (cases "NLMSG_OK ?b")
    case True
    note head = nl_encode_head [OF len, of "datagram ms", folded d]
    have k: "16 \<le> k" using True by (simp add: NLMSG_OK_def NLMSG_HDRLEN_def)
    then have l: "nlmsg_len ?b = ?n" "nlmsg_type ?b = unat (nl_type m)"
      using head(1,2) by (simp_all add: nlmsg_len_def nlmsg_type_def min_absorb1 drop_take)
    then have "?n \<le> k" using True by (simp add: NLMSG_OK_def)
    then have "take (length (nl_body m)) (drop NLMSG_HDRLEN ?b) = nl_body m"
      using head(5) by (simp add: drop_take min_absorb1)
    note step = scan_step [OF n l True this, of ch]
    have "drop (NLMSG_ALIGN ?n) ?b = take (k - NLMSG_ALIGN ?n) (datagram ms)" using head(4) by (simp add: drop_take)
    then show ?thesis using step Cons by simp
  qed (simp add: scan_messages.simps)
qed

lemma drain_loop_datagrams:
  assumes "list_all (list_all notification) ds" and "list_all (\<lambda>ms. ms \<noteq> []) ds" and "e = NL_EAGAIN \<or> e = NL_ENOBUFS"
  shows "drain_loop ch (map (\<lambda>ms. NL_data (datagram ms)) ds @ [e]) m =
    Some (Inr (ch \<or> e = NL_ENOBUFS \<or> (\<exists>ms \<in> set ds. list_ex announces_change ms \<or> length (datagram ms) \<ge> sizeof_buffer)), m)"
  using assms
proof (induction ds arbitrary: ch)
  case (Cons ms ds)
  have ne: "take sizeof_buffer (datagram ms) \<noteq> []"
    using Cons.prems(2) nl_encode_nonempty by (cases ms) (simp_all add: datagram_def sizeof_buffer_def)
  show ?case
  proof (cases "length (datagram ms) \<ge> sizeof_buffer")
    case True
    obtain c where "scan_messages ch (take sizeof_buffer (datagram ms)) = Inr c"
      using scan_cut_datagram Cons.prems(1) by fastforce
    moreover have "length (take sizeof_buffer (datagram ms)) = sizeof_buffer" using True by simp
    ultimately show ?thesis using Cons.IH [of True] Cons.prems ne True by (simp add: Let_def del: length_take)
  next
    case False
    then have "take sizeof_buffer (datagram ms) = datagram ms" by simp
    then show ?thesis
      using Cons.IH [of "ch \<or> list_ex announces_change ms"] Cons.prems ne False scan_datagram [of ms ch]
      by (simp add: disj_ac)
  qed
qed auto

text \<open>C38: For every sequence of datagrams of notifications, whatever their order and number, a drain on an open monitor ends when the
  kernel has no more, keeps the monitor open, and reports a change exactly when some message announces a link, an
  IPv4 address or an IPv4 default route, or when messages may have been lost: a datagram filled the buffer or the kernel
  reported an overrun.\<close>

theorem drain_reports_exactly:
  assumes "nm_fd m \<ge> 0" and "list_all (list_all notification) ds" and "list_all (\<lambda>ms. ms \<noteq> []) ds"
    and "e = NL_EAGAIN \<or> e = NL_ENOBUFS"
  shows "drain (map (\<lambda>ms. NL_data (datagram ms)) ds @ [e]) m =
    Some (Inr (e = NL_ENOBUFS \<or> (\<exists>ms \<in> set ds. list_ex announces_change ms \<or> length (datagram ms) \<ge> sizeof_buffer)), m)"
  using assms drain_loop_datagrams [OF assms(2,3,4), of False m] by (simp add: drain_def)

theorem drain_reports_exactly_witness:
  "drain [NL_data (datagram [\<lparr> nl_type = 24, nl_flags = 0, nl_seq = 0, nl_pid = 0, nl_body = [2, 24] @ replicate 10 0 \<rparr>,
       \<lparr> nl_type = 20, nl_flags = 0, nl_seq = 1, nl_pid = 7, nl_body = [2, 24, 0, 0, 3, 0, 0, 0, 1] \<rparr>]), NL_EAGAIN] \<lparr> nm_fd = 5 \<rparr>
   = Some (Inr True, \<lparr> nm_fd = 5 \<rparr>)"
  using drain_reports_exactly [of "\<lparr> nm_fd = 5 \<rparr>"
      "[[\<lparr> nl_type = 24, nl_flags = 0, nl_seq = 0, nl_pid = 0, nl_body = [2, 24] @ replicate 10 0 \<rparr>,
         \<lparr> nl_type = 20, nl_flags = 0, nl_seq = 1, nl_pid = 7, nl_body = [2, 24, 0, 0, 3, 0, 0, 0, 1] \<rparr>]]" NL_EAGAIN]
  by (simp add: notification_def no_error_def NLMSG_HDRLEN_def NLMSG_ERROR_def announces_change_def)

end
