(* ===== verification/System.thy ===== *)
theory System
  imports Server_Bounds Netlink Wpa_Ctrl Daemon_Files
begin

text \<open>
  The daemon as one state, behind the server: the members of \<open>NetworkDaemon\<close> with the operations of the component
  theories wired in as \<^verbatim>\<open>src/service/network_daemon.cpp\<close> wires them, the record of operations the IPC layer
  calls, and the ports of the server over the daemon and the sockets together. The threads of the WPA monitor
  write \<open>dm_events\<close> between two operations. The theorem follows a request from the bytes a client sends to the
  committed configuration file and the bytes it is answered with.
\<close>

section \<open>The daemon\<close>

record 'x DaemonState =
  dm_run :: "Machine Run"
  dm_manager :: WifiManagerState
  dm_scan :: WifiScanLifecycle
  dm_events :: WpaEventFact
  dm_last_wpa_event_sequence :: u64
  dm_netlink :: "NetlinkMonitor option"
  dm_air :: 'x

text \<open>\<open>dd_drain\<close> is \<open>netlink_monitor_->drain\<close> as it returns; \<open>dd_air\<close> are the control socket of the supplicant and the
  shell commands of the Wi-Fi backend.\<close>

record 'x DaemonPorts =
  dd_version :: string
  dd_eth_iface :: string
  dd_wifi_iface :: string
  dd_config_dir :: string
  dd_strerror :: "nat \<Rightarrow> string"
  dd_udhcpc :: UdhcpcPorts
  dd_getifaddrs :: "Host \<Rightarrow> IfAddr list option \<times> Host"
  dd_air :: "'x WifiPorts"
  dd_clock :: "'x \<Rightarrow> int \<times> 'x"
  dd_drain :: "NetlinkMonitor \<Rightarrow> 'x \<Rightarrow> ((string + bool) \<times> NetlinkMonitor) \<times> 'x"

definition dd_ops :: "'x DaemonPorts \<Rightarrow> Machine NetworkControlPlaneOps" where
  "dd_ops d = daemon_ops (dd_udhcpc d) (dd_getifaddrs d) (dd_eth_iface d) (dd_wifi_iface d)"

definition on_run :: "(Machine Run \<Rightarrow> 'a \<times> Machine Run) \<Rightarrow> 'x DaemonState \<Rightarrow> 'a \<times> 'x DaemonState" where
  "on_run f s = (case f (dm_run s) of (a, r) \<Rightarrow> (a, s\<lparr> dm_run := r \<rparr>))"

definition on_air :: "('x \<Rightarrow> 'a \<times> 'x) \<Rightarrow> 'x DaemonState \<Rightarrow> 'a \<times> 'x DaemonState" where
  "on_air f s = (case f (dm_air s) of (a, x) \<Rightarrow> (a, s\<lparr> dm_air := x \<rparr>))"

definition air_ports :: "'x DaemonPorts \<Rightarrow> 'x DaemonState WifiPorts" where
  "air_ports d = \<lparr> wp_request = (\<lambda>iface cmd. on_air (wp_request (dd_air d) iface cmd)), wp_system = (\<lambda>cmd. on_air (wp_system (dd_air d) cmd)) \<rparr>"

definition live_snapshot :: "'x DaemonPorts \<Rightarrow> 'x DaemonState \<Rightarrow> NetworkSnapshot \<times> 'x DaemonState" where
  "live_snapshot d = on_run (\<lambda>r. case read_live_snapshot (dd_getifaddrs d) (Some (dd_eth_iface d)) (Some (dd_wifi_iface d))
     (mc_host (world r)) of (s, h) \<Rightarrow> (s, put_host h r))"

definition system_snapshot :: "'x DaemonPorts \<Rightarrow> 'x DaemonState \<Rightarrow> NetworkSnapshot \<times> 'x DaemonState" where
  "system_snapshot d s = (case live_snapshot d s of (live, s1) \<Rightarrow>
     (daemon_snapshot live (dm_events s1) (dm_manager s1) (plane (dm_run s1)), s1))"

definition system_wpa_events :: "'x DaemonPorts \<Rightarrow> 'x DaemonState \<Rightarrow> WpaEventsView NetworkOperationResult \<times> 'x DaemonState" where
  "system_wpa_events d s = (case live_snapshot d s of (live, s1) \<Rightarrow>
     (daemon_wpa_events live (dm_events s1) (dm_manager s1) (plane (dm_run s1)), s1))"

definition stop_wifi_dhcp :: "'x DaemonPorts \<Rightarrow> 'x DaemonState \<Rightarrow> 'x DaemonState" where
  "stop_wifi_dhcp d s = (case Wifi_Manager.stop_dhcp (manager_ports (dd_ops d) (dd_wifi_iface d)) (dm_manager s, dm_run s) of (m, r) \<Rightarrow>
     s\<lparr> dm_manager := m, dm_run := r \<rparr>)"

definition scan_ports :: "'x DaemonPorts \<Rightarrow> 'x DaemonState ScanPorts" where
  "scan_ports d = \<lparr>
     sp_start = Some (\<lambda>s. wifi_scan_start (air_ports d) (dd_wifi_iface d) ([], s)),
     sp_results = Some (\<lambda>s. wifi_scan_results (air_ports d) (dd_wifi_iface d) ([], s)),
     sp_events = Some (\<lambda>s. (scan_markers (dm_events s), s)),
     sp_clock = on_air (dd_clock d) \<rparr>"

definition on_scan :: "(WifiScanLifecycle \<times> 'x DaemonState \<Rightarrow> 'a \<times> WifiScanLifecycle \<times> 'x DaemonState) \<Rightarrow> 'x DaemonState \<Rightarrow> 'a \<times> 'x DaemonState" where
  "on_scan f s = (case f (dm_scan s, s) of (a, l, s1) \<Rightarrow> (a, s1\<lparr> dm_scan := l \<rparr>))"

definition network_event_fd :: "'x DaemonState \<Rightarrow> int" where
  "network_event_fd s = (case dm_netlink s of None \<Rightarrow> -1 | Some m \<Rightarrow> nm_fd m)"

definition system_refresh_external_state :: "'x DaemonPorts \<Rightarrow> 'x DaemonState \<Rightarrow> bool \<times> 'x DaemonState" where
  "system_refresh_external_state d = on_run (refresh_external_state (dd_ops d))"

text \<open>The result, and \<open>changed\<close>.\<close>

definition system_consume_network_events :: "'x DaemonPorts \<Rightarrow> 'x DaemonState \<Rightarrow> bool \<times> bool \<times> 'x DaemonState" where
  "system_consume_network_events d s = (case dm_netlink s of
     None \<Rightarrow> (True, False, s)
   | Some m \<Rightarrow> (case dd_drain d m (dm_air s) of ((res, m1), x) \<Rightarrow>
       let s1 = s\<lparr> dm_netlink := Some m1, dm_air := x \<rparr> in
       case res of
         Inl e \<Rightarrow> (False, False, s1)
       | Inr changed \<Rightarrow> if \<not> changed then (True, False, s1)
           else (case system_refresh_external_state d s1 of (ok, s2) \<Rightarrow> (ok, True, s2))))"

definition system_reconcile :: "'x DaemonPorts \<Rightarrow> 'x DaemonState \<Rightarrow> bool \<times> 'x DaemonState" where
  "system_reconcile d s =
     (case daemon_reconcile_changed (dd_ops d) (dd_wifi_iface d) False (network_event_fd s) (dm_manager s, dm_run s) of
        (ok, changed, m, r) \<Rightarrow> (changed, s\<lparr> dm_manager := m, dm_run := r \<rparr>))"

definition system_runtime_dirty :: "'x DaemonState \<Rightarrow> bool \<times> 'x DaemonState" where
  "system_runtime_dirty s =
     (case consume_runtime_state_dirty False (network_event_fd s) (dm_events s) (dm_last_wpa_event_sequence s) of
        (dirty, n) \<Rightarrow> (dirty, s\<lparr> dm_last_wpa_event_sequence := n \<rparr>))"

text \<open>Construction: brownfield adoption on both interfaces, then the netlink monitor, kept only when it opens.\<close>

definition new_daemon :: "'x DaemonPorts \<Rightarrow> string + int \<Rightarrow> string option \<Rightarrow> string option \<Rightarrow> Machine \<Rightarrow> 'x \<Rightarrow> 'x DaemonState" where
  "new_daemon d sock nonblock_error bind_error m x =
     (let r0 = \<lparr> plane = new_control_plane (dd_eth_iface d) (dd_wifi_iface d), err = [], world = m \<rparr> in
      case adopt_existing_dhcp (dd_ops d) (dd_eth_iface d) r0 of (eth_adopted, r1) \<Rightarrow>
      case adopt_existing_dhcp (dd_ops d) (dd_wifi_iface d) r1 of (wifi_adopted, r2) \<Rightarrow>
      case (if wifi_adopted then adopt_dhcp_running (WifiManagerState_default, r2) else (WifiManagerState_default, r2)) of (manager, r3) \<Rightarrow>
      \<lparr> dm_run = r3, dm_manager = manager, dm_scan = new_scan_lifecycle 5000, dm_events = WpaEventFact_default,
        dm_last_wpa_event_sequence = 0,
        dm_netlink = (case netlink_open sock nonblock_error bind_error NetlinkMonitor_default of (Inr _, n) \<Rightarrow> Some n | (Inl _, n) \<Rightarrow> None),
        dm_air = x \<rparr>)"

section \<open>Behind the server\<close>

definition daemon_operations :: "'x DaemonPorts \<Rightarrow> 'x DaemonState NetworkDaemonOps" where
  "daemon_operations d = (let iface = dd_wifi_iface d; air = air_ports d in \<lparr>
     nd_route_policy_get = (\<lambda>s. (route_policy_get (plane (dm_run s)), s)),
     nd_route_policy_apply = (\<lambda>policy. on_run (route_policy_apply (dd_ops d) policy)),
     nd_eth_get_config = on_run (eth_get_config (dd_config_dir d) (dd_eth_iface d)),
     nd_eth_set_dhcp = on_run (eth_set_dhcp (dd_strerror d) (dd_ops d) (dd_config_dir d) (dd_eth_iface d)),
     nd_eth_set_static = (\<lambda>ip netmask gateway dns.
       on_run (eth_set_static (dd_strerror d) (dd_ops d) (dd_config_dir d) (dd_eth_iface d) ip netmask gateway dns)),
     nd_wifi_scan = daemon_wifi_scan air iface,
     nd_wifi_scan_start = on_scan (daemon_wifi_scan_start (scan_ports d)),
     nd_wifi_scan_status = on_scan (daemon_wifi_scan_status (scan_ports d)),
     nd_wifi_set_enabled = daemon_wifi_set_enabled air iface (stop_wifi_dhcp d),
     nd_wifi_connect = daemon_wifi_connect air iface,
     nd_wifi_connect_saved = daemon_wifi_connect_saved air iface,
     nd_wifi_list_saved = daemon_wifi_list_saved air iface,
     nd_wifi_forget = daemon_wifi_forget air iface,
     nd_wifi_set_autoconnect = daemon_wifi_set_autoconnect air iface,
     nd_wifi_disconnect = daemon_wifi_disconnect air iface (stop_wifi_dhcp d),
     nd_wpa_events = system_wpa_events d,
     nd_snapshot = system_snapshot d,
     nd_ping = (\<lambda>s. (daemon_ping (dd_version d), s)) \<rparr>)"

text \<open>The server's ports: its sockets and its clock are part of the same outside world as the supplicant's.\<close>

definition air_only :: "('x \<Rightarrow> 'x) \<Rightarrow> 'x DaemonState \<Rightarrow> 'x DaemonState" where
  "air_only f s = s\<lparr> dm_air := f (dm_air s) \<rparr>"

definition system_ports :: "'x DaemonPorts \<Rightarrow> 'x ServerPorts \<Rightarrow> 'x DaemonState ServerPorts" where
  "system_ports d n = \<lparr>
     ip_version = dd_version d,
     ip_daemon = daemon_operations d,
     ip_reconcile = system_reconcile d,
     ip_runtime_dirty = system_runtime_dirty,
     ip_refresh = (\<lambda>s. snd (system_refresh_external_state d s)),
     ip_consume_events = system_consume_network_events d,
     ip_now = on_air (ip_now n),
     ip_send = (\<lambda>fd bytes. on_air (ip_send n fd bytes)),
     ip_recv = (\<lambda>fd size. on_air (ip_recv n fd size)),
     ip_shutdown = (\<lambda>fd. air_only (ip_shutdown n fd)),
     ip_close = (\<lambda>fd. air_only (ip_close n fd)),
     ip_poll = (\<lambda>fds timeout. on_air (ip_poll n fds timeout)),
     ip_accept = (\<lambda>fd. on_air (ip_accept n fd)),
     ip_nonblocking = (\<lambda>fd. on_air (ip_nonblocking n fd)),
     ip_socket = on_air (ip_socket n),
     ip_bind = (\<lambda>fd path. on_air (ip_bind n fd path)),
     ip_listen = (\<lambda>fd backlog. on_air (ip_listen n fd backlog)),
     ip_unlink = (\<lambda>path. air_only (ip_unlink n path)),
     ip_chmod = (\<lambda>path mode. air_only (ip_chmod n path mode)) \<rparr>"

section \<open>A request from end to end\<close>

definition static_config :: "string \<Rightarrow> string \<Rightarrow> string \<Rightarrow> string \<Rightarrow> string \<Rightarrow> EthernetConfig" where
  "static_config iface ip netmask gateway dns = \<lparr> ec_iface = iface, ec_method = ''static'', ec_ip4 = ip, ec_netmask4 = netmask,
     ec_gateway4 = gateway, ec_dns4 = dns, ec_route_metric = 10, ec_dns_enabled = (dns \<noteq> []) \<rparr>"

definition machine_files :: "'x DaemonState \<Rightarrow> string \<Rightarrow> string option" where
  "machine_files s = h_files (mc_host (world (dm_run s)))"

text \<open>The daemon's answer goes with the files: success with exactly the desired file, failure with every configuration file kept.\<close>

definition committed_or_kept :: "'x DaemonPorts \<Rightarrow> EthernetConfig \<Rightarrow> EthernetConfig NetworkOperationResult \<Rightarrow> 'x DaemonState \<Rightarrow> 'x DaemonState \<Rightarrow> bool" where
  "committed_or_kept d desired res s s1 \<longleftrightarrow>
     (if op_ok res
      then or_value res = desired \<and> machine_files s1 (ethernet_config_path (dd_config_dir d)) = Some (serialize_ethernet_config desired)
      else machine_files s1 (ethernet_config_path (dd_config_dir d)) = machine_files s (ethernet_config_path (dd_config_dir d)))"

definition quiet_system :: "'x DaemonPorts \<Rightarrow> bool" where
  "quiet_system d \<longleftrightarrow> quiet_machine (config_file (dd_config_dir d)) (dd_udhcpc d) (dd_getifaddrs d) \<and> reserved (config_file (dd_config_dir d))"

lemma stage_not_config: "ethernet_config_path dir \<noteq> stage_path dir n q"
  by (simp add: stage_path_def)

lemma set_static_files:
  assumes "quiet_system d"
    and "nd_eth_set_static (daemon_operations d) ip netmask gateway dns s = (res, s1)"
  shows "committed_or_kept d (static_config (dd_eth_iface d) ip netmask gateway dns) res s s1"
proof -
  let ?dir = "dd_config_dir d" and ?des = "static_config (dd_eth_iface d) ip netmask gateway dns"
  obtain c h where l: "load_ethernet_config ?dir (dd_eth_iface d) (mc_host (world (dm_run s))) = (c, h)" by fastforce
  note lf = load_files [OF l]
  have des: "c\<lparr> ec_iface := dd_eth_iface d, ec_method := ''static'', ec_ip4 := ip, ec_netmask4 := netmask, ec_gateway4 := gateway,
      ec_dns4 := dns, ec_route_metric := 10, ec_dns_enabled := (dns \<noteq> []) \<rparr> = ?des"
    by (cases c) (simp add: static_config_def)
  obtain r1 where t: "apply_ethernet_transaction (dd_strerror d) (dd_ops d) ?dir (dd_eth_iface d) ?des (put_host h (dm_run s)) = (res, r1)"
    and s1: "s1 = s\<lparr> dm_run := r1 \<rparr>"
    using assms(2) by (auto simp: daemon_operations_def Let_def on_run_def eth_set_static_def l des split: prod.splits)
  have silent: "silent_contract (\<lambda>w. view (config_file ?dir) (mc_host w)) (dd_ops d)"
    unfolding dd_ops_def by (rule daemon_ops_silent) (use assms(1) in \<open>simp_all add: quiet_system_def\<close>)
  show ?thesis
    using transaction_file(1) [OF silent t] transaction_file(2) [OF silent t, where q = "ethernet_config_path ?dir"] lf
      stage_not_config config_paths(1) [of ?dir]
    by (auto simp: committed_or_kept_def machine_files_def s1 put_host_def)
qed

lemma read_string_printed:
  assumes "list_all (scalar \<circ> snd) fs" and "distinct (map fst fs)" and "map_of fs k = Some (JString v)"
  shows "read_string (print_json (JObject fs)) k = Some v"
proof -
  have "parse_full_string (quoted v) = Some v"
    using reader_quoted [of v "[]"] skip_ws_quoted [of v "[]"] by (simp add: parse_full_string_def)
  then show ?thesis using find_member_print [OF assms(1,2), of k] assms(3) by (simp add: read_string_def quoted_def)
qed

definition set_static_params :: "string \<Rightarrow> string \<Rightarrow> string \<Rightarrow> string \<Rightarrow> json" where
  "set_static_params ip netmask gateway dns =
     JObject [(''ip'', JString ip), (''mask'', JString netmask), (''gateway'', JString gateway), (''dns'', JString dns)]"

lemma dispatch_set_static:
  "dispatch_business_request ops rid ''eth.set_static'' (print_json (set_static_params ip netmask gateway dns)) w =
     respond rid ethernet_config_payload (nd_eth_set_static ops ip netmask gateway dns w)"
proof -
  let ?fs = "[(''ip'', JString ip), (''mask'', JString netmask), (''gateway'', JString gateway), (''dns'', JString dns)]"
  have r: "read_string (print_json (JObject ?fs)) k = Some v" if "map_of ?fs k = Some (JString v)" for k v
    by (rule read_string_printed) (use that in simp_all)
  have "read_string (print_json (JObject ?fs)) ''ip'' = Some ip" "read_string (print_json (JObject ?fs)) ''mask'' = Some netmask"
    "read_string (print_json (JObject ?fs)) ''gateway'' = Some gateway" "read_string (print_json (JObject ?fs)) ''dns'' = Some dns"
    by (rule r; simp)+
  then show ?thesis by (simp add: dispatch_business_request_def set_static_params_def del: print_json.simps)
qed

definition set_static_request :: "u64 \<Rightarrow> string \<Rightarrow> string \<Rightarrow> string \<Rightarrow> string \<Rightarrow> string" where
  "set_static_request rid ip netmask gateway dns =
     probe_request rid ''eth.set_static'' (print_json (set_static_params ip netmask gateway dns))"

lemma handle_set_static:
  assumes "ss_state ss = Ready" and "rid \<noteq> 0"
  shows "handle_frame (mk_frame Msg_Request (set_static_request rid ip netmask gateway dns)) ss =
    (HandleResult_default\<lparr> hr_server_action := DispatchBusinessRequest, hr_action_request_id := rid,
       hr_action_method := ''eth.set_static'', hr_action_params_json := print_json (set_static_params ip netmask gateway dns) \<rparr>, ss)"
proof -
  let ?fs = "[(''ip'', JString ip), (''mask'', JString netmask), (''gateway'', JString gateway), (''dns'', JString dns)]"
  have m: "plain ''eth.set_static''" "json_escape ''eth.set_static'' = ''eth.set_static''" by code_simp+
  have "json_depth (JObject ?fs) \<le> 16" by simp
  from parse_probe_request [OF assms(2) _ m this] show ?thesis
    using assms by (simp add: handle_frame_def handle_request_def mk_frame_def mk_header_def set_static_request_def set_static_params_def
        del: print_json.simps)
qed


lemma client_upd: "i < length (sv_clients s) \<Longrightarrow> client (upd_client i f s) i = f (client s i)"
  by (simp add: client_def upd_client_def)

lemma upd_client_fields [simp]:
  "sv_world (upd_client i f s) = sv_world s" "length (sv_clients (upd_client i f s)) = length (sv_clients s)"
  by (simp_all add: upd_client_def)

text \<open>The first frame of an idle client is always accepted.\<close>

lemma enqueue_first:
  assumes "i < length (sv_clients s)" and "client_ok (client s i)" and "queue_empty (cl_outbound (client s i))"
    and "f \<noteq> []" and "length f \<le> kDefaultOutboundMaxBytes" and "enqueue_frame p i f s = (ok, s1)"
  shows "ok \<and> pending (cl_outbound (client s1 i)) = f \<and> cl_closed (client s1 i) = cl_closed (client s i)
    \<and> sv_world s1 = snd (ip_now p (sv_world s))"
proof -
  let ?q = "cl_outbound (client s i)"
  have e: "oq_frames ?q = []" "oq_queued_bytes ?q = 0" "oq_max_frames ?q = kDefaultOutboundMaxFrames" "oq_max_bytes ?q = kDefaultOutboundMaxBytes"
    using assms(2,3) by (auto simp: client_ok_def queue_empty_def queue_ok_def pending_def)
  then have "enqueue f ?q = (OE_Accepted, ?q\<lparr> oq_queued_bytes := length f, oq_frames := [\<lparr> pf_bytes = f, pf_offset = 0 \<rparr>] \<rparr>)"
    using assms(4,5) by (simp add: enqueue_def kDefaultOutboundMaxFrames_def kDefaultOutboundMaxBytes_def kHeaderSize_def)
  with assms(1,3,6) show ?thesis
    by (auto simp: enqueue_frame_def Let_def start_write_timer_def read_clock_split client_upd pending_def frame_remaining_def)
qed

lemma response_length:
  "encode_response_payload t \<noteq> [] \<Longrightarrow> length (encode_response_payload t) \<le> kDefaultOutboundMaxBytes"
  by (auto simp: encode_response_payload_def encode_frame_def kMagic_def write_be16_def write_be32_def kDefaultOutboundMaxBytes_def
      kHeaderSize_def kMaxPayloadBytes_def split: if_splits)

lemma operation_response_length:
  "operation_response rid res enc \<noteq> [] \<Longrightarrow> length (operation_response rid res enc) \<le> kDefaultOutboundMaxBytes"
  unfolding operation_response_def business_error_def business_success_def
  by (cases "op_ok res") (simp_all only: if_True if_False not_True_eq_False not_False_eq_True response_length)

text \<open>One frame arrives as it was encoded, however its bytes are split.\<close>

lemma request_decoded:
  assumes "encode_frame t x = (CE_None, concat cs)"
  shows "feed_all cs FrameDecoder_default = \<lparr> fd_buffer = [], fd_frames = [mk_frame t x], fd_error = CE_None \<rparr>"
proof -
  have "length x \<le> kMaxPayloadBytes" using assms by (auto simp: encode_frame_def split: if_splits)
  then show ?thesis
    using feed_all_default [of cs] feed_encoded [of "[(t, x)]" "[]"] assms by (simp add: encode_all_def same_result_def)
qed

lemma machine_files_air: "machine_files (snd (on_air f s)) = machine_files s"
  by (simp add: machine_files_def on_air_def split: prod.split)

text \<open>C1: When the bytes of an \<open>eth.set_static\<close> request, in whatever chunks they arrived, have reached an open client whose
  session is ready and whose output is drained, processing them does one of two things. Either the
  committed configuration file is exactly the requested one and the daemon's answer is a success with that configuration, or the
  answer is a failure and the committed file is as it was. The bytes queued for the client are
  the frame of that answer under the request's id; the connection is closed instead only if that frame exceeds the protocol's maximal payload.\<close>

theorem set_static_end_to_end:
  assumes "quiet_system d" and "server_ok s" and "i < length (sv_clients s)"
    and "cl_session (client s i) = Some ss" and "ss_state ss = Ready" and "\<not> cl_closed (client s i)"
    and "queue_empty (cl_outbound (client s i))"
    and "cl_decoder (client s i) = feed_all cs FrameDecoder_default"
    and "encode_frame Msg_Request (set_static_request rid ip netmask gateway dns) = (CE_None, concat cs)" and "rid \<noteq> 0"
    and "process_v1_frame (system_ports d n) i s = (ok, s')"
  shows "\<exists>res. committed_or_kept d (static_config (dd_eth_iface d) ip netmask gateway dns) res (sv_world s) (sv_world s')
    \<and> (let answer = operation_response rid res ethernet_config_payload in
       if answer = [] then \<not> ok \<and> cl_closed (client s' i)
       else ok \<and> pending (cl_outbound (client s' i)) = answer)"
proof -
  let ?p = "system_ports d n" and ?f = "mk_frame Msg_Request (set_static_request rid ip netmask gateway dns)"
  have "cl_decoder (client s i) = \<lparr> fd_buffer = [], fd_frames = [?f], fd_error = CE_None \<rparr>"
    using request_decoded [OF assms(9)] assms(8) by simp
  then have tf: "take_frame (cl_decoder (client s i)) = Some (?f, FrameDecoder_default)"
    by (simp add: take_frame_def FrameDecoder_default_def)
  let ?s1 = "put_session ss FrameDecoder_default i s"
  have s1: "client ?s1 i = (client s i)\<lparr> cl_session := Some ss, cl_decoder := FrameDecoder_default \<rparr>" "sv_world ?s1 = sv_world s"
      "length (sv_clients ?s1) = length (sv_clients s)"
    using assms(3) by (simp_all add: put_session_def client_upd)
  have ok1: "client_ok (client ?s1 i)"
    using put_session_ok [OF assms(2) _ tf, of ss] assms(3,4) s1(3) by (auto simp: server_ok_def client_def list_all_length)
  obtain res w where st: "nd_eth_set_static (daemon_operations d) ip netmask gateway dns (sv_world s) = (res, w)" by fastforce
  note files = set_static_files [OF assms(1) st]
  let ?a = "operation_response rid res ethernet_config_payload"
  have disp: "dispatch_business_request (ip_daemon ?p) rid ''eth.set_static'' (print_json (set_static_params ip netmask gateway dns)) (sv_world s) = (?a, w)"
    by (simp add: dispatch_set_static respond_def system_ports_def st)
  obtain ok2 s2 where send: "send_or_close ?p i ?a (?s1\<lparr> sv_world := w \<rparr>) = (ok2, s2)" by fastforce
  have "process_v1_frame ?p i s = (ok2 \<and> \<not> cl_closed (client s2 i), s2)"
    using assms(4,6) tf handle_set_static [OF assms(5,10)] send s1(2)
    by (cases ok2) (simp_all add: process_v1_frame_def enqueue_response_def run_server_action_def disp HandleResult_default_def Let_def)
  then have proc: "ok = (ok2 \<and> \<not> cl_closed (client s2 i))" "s' = s2" using assms(11) by simp_all
  show ?thesis
  proof (cases "?a = []")
    case True
    then have s2: "\<not> ok2" "s2 = set_closed i (?s1\<lparr> sv_world := w \<rparr>)" using send by (auto simp: send_or_close_def)
    then have "cl_closed (client s2 i)" "sv_world s2 = w"
      using assms(3) s1 by (simp_all add: set_closed_def client_upd)
    then show ?thesis using proc s2(1) files True by (intro exI [of _ res]) simp
  next
    case False
    obtain ok3 s3 where e: "enqueue_frame ?p i ?a (?s1\<lparr> sv_world := w \<rparr>) = (ok3, s3)" by fastforce
    have "ok3 \<and> pending (cl_outbound (client s3 i)) = ?a \<and> cl_closed (client s3 i) = cl_closed (client s i)
        \<and> sv_world s3 = snd (ip_now ?p w)"
      using enqueue_first [OF _ _ _ False operation_response_length [OF False] e] assms(3,7) s1 ok1 by simp
    moreover from this have "s2 = s3" "ok2" using send e False by (auto simp: send_or_close_def)
    moreover have "machine_files (snd (ip_now ?p w)) = machine_files w" by (simp add: system_ports_def machine_files_air)
    ultimately show ?thesis
      using proc assms(6) files False by (intro exI [of _ res]) (simp add: committed_or_kept_def Let_def)
  qed
qed


definition example_daemon_ports :: "int DaemonPorts" where
  "example_daemon_ports = \<lparr> dd_version = ''1'', dd_eth_iface = ''eth0'', dd_wifi_iface = ''wlan0'', dd_config_dir = ''/d/'',
     dd_strerror = (\<lambda>e. []), dd_udhcpc = example_ports 0, dd_getifaddrs = (\<lambda>h. (Some [], h)),
     dd_air = \<lparr> wp_request = (\<lambda>iface cmd w. (Inl ''no supplicant'', w)), wp_system = (\<lambda>cmd w. (0, w)) \<rparr>,
     dd_clock = (\<lambda>w. (w, w)), dd_drain = (\<lambda>m w. ((Inr False, m), w)) \<rparr>"

definition example_system :: "int DaemonState Server" where
  "example_system = (let s = new_server 5 1 \<lparr> dm_run = example_run, dm_manager = WifiManagerState_default, dm_scan = new_scan_lifecycle 5000,
       dm_events = WpaEventFact_default, dm_last_wpa_event_sequence = 0, dm_netlink = None, dm_air = 0 \<rparr> in
     s\<lparr> sv_clients := [(new_client 7 0)\<lparr> cl_protocol := V1, cl_session := Some (new_session 5 ''ns-5-1''\<lparr> ss_state := Ready \<rparr>),
       cl_decoder := feed_all [snd (encode_frame Msg_Request (set_static_request 9 ''10.0.0.2'' ''255.0.0.0'' ''10.0.0.1'' []))] FrameDecoder_default \<rparr>] \<rparr>)"

lemma example_request_length: "length (set_static_request 9 ''10.0.0.2'' ''255.0.0.0'' ''10.0.0.1'' []) = 117"
  by code_simp

lemma example_request_encodes:
  "fst (encode_frame Msg_Request (set_static_request 9 ''10.0.0.2'' ''255.0.0.0'' ''10.0.0.1'' [])) = CE_None"
  by (simp add: encode_frame_def is_valid_message_type_def kMaxPayloadBytes_def example_request_length)

lemma example_request:
  "encode_frame Msg_Request (set_static_request 9 ''10.0.0.2'' ''255.0.0.0'' ''10.0.0.1'' []) =
   (CE_None, concat [snd (encode_frame Msg_Request (set_static_request 9 ''10.0.0.2'' ''255.0.0.0'' ''10.0.0.1'' []))])"
  using example_request_encodes by (simp add: prod_eq_iff)

lemma example_system_ok: "server_ok example_system"
proof -
  have "decoder_wf (feed_all [b] FrameDecoder_default)" for b
    using feed_ok [of FrameDecoder_default b "fst (feed b FrameDecoder_default)" "snd (feed b FrameDecoder_default)"]
    by (simp add: feed_all_def decoder_wf_def FrameDecoder_default_def kHeaderSize_def)
  from this [of "snd (encode_frame Msg_Request (set_static_request 9 ''10.0.0.2'' ''255.0.0.0'' ''10.0.0.1'' []))"]
  have "decoder_wf \<lparr> fd_buffer = [], fd_frames = [mk_frame Msg_Request (set_static_request 9 ''10.0.0.2'' ''255.0.0.0'' ''10.0.0.1'' [])],
      fd_error = CE_None \<rparr>"
    using request_decoded [OF example_request] by simp
  with request_decoded [OF example_request] new_client_ok [of 7 0] show ?thesis
    by (simp add: server_ok_def example_system_def Let_def kMaxActiveClients_def client_ok_def new_client_def)
qed

theorem set_static_end_to_end_witness:
  "\<exists>res. committed_or_kept example_daemon_ports (static_config ''eth0'' ''10.0.0.2'' ''255.0.0.0'' ''10.0.0.1'' []) res
     (sv_world example_system) (sv_world (snd (process_v1_frame (system_ports example_daemon_ports example_server_ports) 0 example_system)))"
proof -
  let ?s = example_system and ?cs = "[snd (encode_frame Msg_Request (set_static_request 9 ''10.0.0.2'' ''255.0.0.0'' ''10.0.0.1'' []))]"
  have q: "quiet_system example_daemon_ports"
    by (simp add: quiet_system_def example_daemon_ports_def example_quiet example_reserved)
  have c: "length (sv_clients ?s) = 1" "cl_session (client ?s 0) = Some (new_session 5 ''ns-5-1''\<lparr> ss_state := Ready \<rparr>)"
    "\<not> cl_closed (client ?s 0)" "queue_empty (cl_outbound (client ?s 0))" "cl_decoder (client ?s 0) = feed_all ?cs FrameDecoder_default"
    by (simp_all add: example_system_def Let_def client_def new_client_def queue_empty_def new_queue_def)
  show ?thesis
    using set_static_end_to_end [OF q example_system_ok _ c(2) _ c(3,4,5) example_request _ prod.collapse [symmetric]] c(1)
    by (auto simp: example_daemon_ports_def)
qed

end
