(* ===== verification/Startup.thy ===== *)
theory Startup
  imports System
begin

text \<open>
  The program's start (\<^verbatim>\<open>src/main.cpp\<close>): the options, the process-wide lock, and the order of the steps of \<open>main\<close>
  with its exit codes. The results of the system calls on the lock file are parameters, a failing one with its \<open>strerror\<close> text.
\<close>

section \<open>Options\<close>

record Options =
  opt_socket_path :: string
  opt_eth_iface :: string
  opt_wifi_iface :: string
  opt_config_dir :: string
  opt_event_dir :: string

definition Options_default :: Options where
  "Options_default = \<lparr> opt_socket_path = ''/tmp/smart_hmi_network.sock'', opt_eth_iface = ''eth0'', opt_wifi_iface = ''wlan0'',
     opt_config_dir = ''/dnake/data'', opt_event_dir = ''/var/run/wpa_supplicant'' \<rparr>"

text \<open>The field an option sets; \<open>None\<close> for \<open>--help\<close>, \<open>-h\<close> and unknown arguments.\<close>

definition option_setter :: "string \<Rightarrow> (string \<Rightarrow> Options \<Rightarrow> Options) option" where
  "option_setter arg =
     (if arg = ''--socket'' then Some (\<lambda>v o1. o1\<lparr> opt_socket_path := v \<rparr>)
      else if arg = ''--eth'' then Some (\<lambda>v o1. o1\<lparr> opt_eth_iface := v \<rparr>)
      else if arg = ''--wifi'' then Some (\<lambda>v o1. o1\<lparr> opt_wifi_iface := v \<rparr>)
      else if arg = ''--config-dir'' then Some (\<lambda>v o1. o1\<lparr> opt_config_dir := v \<rparr>)
      else if arg = ''--event-dir'' then Some (\<lambda>v o1. o1\<lparr> opt_event_dir := v \<rparr>)
      else None)"

text \<open>The arguments after \<open>argv[0]\<close>; \<open>None\<close>: \<open>parse_args\<close> returns false.\<close>

fun parse_args :: "string list \<Rightarrow> Options \<Rightarrow> Options option" where
  "parse_args [] options = Some options"
| "parse_args [arg] options = None"
| "parse_args (arg # v # rest) options = (case option_setter arg of
     None \<Rightarrow> None
   | Some assign \<Rightarrow> if v = [] then None else parse_args rest (assign v options))"

section \<open>The singleton lock\<close>

datatype lock_outcome = Locked | Lock_busy | Lock_failed string

text \<open>\<open>opened\<close> is the descriptor of the lock file; the result is the descriptor kept, or the error. On every
  failure after the opening the descriptor is closed. The owner's number written into the file is not read by the program.\<close>

definition acquire :: "string + int \<Rightarrow> lock_outcome \<Rightarrow> string option \<Rightarrow> string + int" where
  "acquire opened lock cloexec_error = (case opened of
     Inl e \<Rightarrow> Inl (''failed to open singleton lock: '' @ e)
   | Inr fd \<Rightarrow> (case lock of
       Lock_busy \<Rightarrow> Inl ''another network_service instance owns the process lock''
     | Lock_failed e \<Rightarrow> Inl (''failed to acquire singleton lock: '' @ e)
     | Locked \<Rightarrow> (case cloexec_error of
         Some e \<Rightarrow> Inl (''failed to protect singleton lock across exec: '' @ e)
       | None \<Rightarrow> Inr fd)))"

section \<open>main\<close>

text \<open>The exit code and the server as \<open>main\<close> leaves it; the code is \<open>None\<close> when the server still runs after \<open>n\<close> turns of its loop, and
  there is no server when the program ends before it builds one.\<close>

definition service_main :: "string + int \<Rightarrow> lock_outcome \<Rightarrow> string option \<Rightarrow> bool \<Rightarrow> (Options \<Rightarrow> 'w ServerPorts) \<Rightarrow> (Options \<Rightarrow> 'w Server) \<Rightarrow>
    nat \<Rightarrow> string list \<Rightarrow> int option \<times> 'w Server option" where
  "service_main opened lock cloexec_error wake_pipe ports server n args =
     (case parse_args args Options_default of
        None \<Rightarrow> (Some 1, None)
      | Some options \<Rightarrow> (case acquire opened lock cloexec_error of
          Inl e \<Rightarrow> (Some 3, None)
        | Inr fd \<Rightarrow>
            if \<not> wake_pipe then (Some 2, Some (server options))
            else case server_listen (ports options) (opt_socket_path options) (server options) of (listening, s1) \<Rightarrow>
              if \<not> listening then (Some 2, Some (server_stop (ports options) s1))
              else let s2 = server_run (ports options) n s1 in
                if sv_running s2 \<or> sv_clients s2 \<noteq> [] then (None, Some s2)
                else (Some 0, Some (server_stop (ports options) s2))))"

text \<open>Every option is read back from the command line it was given on, whatever the order.\<close>

definition render_options :: "Options \<Rightarrow> (string \<times> string) list" where
  "render_options o1 = [(''--socket'', opt_socket_path o1), (''--eth'', opt_eth_iface o1), (''--wifi'', opt_wifi_iface o1),
     (''--config-dir'', opt_config_dir o1), (''--event-dir'', opt_event_dir o1)]"

lemma options_read_back:
  assumes "opt_socket_path o1 \<noteq> []" and "opt_eth_iface o1 \<noteq> []" and "opt_wifi_iface o1 \<noteq> []"
    and "opt_config_dir o1 \<noteq> []" and "opt_event_dir o1 \<noteq> []"
  shows "parse_args (concat (map (\<lambda>(k, v). [k, v]) (render_options o1))) o2 = Some o1"
  using assms by (simp add: render_options_def option_setter_def)

text \<open>The server exists only in the process that holds the lock.\<close>

lemma server_needs_lock:
  "service_main opened lock cloexec_error wake_pipe ports server n args = (code, Some s) \<Longrightarrow>
   (\<exists>fd. opened = Inr fd) \<and> lock = Locked \<and> cloexec_error = None"
  by (auto simp: service_main_def acquire_def split: option.splits sum.splits lock_outcome.splits)

end
