(* ===== verification/Shutdown.thy ===== *)
theory Shutdown
  imports Startup
begin

text \<open>
  Orderly shutdown: the signal handler of \<^verbatim>\<open>src/main.cpp\<close> and the wake pipe of the server (\<^verbatim>\<open>src/ipc/network_ipc_server.cpp\<close>,
  constructor, destructor, \<open>set_wake_fd\<close> and the drain in the loop). The pipe is the number of bytes in it and its capacity; both ends
  are non-blocking, so a write to a full pipe has no effect and a read of an empty one ends the drain. The theorems: no
  signal that arrives between \<open>set_wake_fd\<close> and the drain is lost, however many arrive, and once the pipe is readable the service
  closes every client and ends with exit code 0.
\<close>

section \<open>The wake pipe\<close>

record WakePipe =
  wp_read_fd :: int
  wp_write_fd :: int
  wp_g_wake_fd :: int
  wp_pending :: nat
  wp_capacity :: nat

definition open_wake_pipe :: "(int \<times> int) option \<Rightarrow> nat \<Rightarrow> WakePipe" where
  "open_wake_pipe pipefd capacity = (case pipefd of
     None \<Rightarrow> \<lparr> wp_read_fd = -1, wp_write_fd = -1, wp_g_wake_fd = -1, wp_pending = 0, wp_capacity = capacity \<rparr>
   | Some (r, w) \<Rightarrow> \<lparr> wp_read_fd = r, wp_write_fd = w, wp_g_wake_fd = -1, wp_pending = 0, wp_capacity = capacity \<rparr>)"

definition set_wake_fd :: "int \<Rightarrow> WakePipe \<Rightarrow> WakePipe" where
  "set_wake_fd fd p = p\<lparr> wp_g_wake_fd := fd \<rparr>"

definition write_wake :: "int \<Rightarrow> WakePipe \<Rightarrow> WakePipe" where
  "write_wake fd p = (if fd = wp_write_fd p \<and> wp_pending p < wp_capacity p then p\<lparr> wp_pending := wp_pending p + 1 \<rparr> else p)"

definition handle_signal :: "WakePipe \<Rightarrow> WakePipe" where
  "handle_signal p = (let fd = wp_g_wake_fd p in if fd \<ge> 0 then write_wake fd p else p)"

text \<open>\<open>while (read(wake_read_fd_, drain, 32) > 0) {}\<close>\<close>

function drain_wake :: "WakePipe \<Rightarrow> WakePipe" where
  "drain_wake p = (let n = min 32 (wp_pending p) in if n > 0 then drain_wake (p\<lparr> wp_pending := wp_pending p - n \<rparr>) else p)"
  by pat_completeness auto
termination
  by (relation "measure wp_pending") (auto simp: Let_def)

declare drain_wake.simps [simp del]

definition close_wake_pipe :: "WakePipe \<Rightarrow> int list \<times> WakePipe" where
  "close_wake_pipe p = (filter (\<lambda>fd. fd \<ge> 0) [wp_read_fd p, wp_write_fd p], p\<lparr> wp_read_fd := -1, wp_write_fd := -1 \<rparr>)"

text \<open>What \<open>poll\<close> sees of it.\<close>

definition wake_readable :: "WakePipe \<Rightarrow> bool" where
  "wake_readable p \<longleftrightarrow> wp_read_fd p \<ge> 0 \<and> wp_pending p > 0"

lemma drain_wake_empties: "drain_wake p = p\<lparr> wp_pending := 0 \<rparr>"
proof (induction p rule: drain_wake.induct)
  case (1 p)
  show ?case
  proof (cases "wp_pending p = 0")
    case True
    then show ?thesis by (subst drain_wake.simps) (simp add: Let_def)
  next
    case False
    then show ?thesis using 1 [OF refl] by (subst drain_wake.simps) (simp add: Let_def)
  qed
qed

lemma handle_signal_fields:
  "wp_read_fd (handle_signal p) = wp_read_fd p" "wp_write_fd (handle_signal p) = wp_write_fd p"
  "wp_g_wake_fd (handle_signal p) = wp_g_wake_fd p" "wp_capacity (handle_signal p) = wp_capacity p"
  "wp_pending p \<le> wp_pending (handle_signal p)"
  by (simp_all add: handle_signal_def write_wake_def Let_def)

lemma signals_accumulate:
  "(\<forall>x\<in>{wp_read_fd, wp_write_fd, wp_g_wake_fd}. x ((handle_signal ^^ k) p) = x p) \<and> wp_capacity ((handle_signal ^^ k) p) = wp_capacity p
   \<and> wp_pending p \<le> wp_pending ((handle_signal ^^ k) p)"
proof (induction k)
  case (Suc k)
  then show ?case using handle_signal_fields [of "(handle_signal ^^ k) p"] by (auto intro: order_trans)
qed simp

text \<open>After the pipe is installed, one signal or any number of them, a full pipe included, leaves it readable.\<close>

theorem signal_not_lost:
  assumes "p = set_wake_fd (wp_write_fd q) q" and "q = open_wake_pipe (Some (r, w)) capacity" and "r \<ge> 0" and "w \<ge> 0" and "capacity > 0"
  shows "wake_readable ((handle_signal ^^ Suc k) p) \<and> \<not> wake_readable (drain_wake ((handle_signal ^^ Suc k) p))"
proof -
  let ?p = "(handle_signal ^^ k) p"
  have f: "wp_read_fd ?p = r" "wp_write_fd ?p = w" "wp_g_wake_fd ?p = w" "wp_capacity ?p = capacity"
    using signals_accumulate [of k p] assms by (simp_all add: set_wake_fd_def open_wake_pipe_def)
  have "wp_pending (handle_signal ?p) > 0"
    using f assms(4,5) by (auto simp: handle_signal_def write_wake_def Let_def)
  then show ?thesis using f(1) assms(3) handle_signal_fields(1) [of ?p] by (simp add: wake_readable_def drain_wake_empties)
qed

section \<open>The service after a signal\<close>

text \<open>The pipe is level-triggered and only the branch that ends the loop reads it: after a signal every poll reports it.\<close>

definition woken :: "'w ServerPorts \<Rightarrow> bool" where
  "woken p \<longleftrightarrow> (\<forall>fds t w. \<exists>r w1. ip_poll p fds t w = (Some r, w1) \<and> pr_wake r)"

lemma woken_iteration:
  assumes "woken p"
  shows "\<not> sv_running (server_iteration p s)"
proof -
  let ?s1 = "before_poll p s"
  obtain timeout s2 where t: "poll_timeout_ms p ?s1 = (timeout, s2)" by fastforce
  obtain r w where "ip_poll p (poll_interest s2) timeout (sv_world s2) = (Some r, w)" "pr_wake r"
    using assms unfolding woken_def by blast
  then show ?thesis by (simp add: server_iteration_def t after_poll_def Let_def)
qed

text \<open>A running server that gets a signal leaves its loop in the turn under way, with every client's descriptor closed; \<open>main\<close> then
  returns 0.\<close>

theorem signal_ends_service:
  assumes "woken p"
  shows "\<not> sv_running (server_loop p (Suc (Suc n)) s) \<and> sv_clients (server_loop p (Suc (Suc n)) s) = []"
proof -
  have fds: "sv_running (fold (close_fd p) cs s) = sv_running s" for cs s
    by (induction cs arbitrary: s) (auto simp: close_fd_def)
  have c: "\<not> sv_running (close_all p s) \<and> sv_clients (close_all p s) = []" if "\<not> sv_running s" for s
    using that fds [of "sv_clients s" s] by (simp add: close_all_def)
  show ?thesis using woken_iteration [OF assms, of s] c by simp
qed

theorem signal_exit_code:
  assumes "woken (ports options)" and "parse_args args Options_default = Some options" and "acquire opened lock cloexec_error = Inr fd"
    and "server_listen (ports options) (opt_socket_path options) (server options) = (True, s)"
  shows "\<exists>s1. service_main opened lock cloexec_error True ports server (Suc (Suc n)) args = (Some 0, Some s1) \<and> sv_listen_fd s1 < 0 \<and> sv_clients s1 = []"
proof -
  let ?s = "server_run (ports options) (Suc (Suc n)) s"
  have "\<not> sv_running ?s" "sv_clients ?s = []"
    using signal_ends_service [OF assms(1)] by (simp_all add: server_run_def del: server_loop.simps)
  then show ?thesis using assms(2-4) by (simp add: service_main_def Let_def server_stop_def)
qed

end
