(* ===== verification/Rc_Probe.thy ===== *)
theory Rc_Probe
  imports Startup
begin

text \<open>
  The release probe (\<^verbatim>\<open>tools/rc/network_service_rc_probe.cpp\<close>), a client of the protocol: its options, the way it reads fields
  out of the server's answers, the checks on READY and the wait for a response. An exception is \<open>Inl\<close> with its text. The
  theorem: what the server sends, the probe understands. \<open>Probe_Client\<close> adds the sockets and the commands.
\<close>

section \<open>Options\<close>

fun positive_loop :: "int \<Rightarrow> string \<Rightarrow> int option" where
  "positive_loop v [] = Some v"
| "positive_loop v (c # s) =
     (if \<not> isdigit c then None
      else let v1 = v * 10 + int (ord c - 48) in if v1 > INT_MAX then None else positive_loop v1 s)"

definition parse_positive_int :: "string \<Rightarrow> int option" where
  "parse_positive_int t = (if t = [] then None else case positive_loop 0 t of None \<Rightarrow> None | Some v \<Rightarrow> if v \<le> 0 then None else Some v)"

record ProbeOptions =
  po_socket_path :: string
  po_command :: string
  po_out_path :: string
  po_out_prefix :: string
  po_timeout_ms :: int
  po_poll_ms :: int
  po_scan_timeout_ms :: int

definition ProbeOptions_default :: ProbeOptions where
  "ProbeOptions_default = \<lparr> po_socket_path = ''/tmp/smart_hmi_network.sock'', po_command = [], po_out_path = [], po_out_prefix = [],
     po_timeout_ms = 1500, po_poll_ms = 100, po_scan_timeout_ms = 10000 \<rparr>"

text \<open>What an option with a value does with it; \<open>None\<close>: the value is refused.\<close>

definition probe_setter :: "string \<Rightarrow> (string \<Rightarrow> ProbeOptions \<Rightarrow> ProbeOptions option) option" where
  "probe_setter arg =
     (if arg = ''--socket'' then Some (\<lambda>v o1. Some (o1\<lparr> po_socket_path := v \<rparr>))
      else if arg = ''--timeout-ms'' then Some (\<lambda>v o1. map_option (\<lambda>n. o1\<lparr> po_timeout_ms := n \<rparr>) (parse_positive_int v))
      else if arg = ''--poll-ms'' then Some (\<lambda>v o1. map_option (\<lambda>n. o1\<lparr> po_poll_ms := n \<rparr>) (parse_positive_int v))
      else if arg = ''--scan-timeout-ms'' then Some (\<lambda>v o1. map_option (\<lambda>n. o1\<lparr> po_scan_timeout_ms := n \<rparr>) (parse_positive_int v))
      else if arg = ''--out'' then Some (\<lambda>v o1. Some (o1\<lparr> po_out_path := v \<rparr>))
      else if arg = ''--out-prefix'' then Some (\<lambda>v o1. Some (o1\<lparr> po_out_prefix := v \<rparr>))
      else None)"

fun probe_parse_loop :: "string list \<Rightarrow> ProbeOptions \<Rightarrow> ProbeOptions option" where
  "probe_parse_loop [] o1 = Some o1"
| "probe_parse_loop (arg # args) o1 = (case probe_setter arg of
     Some assign \<Rightarrow> (case args of
        [] \<Rightarrow> None
      | v # rest \<Rightarrow> if v = [] then None else case assign v o1 of None \<Rightarrow> None | Some o2 \<Rightarrow> probe_parse_loop rest o2)
   | None \<Rightarrow>
       if arg = ''--help'' \<or> arg = ''-h'' then None
       else if arg \<noteq> [] \<and> hd arg = CHR ''-'' then None
       else if po_command o1 = [] then probe_parse_loop args (o1\<lparr> po_command := arg \<rparr>)
       else None)"

definition probe_parse_args :: "string list \<Rightarrow> ProbeOptions option" where
  "probe_parse_args args = (case probe_parse_loop args ProbeOptions_default of
     None \<Rightarrow> None | Some o1 \<Rightarrow> if po_command o1 = [] then None else Some o1)"

section \<open>Reading answers\<close>

definition contains_json_string :: "string \<Rightarrow> string \<Rightarrow> string \<Rightarrow> bool" where
  "contains_json_string json key v = contains (quote_char # key @ [quote_char, CHR '':'', quote_char] @ v @ [quote_char]) json"

definition contains_capability :: "string \<Rightarrow> string \<Rightarrow> bool" where
  "contains_capability json capability = contains (quote_char # capability @ [quote_char]) json"

fun u64_digits :: "u64 \<Rightarrow> bool \<Rightarrow> string \<Rightarrow> (u64 \<times> bool) option" where
  "u64_digits v some [] = Some (v, some)"
| "u64_digits v some (c # s) =
     (if isdigit c then
        (let digit = of_nat (ord c - 48) in
         if v > (u64_max - digit) div 10 then None else u64_digits (v * 10 + digit) True s)
      else Some (v, some))"

definition json_u64 :: "string \<Rightarrow> string \<Rightarrow> string + u64" where
  "json_u64 json key = (case after_first (quote_char # key @ [quote_char, CHR '':'']) json of
     None \<Rightarrow> Inl (''missing uint64 field: '' @ key)
   | Some rest \<Rightarrow> (case u64_digits 0 False rest of
       None \<Rightarrow> Inl ''uint64 field overflow''
     | Some (v, some) \<Rightarrow> if \<not> some then Inl (''invalid uint64 field: '' @ key) else Inr v))"

definition json_status :: "string \<Rightarrow> string + int" where
  "json_status json = (case json_u64 json ''status'' of
     Inl e \<Rightarrow> Inl e
   | Inr v \<Rightarrow> if int (unat v) > INT_MAX then Inl ''status exceeds INT_MAX'' else Inr (int (unat v)))"

definition probe_scan_state :: "string \<Rightarrow> string + string" where
  "probe_scan_state json = (case filter (contains_json_string json ''state'') [''idle'', ''scanning'', ''ready'', ''failed''] of
     [] \<Rightarrow> Inl ''scan response has no recognized state'' | st # _ \<Rightarrow> Inr st)"

section \<open>Session\<close>

definition required_capabilities :: "string list" where
  "required_capabilities = [''events'', ''snapshot-rebase'', ''network-control'']"

text \<open>The checks of \<open>connect_ready\<close> on the first frame received.\<close>

definition check_ready :: "Frame \<Rightarrow> string + string" where
  "check_ready ready =
     (if fh_type (fr_header ready) \<noteq> Msg_Ready then Inl ''HELLO did not produce READY''
      else let t = fr_payload ready in
        if \<not> contains_json_string t ''service'' ''network_service'' then Inl ''READY envelope is invalid''
        else case json_u64 t ''version'' of
          Inl e \<Rightarrow> Inl e
        | Inr version \<Rightarrow> if version \<noteq> 1 then Inl ''READY envelope is invalid''
            else case json_u64 t ''generation'' of
              Inl e \<Rightarrow> Inl e
            | Inr generation \<Rightarrow> if generation = 0 then Inl ''READY envelope is invalid''
                else case filter (\<lambda>c. \<not> contains_capability t c) required_capabilities of
                  c # _ \<Rightarrow> Inl (''READY missing required capability: '' @ c)
                | [] \<Rightarrow> Inr t)"

text \<open>The wait for the response to \<open>request_id\<close> over the frames received; \<open>None\<close> while none of them ends it.\<close>

fun await_response :: "u64 \<Rightarrow> Frame list \<Rightarrow> (string + string) option" where
  "await_response request_id [] = None"
| "await_response request_id (f # fs) =
     (if fh_type (fr_header f) = Msg_Event then await_response request_id fs
      else if fh_type (fr_header f) = Msg_Error then Some (Inl (''server returned ERROR: '' @ fr_payload f))
      else if fh_type (fr_header f) \<noteq> Msg_Response then Some (Inl ''unexpected frame while waiting for RESPONSE'')
      else case json_u64 (fr_payload f) ''requestId'' of
        Inl e \<Rightarrow> Some (Inl e)
      | Inr v \<Rightarrow> if v \<noteq> request_id then Some (Inl ''requestId correlation mismatch'') else Some (Inr (fr_payload f)))"

section \<open>The probe against the server\<close>

lemma after_first_skip:
  "quote_char \<notin> set ds \<Longrightarrow> after_first (quote_char # k) (ds @ r) = after_first (quote_char # k) r"
  by (induction ds) auto

lemma u64_digits_loop: "u64_digits v b s = map_option (\<lambda>(u, r). (u, b \<or> (s \<noteq> [] \<and> isdigit (hd s)))) (uint64_loop v s)"
proof (induction s arbitrary: v b)
  case (Cons c s)
  then show ?case by (cases "uint64_loop (v * 10 + of_nat (ord c - 48)) s") (auto simp: Let_def)
qed simp

lemma u64_digits_show:
  assumes "r = [] \<or> \<not> isdigit (hd r)"
  shows "u64_digits 0 False (show_u64 v @ r) = Some (v, True)"
proof -
  have ds: "list_all isdigit (show_u64 v)" "show_u64 v \<noteq> []" by (simp_all add: show_u64_def show_nat_digits show_nat_nonempty)
  moreover have "uint64_loop 0 (show_u64 v @ r) = Some (v, r)"
    using uint64_loop_exact [OF ds(1) assms, of 0] unsigned_less [where 'a = nat, of v]
    by (simp add: show_u64_def digits_value_show_nat)
  moreover have "isdigit (hd (show_u64 v @ r))" using ds by (cases "show_u64 v") simp_all
  ultimately show ?thesis using ds(2) by (simp add: u64_digits_loop)
qed

lemma quote_not_in_digits: "list_all isdigit ds \<Longrightarrow> quote_char \<notin> set ds"
  by (auto simp: list_all_iff chr_defs)


lemma show_u64_quote: "quote_char \<notin> set (show_u64 v)"
  by (rule quote_not_in_digits) (simp add: show_u64_def show_nat_digits)

text \<open>A field is read where it first occurs.\<close>

lemma json_u64_field:
  assumes "after_first (quote_char # key @ [quote_char, CHR '':'']) json = Some (show_u64 v @ r)" and "r = [] \<or> \<not> isdigit (hd r)"
  shows "json_u64 json key = Inr v"
  using assms u64_digits_show [OF assms(2), of v] by (simp add: json_u64_def)

definition ready_tail :: string where
  \<open>ready_tail = '',"capabilities":["request-response","events","snapshot-rebase","network-control"]}''\<close>

definition ready_text :: "u64 \<Rightarrow> string \<Rightarrow> string" where
  \<open>ready_text g sid = ''{"version":1,"service":"network_service","sessionId":"'' @ sid @ ''","generation":'' @ show_u64 g
      @ ready_tail\<close>

lemma contains_middle: "contains k (a @ k @ b)"
  using contains_iff by blast

lemma ready_text_fields:
  fixes g k :: u64
  defines "sid \<equiv> session_name g k"
  shows "json_u64 (ready_text g sid) ''version'' = Inr 1" and "json_u64 (ready_text g sid) ''generation'' = Inr g"
    and "contains_json_string (ready_text g sid) ''service'' ''network_service''"
    and "contains_capability (ready_text g sid) ''events''" and "contains_capability (ready_text g sid) ''snapshot-rebase''"
    and "contains_capability (ready_text g sid) ''network-control''"
proof -
  show "json_u64 (ready_text g sid) ''version'' = Inr 1"
    by (simp add: json_u64_def ready_text_def chr_defs u64_max_def)
  have \<open>after_first ''"generation":'' (ready_text g sid) = Some (show_u64 g @ ready_tail)\<close>
    using after_first_skip [OF show_u64_quote, of "''generation\":''"] by (simp add: ready_text_def sid_def session_name_def)
  then show "json_u64 (ready_text g sid) ''generation'' = Inr g"
    by (intro json_u64_field [where r = ready_tail]) (simp, simp add: ready_tail_def chr_defs)
  show "contains_json_string (ready_text g sid) ''service'' ''network_service''"
    using contains_middle [of \<open>''"service":"network_service"''\<close> \<open>''{"version":1,''\<close>]
    by (simp add: contains_json_string_def ready_text_def)
  have c: "contains k (ready_text g sid)" if "contains k ready_tail" for k
    using that unfolding contains_iff ready_text_def by (metis append.assoc)
  show "contains_capability (ready_text g sid) ''events''"
    unfolding contains_capability_def by (rule c) code_simp
  show "contains_capability (ready_text g sid) ''snapshot-rebase''"
    unfolding contains_capability_def by (rule c) code_simp
  show "contains_capability (ready_text g sid) ''network-control''"
    unfolding contains_capability_def by (rule c) code_simp
qed

lemma check_ready_text:
  assumes "g \<noteq> 0"
  shows "check_ready (mk_frame Msg_Ready (ready_text g (session_name g k))) = Inr (ready_text g (session_name g k))"
  using assms ready_text_fields [of g k]
  by (simp add: check_ready_def mk_frame_def mk_header_def required_capabilities_def)

definition success_text :: "u64 \<Rightarrow> int \<Rightarrow> string \<Rightarrow> string" where
  "success_text rid status p = ''{'' @ field_text ''requestId'' (show_u64 rid) @ '','' @ field_int ''status'' status @ '','' @ field_text ''result'' p @ ''}''"

lemma success_text_fields:
  assumes "0 \<le> status" and "status \<le> INT_MAX"
  shows "json_u64 (success_text rid status p) ''requestId'' = Inr rid" and "json_status (success_text rid status p) = Inr status"
proof -
  show "json_u64 (success_text rid status p) ''requestId'' = Inr rid"
    by (rule json_u64_field [where r = "'','' @ field_int ''status'' status @ '','' @ field_text ''result'' p @ ''}''"])
      (simp_all add: success_text_def field_text_def chr_defs)
  obtain n where n: "status = int n" "n \<le> 2147483647" using assms zero_le_imp_eq_int by (auto simp: INT_MAX_def)
  then have v: "unat (of_nat n :: u64) = n" by (simp add: unat_of_nat take_bit_nat_eq_self)
  then have st: "show_int status = show_u64 (of_nat n)" by (simp add: n show_int_def show_u64_def)
  have "json_u64 (success_text rid status p) ''status'' = Inr (of_nat n)"
    by (rule json_u64_field [where r = "'','' @ field_text ''result'' p @ ''}''"])
      (use after_first_skip [OF show_u64_quote, of "''status\":''"] in \<open>simp_all add: success_text_def field_text_def field_int_def st chr_defs\<close>)
  then show "json_status (success_text rid status p) = Inr status" using assms by (simp add: json_status_def v n)
qed

lemma await_events:
  "list_all (\<lambda>f. fh_type (fr_header f) = Msg_Event) es \<Longrightarrow> await_response rid (es @ fs) = await_response rid fs"
  by (induction es) auto


lemma length_ready_text: "length (ready_text g (session_name g k)) \<le> kMaxPayloadBytes"
  using length_show_u64 [of g] length_show_u64 [of k] by (simp add: ready_text_def ready_tail_def session_name_def kMaxPayloadBytes_def)

lemma ready_response:
  assumes "g \<noteq> 0"
  shows "hr_response (ready_result (new_session g sid)) = encode_json Msg_Ready (ready_text g sid)"
proof -
  have s: "ss_session_id (new_session g sid) = sid" "ss_generation (new_session g sid) = g" using assms by (simp_all add: new_session_def)
  have "hr_response (handle_result x c) = x" for x c by (simp add: handle_result_def)
  then show ?thesis unfolding ready_result_def s ready_text_def ready_tail_def .
qed

text \<open>The probe understands what the server sends, however the bytes are split: it accepts the READY answer of every session, takes
  the success answer of a request under its own id, after any number of events, and reads its status.\<close>

theorem probe_understands_server:
  assumes "g \<noteq> 0" and "concat cs1 = hr_response (ready_result (new_session g (session_name g k)))"
    and "concat cs2 = business_success rid status p" and "business_success rid status p \<noteq> []"
    and "0 \<le> status" and "status \<le> INT_MAX" and "list_all (\<lambda>f. fh_type (fr_header f) = Msg_Event) es"
  shows "(\<exists>t. map check_ready (fd_frames (feed_all cs1 FrameDecoder_default)) = [Inr t])
    \<and> (\<exists>t. await_response rid (es @ fd_frames (feed_all cs2 FrameDecoder_default)) = Some (Inr t) \<and> json_status t = Inr status)"
proof -
  have "encode_frame Msg_Ready (ready_text g (session_name g k)) = (CE_None, concat cs1)"
    using assms(2) length_ready_text [of g k] unfolding ready_response [OF assms(1)] by (simp add: encode_json_def encode_frame_eq)
  from request_decoded [OF this] have r: "map check_ready (fd_frames (feed_all cs1 FrameDecoder_default)) = [Inr (ready_text g (session_name g k))]"
    by (simp add: check_ready_text [OF assms(1)])
  have "encode_frame Msg_Response (success_text rid status p) = (CE_None, concat cs2)"
    using assms(3,4) by (auto simp: business_success_def encode_response_payload_def success_text_def split: prod.splits if_splits)
  from request_decoded [OF this] have "await_response rid (es @ fd_frames (feed_all cs2 FrameDecoder_default)) = Some (Inr (success_text rid status p))"
    using assms(7) success_text_fields(1) [OF assms(5,6)] by (simp add: await_events mk_frame_def mk_header_def)
  with r success_text_fields(2) [OF assms(5,6), of rid p] show ?thesis by auto
qed

end
