(* ===== verification/Probe_Client.thy ===== *)
theory Probe_Client
  imports Rc_Probe
begin

text \<open>
  The probe at work (\<^verbatim>\<open>tools/rc/network_service_rc_probe.cpp\<close>): deadlines, exact reads and writes, the session over a
  Unix socket, the commands and \<open>main\<close>. System calls, clock, sleeping and output are ports over a world \<open>'w\<close>. The value
  \<open>None\<close> is a run that never returns, since a loop that only ever meets interrupts has no end; \<open>Inl\<close> is an exception with its
  text. What goes to the standard error stream is left out.
  The theorem: on a socket that delivers what the server wrote, in whatever pieces and after whatever interrupts, a session
  is set up and a request returns the server's answer.
\<close>

section \<open>Ports\<close>

datatype probe_errno = Err_INTR | Err_AGAIN | Err_INPROGRESS | Err_other

datatype poll_for = For_read | For_write

text \<open>\<open>Polled hit bad\<close>: a positive count, with whether an asked event and whether an error condition is reported.\<close>

datatype probe_poll = Polled bool bool | Poll_none | Poll_err probe_errno

datatype file_result = File_closed | File_opened | File_written

record 'w ProbePorts =
  pp_clock :: "'w \<Rightarrow> int \<times> 'w"
  pp_sleep :: "int \<Rightarrow> 'w \<Rightarrow> 'w"
  pp_poll :: "int \<Rightarrow> poll_for \<Rightarrow> int \<Rightarrow> 'w \<Rightarrow> probe_poll \<times> 'w"
  pp_send :: "int \<Rightarrow> u8 list \<Rightarrow> 'w \<Rightarrow> (probe_errno + nat) \<times> 'w"
  pp_recv :: "int \<Rightarrow> nat \<Rightarrow> 'w \<Rightarrow> (probe_errno + u8 list) \<times> 'w"
  pp_socket :: "'w \<Rightarrow> int \<times> 'w"
  pp_getfl :: "int \<Rightarrow> 'w \<Rightarrow> int \<times> 'w"
  pp_set_nonblock :: "int \<Rightarrow> int \<Rightarrow> 'w \<Rightarrow> bool \<times> 'w"
  pp_connect :: "int \<Rightarrow> string \<Rightarrow> 'w \<Rightarrow> probe_errno option \<times> 'w"
  pp_socket_error :: "int \<Rightarrow> 'w \<Rightarrow> int option \<times> 'w"
  pp_close :: "int \<Rightarrow> 'w \<Rightarrow> 'w"
  pp_file :: "string \<Rightarrow> string \<Rightarrow> 'w \<Rightarrow> file_result \<times> 'w"
  pp_print :: "string \<Rightarrow> 'w \<Rightarrow> 'w"

section \<open>Deadlines and exact transfers\<close>

definition try_again :: "probe_errno \<Rightarrow> bool" where
  "try_again e \<longleftrightarrow> e = Err_AGAIN \<or> e = Err_INTR"

partial_function (option) wait_fd :: "'w ProbePorts \<Rightarrow> int \<Rightarrow> poll_for \<Rightarrow> int \<Rightarrow> 'w \<Rightarrow> (bool \<times> 'w) option" where
  "wait_fd p fd events deadline_ms w = (case pp_clock p w of (now, w1) \<Rightarrow>
     let remaining = deadline_ms - now in
     if remaining \<le> 0 then Some (False, w1)
     else case pp_poll p fd events (min remaining INT_MAX) w1 of
       (Polled hit bad, w2) \<Rightarrow>
         if hit then Some (True, w2) else if bad then Some (False, w2) else wait_fd p fd events deadline_ms w2
     | (Poll_none, w2) \<Rightarrow> Some (False, w2)
     | (Poll_err e, w2) \<Rightarrow> if e \<noteq> Err_INTR then Some (False, w2) else wait_fd p fd events deadline_ms w2)"

text \<open>The bytes still to be written are the argument of the loop.\<close>

partial_function (option) probe_write_all :: "'w ProbePorts \<Rightarrow> int \<Rightarrow> u8 list \<Rightarrow> int \<Rightarrow> 'w \<Rightarrow> (bool \<times> 'w) option" where
  "probe_write_all p fd bytes deadline_ms w =
     (if bytes = [] then Some (True, w)
      else case wait_fd p fd For_write deadline_ms w of
        None \<Rightarrow> None
      | Some (ok, w1) \<Rightarrow>
          if \<not> ok then Some (False, w1)
          else case pp_send p fd bytes w1 of
            (Inr n, w2) \<Rightarrow> if n > 0 then probe_write_all p fd (drop n bytes) deadline_ms w2 else Some (False, w2)
          | (Inl e, w2) \<Rightarrow> if try_again e then probe_write_all p fd bytes deadline_ms w2 else Some (False, w2))"

text \<open>\<open>got\<close> is the filled part of the buffer; \<open>None\<close> inside the result: returned false.\<close>

partial_function (option) read_exact ::
  "'w ProbePorts \<Rightarrow> int \<Rightarrow> u8 list \<Rightarrow> nat \<Rightarrow> int \<Rightarrow> 'w \<Rightarrow> (u8 list option \<times> 'w) option" where
  "read_exact p fd got n deadline_ms w =
     (if length got \<ge> n then Some (Some got, w)
      else case wait_fd p fd For_read deadline_ms w of
        None \<Rightarrow> None
      | Some (ok, w1) \<Rightarrow>
          if \<not> ok then Some (None, w1)
          else case pp_recv p fd (n - length got) w1 of
            (Inr data, w2) \<Rightarrow>
              if data \<noteq> [] then read_exact p fd (got @ take (n - length got) data) n deadline_ms w2 else Some (None, w2)
          | (Inl e, w2) \<Rightarrow> if try_again e then read_exact p fd got n deadline_ms w2 else Some (None, w2))"

definition probe_sun_path_size :: nat where "probe_sun_path_size = 108"

text \<open>The descriptor, or \<open>-1\<close>.\<close>

definition connect_unix :: "'w ProbePorts \<Rightarrow> string \<Rightarrow> int \<Rightarrow> 'w \<Rightarrow> (int \<times> 'w) option" where
  "connect_unix p path timeout_ms w =
     (if path = [] \<or> length path \<ge> probe_sun_path_size then Some (-1, w)
      else case pp_socket p w of (fd, w1) \<Rightarrow>
      if fd < 0 then Some (-1, w1)
      else case pp_getfl p fd w1 of (flags, w2) \<Rightarrow>
      case (if flags < 0 then (False, w2) else pp_set_nonblock p fd flags w2) of (nonblocking, w3) \<Rightarrow>
      if \<not> nonblocking then Some (-1, pp_close p fd w3)
      else case pp_connect p fd path w3 of
        (None, w4) \<Rightarrow> Some (fd, w4)
      | (Some e, w4) \<Rightarrow>
          if e \<noteq> Err_INPROGRESS then Some (-1, pp_close p fd w4)
          else case pp_clock p w4 of (now, w5) \<Rightarrow>
            (case wait_fd p fd For_write (now + timeout_ms) w5 of
               None \<Rightarrow> None
             | Some (ok, w6) \<Rightarrow>
                 if \<not> ok then Some (-1, pp_close p fd w6)
                 else case pp_socket_error p fd w6 of (socket_error, w7) \<Rightarrow>
                   if socket_error \<noteq> Some 0 then Some (-1, pp_close p fd w7) else Some (fd, w7)))"

definition send_frame :: "'w ProbePorts \<Rightarrow> int \<Rightarrow> MessageType \<Rightarrow> string \<Rightarrow> int \<Rightarrow> 'w \<Rightarrow> ((string + unit) \<times> 'w) option" where
  "send_frame p fd type payload timeout_ms w = (case encode_frame type payload of (error, encoded) \<Rightarrow>
     if error \<noteq> CE_None \<or> encoded = [] then Some (Inl ''failed to encode v1 frame'', w)
     else case pp_clock p w of (now, w1) \<Rightarrow>
       (case probe_write_all p fd encoded (now + timeout_ms) w1 of
          None \<Rightarrow> None
        | Some (ok, w2) \<Rightarrow> if \<not> ok then Some (Inl ''failed to write v1 frame'', w2) else Some (Inr (), w2)))"

definition receive_frame :: "'w ProbePorts \<Rightarrow> int \<Rightarrow> int \<Rightarrow> 'w \<Rightarrow> ((string + Frame) \<times> 'w) option" where
  "receive_frame p fd timeout_ms w = (case pp_clock p w of (now, w1) \<Rightarrow>
     let deadline = now + timeout_ms in
     case read_exact p fd [] kHeaderSize deadline w1 of
       None \<Rightarrow> None
     | Some (None, w2) \<Rightarrow> Some (Inl ''timed out or disconnected while reading v1 header'', w2)
     | Some (Some bytes, w2) \<Rightarrow> (case decode_header bytes of
         Inl error \<Rightarrow> Some (Inl (''invalid v1 header: '' @ codec_error_string error), w2)
       | Inr header \<Rightarrow>
           (case read_exact p fd [] (unat (fh_payload_length header)) deadline w2 of
              None \<Rightarrow> None
            | Some (None, w3) \<Rightarrow> Some (Inl ''timed out or disconnected while reading v1 payload'', w3)
            | Some (Some payload, w3) \<Rightarrow> Some (Inr \<lparr> fr_header = header, fr_payload = map char_of_byte payload \<rparr>, w3))))"

section \<open>Session\<close>

record 'w ProbeSession =
  ps_socket_path :: string
  ps_timeout_ms :: int
  ps_fd :: int
  ps_next_request_id :: u64
  ps_ready_payload :: string
  ps_world :: 'w

definition new_probe_session :: "string \<Rightarrow> int \<Rightarrow> 'w \<Rightarrow> 'w ProbeSession" where
  "new_probe_session path timeout_ms w =
     \<lparr> ps_socket_path = path, ps_timeout_ms = timeout_ms, ps_fd = -1, ps_next_request_id = 1, ps_ready_payload = [], ps_world = w \<rparr>"

type_synonym ('w, 'a) probe_result = "((string + 'a) \<times> 'w ProbeSession) option"

definition hello_payload :: string where
  \<open>hello_payload = ''{"minVersion":1,"maxVersion":1,"client":"network_service_rc_probe","capabilities":[]}''\<close>

text \<open>The exchange of HELLO and READY on the connected socket, with the latency since \<open>start\<close>.\<close>

definition greet :: "'w ProbePorts \<Rightarrow> int \<Rightarrow> 'w ProbeSession \<Rightarrow> ('w, int) probe_result" where
  "greet p start s = (case send_frame p (ps_fd s) Msg_Hello hello_payload (ps_timeout_ms s) (ps_world s) of
     None \<Rightarrow> None
   | Some (Inl e, w) \<Rightarrow> Some (Inl e, s\<lparr> ps_world := w \<rparr>)
   | Some (Inr _, w) \<Rightarrow> (case receive_frame p (ps_fd s) (ps_timeout_ms s) w of
       None \<Rightarrow> None
     | Some (Inl e, w1) \<Rightarrow> Some (Inl e, s\<lparr> ps_world := w1 \<rparr>)
     | Some (Inr ready, w1) \<Rightarrow> (case check_ready ready of
         Inl e \<Rightarrow> Some (Inl e, s\<lparr> ps_world := w1 \<rparr>)
       | Inr payload \<Rightarrow> (case pp_clock p w1 of (now, w2) \<Rightarrow>
           Some (Inr (now - start), s\<lparr> ps_ready_payload := payload, ps_world := w2 \<rparr>)))))"

definition connect_ready :: "'w ProbePorts \<Rightarrow> 'w ProbeSession \<Rightarrow> ('w, int) probe_result" where
  "connect_ready p s = (case pp_clock p (ps_world s) of (start, w1) \<Rightarrow>
     case connect_unix p (ps_socket_path s) (ps_timeout_ms s) w1 of
       None \<Rightarrow> None
     | Some (fd, w2) \<Rightarrow>
         (let s1 = s\<lparr> ps_fd := fd, ps_world := w2 \<rparr> in
          if fd < 0 then Some (Inl ''failed to connect AF_UNIX socket'', s1) else greet p start s1))"

partial_function (option) request_loop_frames ::
  "'w ProbePorts \<Rightarrow> int \<Rightarrow> int \<Rightarrow> u64 \<Rightarrow> 'w \<Rightarrow> ((string + string) \<times> 'w) option" where
  "request_loop_frames p fd timeout_ms request_id w = (case receive_frame p fd timeout_ms w of
     None \<Rightarrow> None
   | Some (Inl e, w1) \<Rightarrow> Some (Inl e, w1)
   | Some (Inr frame, w1) \<Rightarrow> (case await_response request_id [frame] of
       None \<Rightarrow> request_loop_frames p fd timeout_ms request_id w1
     | Some x \<Rightarrow> Some (x, w1)))"

text \<open>The answer with the latency, which is read off the clock only where \<open>timed\<close>, the caller having passed a pointer.\<close>

definition session_request :: "'w ProbePorts \<Rightarrow> bool \<Rightarrow> string \<Rightarrow> string \<Rightarrow> 'w ProbeSession \<Rightarrow> ('w, string \<times> int) probe_result" where
  "session_request p timed mth params s =
     (if ps_fd s < 0 then Some (Inl ''request requires READY session'', s)
      else let request_id = ps_next_request_id s; s1 = s\<lparr> ps_next_request_id := request_id + 1 \<rparr> in
      case pp_clock p (ps_world s) of (start, w1) \<Rightarrow>
      case send_frame p (ps_fd s) Msg_Request (probe_request request_id mth params) (ps_timeout_ms s) w1 of
        None \<Rightarrow> None
      | Some (Inl e, w2) \<Rightarrow> Some (Inl e, s1\<lparr> ps_world := w2 \<rparr>)
      | Some (Inr _, w2) \<Rightarrow> (case request_loop_frames p (ps_fd s) (ps_timeout_ms s) request_id w2 of
          None \<Rightarrow> None
        | Some (Inl e, w3) \<Rightarrow> Some (Inl e, s1\<lparr> ps_world := w3 \<rparr>)
        | Some (Inr payload, w3) \<Rightarrow>
            if timed then (case pp_clock p w3 of (now, w4) \<Rightarrow> Some (Inr (payload, now - start), s1\<lparr> ps_world := w4 \<rparr>))
            else Some (Inr (payload, 0), s1\<lparr> ps_world := w3 \<rparr>)))"

text \<open>The destructor, which runs on every way out of a command's scope.\<close>

definition close_session :: "'w ProbePorts \<Rightarrow> 'w ProbeSession \<Rightarrow> 'w" where
  "close_session p s = (if ps_fd s \<ge> 0 then pp_close p (ps_fd s) (ps_world s) else ps_world s)"

definition in_session ::
  "'w ProbePorts \<Rightarrow> ProbeOptions \<Rightarrow> ('w ProbeSession \<Rightarrow> ('w, 'a) probe_result) \<Rightarrow> 'w \<Rightarrow> ((string + 'a) \<times> 'w) option" where
  "in_session p options body w = (case body (new_probe_session (po_socket_path options) (po_timeout_ms options) w) of
     None \<Rightarrow> None
   | Some (x, s) \<Rightarrow> Some (x, close_session p s))"

section \<open>Commands\<close>

definition write_text :: "'w ProbePorts \<Rightarrow> string \<Rightarrow> string \<Rightarrow> 'w \<Rightarrow> (string + unit) \<times> 'w" where
  "write_text p path text w =
     (if path = [] then (Inr (), w)
      else case pp_file p path (text @ [CHR 0x0A]) w of
        (File_closed, w1) \<Rightarrow> (Inl (''failed to open output file: '' @ path), w1)
      | (File_opened, w1) \<Rightarrow> (Inl (''failed to write output file: '' @ path), w1)
      | (File_written, w1) \<Rightarrow> (Inr (), w1))"

text \<open>\<open>a; b\<close> where \<open>a\<close> may throw or not return.\<close>

definition then_do :: "('w, 'a) probe_result \<Rightarrow> ('a \<Rightarrow> 'w ProbeSession \<Rightarrow> ('w, 'b) probe_result) \<Rightarrow> ('w, 'b) probe_result" where
  "then_do m f = (case m of None \<Rightarrow> None | Some (Inl e, s) \<Rightarrow> Some (Inl e, s) | Some (Inr a, s) \<Rightarrow> f a s)"

definition on_world :: "('w \<Rightarrow> (string + 'a) \<times> 'w) \<Rightarrow> 'w ProbeSession \<Rightarrow> ('w, 'a) probe_result" where
  "on_world f s = (case f (ps_world s) of (x, w) \<Rightarrow> Some (x, s\<lparr> ps_world := w \<rparr>))"

definition print_line :: "'w ProbePorts \<Rightarrow> string \<Rightarrow> 'w \<Rightarrow> (string + unit) \<times> 'w" where
  "print_line p text w = (Inr (), pp_print p (text @ [CHR 0x0A]) w)"

definition now_ms :: "'w ProbePorts \<Rightarrow> 'w \<Rightarrow> (string + int) \<times> 'w" where
  "now_ms p w = (case pp_clock p w of (now, w1) \<Rightarrow> (Inr now, w1))"

definition ready_body :: "'w ProbePorts \<Rightarrow> ProbeOptions \<Rightarrow> 'w ProbeSession \<Rightarrow> ('w, unit) probe_result" where
  "ready_body p options s =
     then_do (connect_ready p s) (\<lambda>latency s1.
     then_do (on_world (write_text p (po_out_path options) (ps_ready_payload s1)) s1) (\<lambda>_.
     on_world (print_line p (''ready_latency_ms='' @ show_int latency))))"

definition command_ready :: "'w ProbePorts \<Rightarrow> ProbeOptions \<Rightarrow> 'w \<Rightarrow> ((string + unit) \<times> 'w) option" where
  "command_ready p options = in_session p options (ready_body p options)"

definition throw_unless :: "bool \<Rightarrow> string \<Rightarrow> 'w ProbeSession \<Rightarrow> ('w, unit) probe_result" where
  "throw_unless ok text s = Some (if ok then Inr () else Inl text, s)"

definition from_json :: "string + 'a \<Rightarrow> 'w ProbeSession \<Rightarrow> ('w, 'a) probe_result" where
  "from_json x s = Some (x, s)"

definition snapshot_body :: "'w ProbePorts \<Rightarrow> ProbeOptions \<Rightarrow> 'w ProbeSession \<Rightarrow> ('w, unit) probe_result" where
  "snapshot_body p options s =
     then_do (connect_ready p s) (\<lambda>_ s1.
     then_do (session_request p True ''network.snapshot'' ''{}'' s1) (\<lambda>(response, latency) s2.
     then_do (from_json (json_status response) s2) (\<lambda>status s3.
     then_do (throw_unless (status = 200) ''network.snapshot did not return status 200'' s3) (\<lambda>_ s4.
     then_do (on_world (write_text p (po_out_path options) response) s4) (\<lambda>_.
     on_world (print_line p (''snapshot_latency_ms='' @ show_int latency)))))))"

definition command_snapshot :: "'w ProbePorts \<Rightarrow> ProbeOptions \<Rightarrow> 'w \<Rightarrow> ((string + unit) \<times> 'w) option" where
  "command_snapshot p options = in_session p options (snapshot_body p options)"

text \<open>One turn of the loop of \<open>command_wait_ready\<close>, the block under \<open>try\<close>.\<close>

definition wait_ready_body :: "'w ProbePorts \<Rightarrow> ProbeOptions \<Rightarrow> int \<Rightarrow> 'w ProbeSession \<Rightarrow> ('w, unit) probe_result" where
  "wait_ready_body p options start s =
     then_do (connect_ready p s) (\<lambda>_ s1.
     then_do (on_world (write_text p (po_out_path options) (ps_ready_payload s1)) s1) (\<lambda>_ s2.
     then_do (on_world (now_ms p) s2) (\<lambda>now.
     on_world (print_line p (''ready_latency_ms='' @ show_int (now - start))))))"

partial_function (option) wait_ready_loop ::
  "'w ProbePorts \<Rightarrow> ProbeOptions \<Rightarrow> int \<Rightarrow> string \<Rightarrow> 'w \<Rightarrow> ((string + unit) \<times> 'w) option" where
  "wait_ready_loop p options start last_error w = (case pp_clock p w of (now, w1) \<Rightarrow>
     if \<not> now < start + po_scan_timeout_ms options then Some (Inl (''READY not recovered before timeout: '' @ last_error), w1)
     else case in_session p options (wait_ready_body p options start) w1 of
       None \<Rightarrow> None
     | Some (Inr _, w2) \<Rightarrow> Some (Inr (), w2)
     | Some (Inl e, w2) \<Rightarrow> wait_ready_loop p options start e (pp_sleep p (po_poll_ms options) w2))"

definition command_wait_ready :: "'w ProbePorts \<Rightarrow> ProbeOptions \<Rightarrow> 'w \<Rightarrow> ((string + unit) \<times> 'w) option" where
  "command_wait_ready p options w = (case pp_clock p w of (start, w1) \<Rightarrow> wait_ready_loop p options start [] w1)"

text \<open>One round of the polling loop of a scan cycle: the answer and its state.\<close>

definition scan_round :: "'w ProbePorts \<Rightarrow> ProbeOptions \<Rightarrow> u64 \<Rightarrow> 'w ProbeSession \<Rightarrow> ('w, string \<times> string) probe_result" where
  "scan_round p options scan_id s =
     then_do (session_request p False ''wifi.scan.status'' ''{}'' (s\<lparr> ps_world := pp_sleep p (po_poll_ms options) (ps_world s) \<rparr>))
       (\<lambda>(response, _) s1.
     then_do (from_json (json_status response) s1) (\<lambda>status s2.
     then_do (throw_unless (status = 200) ''wifi.scan.status did not return status 200'' s2) (\<lambda>_ s3.
     then_do (from_json (json_u64 response ''scanId'') s3) (\<lambda>i s4.
     then_do (throw_unless (i = scan_id) ''wifi.scan.status scanId mismatch'' s4) (\<lambda>_ s5.
     then_do (from_json (probe_scan_state response) s5) (\<lambda>state s6. Some (Inr (response, state), s6)))))))"

partial_function (option) scan_loop ::
  "'w ProbePorts \<Rightarrow> ProbeOptions \<Rightarrow> u64 \<Rightarrow> int \<Rightarrow> string \<Rightarrow> string \<Rightarrow> 'w ProbeSession \<Rightarrow> ('w, string \<times> string) probe_result" where
  "scan_loop p options scan_id deadline final_response state s =
     (if state \<noteq> ''scanning'' then Some (Inr (final_response, state), s)
      else case pp_clock p (ps_world s) of (now, w1) \<Rightarrow>
      if \<not> now < deadline then Some (Inr (final_response, state), s\<lparr> ps_world := w1 \<rparr>)
      else case scan_round p options scan_id (s\<lparr> ps_world := w1 \<rparr>) of
        None \<Rightarrow> None
      | Some (Inl e, s1) \<Rightarrow> Some (Inl e, s1)
      | Some (Inr (response, st), s1) \<Rightarrow> scan_loop p options scan_id deadline response st s1)"

definition write_result :: "'w ProbePorts \<Rightarrow> ProbeOptions \<Rightarrow> string \<Rightarrow> string \<Rightarrow> 'w ProbeSession \<Rightarrow> ('w, unit) probe_result" where
  "write_result p options suffix text =
     on_world (if po_out_prefix options \<noteq> [] then write_text p (po_out_prefix options @ suffix) text else (\<lambda>w. (Inr (), w)))"

text \<open>The first half of a scan cycle: the moment it begins, the id of the scan, the latency, the answer and its state.\<close>

definition scan_begin :: "'w ProbePorts \<Rightarrow> ProbeOptions \<Rightarrow> 'w ProbeSession \<Rightarrow> ('w, int \<times> u64 \<times> int \<times> string \<times> string) probe_result" where
  "scan_begin p options s =
     then_do (connect_ready p s) (\<lambda>_ s1.
     then_do (on_world (now_ms p) s1) (\<lambda>cycle_start s2.
     then_do (session_request p True ''wifi.scan.start'' ''{}'' s2) (\<lambda>(response, latency) s3.
     then_do (from_json (json_status response) s3) (\<lambda>status s4.
     then_do (throw_unless (status = 202 \<or> status = 200) ''wifi.scan.start did not return 202/200'' s4) (\<lambda>_ s5.
     then_do (from_json (json_u64 response ''scanId'') s5) (\<lambda>scan_id s6.
     then_do (write_result p options ''.start.json'' response s6) (\<lambda>_ s7.
     then_do (from_json (probe_scan_state response) s7) (\<lambda>state s8.
     Some (Inr (cycle_start, scan_id, latency, response, state), s8)))))))))"

definition scan_cycle_body :: "'w ProbePorts \<Rightarrow> ProbeOptions \<Rightarrow> 'w ProbeSession \<Rightarrow> ('w, unit) probe_result" where
  "scan_cycle_body p options s =
     then_do (scan_begin p options s) (\<lambda>(cycle_start, scan_id, start_latency, start_response, state0) s1.
     then_do (scan_loop p options scan_id (cycle_start + po_scan_timeout_ms options) [] state0 s1) (\<lambda>(polled, state) s2.
     then_do (write_result p options ''.final.json'' (if polled = [] then start_response else polled) s2) (\<lambda>_ s3.
     then_do (on_world (now_ms p) s3) (\<lambda>now s4.
     then_do (on_world (print_line p (show_u64 scan_id @ '','' @ show_int start_latency @ '','' @ show_int (now - cycle_start)
         @ '','' @ state)) s4) (\<lambda>_.
     throw_unless (state = ''ready'') ''physical scan did not reach ready state'')))))"

definition command_scan_cycle :: "'w ProbePorts \<Rightarrow> ProbeOptions \<Rightarrow> 'w \<Rightarrow> ((string + unit) \<times> 'w) option" where
  "command_scan_cycle p options = in_session p options (scan_cycle_body p options)"

definition probe_command :: "'w ProbePorts \<Rightarrow> ProbeOptions \<Rightarrow> 'w \<Rightarrow> ((string + unit) \<times> 'w) option" where
  "probe_command p options w =
     (if po_command options = ''clock-ms'' then
        (case pp_clock p w of (now, w1) \<Rightarrow> Some (print_line p (show_int now) w1))
      else if po_command options = ''ready'' then command_ready p options w
      else if po_command options = ''snapshot'' then command_snapshot p options w
      else if po_command options = ''wait-ready'' then command_wait_ready p options w
      else if po_command options = ''scan-cycle'' then command_scan_cycle p options w
      else Some (Inl (''unknown command: '' @ po_command options), w))"

text \<open>The exit code.\<close>

definition probe_main :: "'w ProbePorts \<Rightarrow> string list \<Rightarrow> 'w \<Rightarrow> (int \<times> 'w) option" where
  "probe_main p args w = (case probe_parse_args args of
     None \<Rightarrow> Some (2, w)
   | Some options \<Rightarrow> (case probe_command p options w of
       None \<Rightarrow> None
     | Some (Inr _, w1) \<Rightarrow> Some (0, w1)
     | Some (Inl _, w1) \<Rightarrow> Some (1, w1)))"

section \<open>A socket that delivers\<close>

text \<open>What the probe may rely on while it talks to a live server: the clock stays within \<open>limit\<close> milliseconds of \<open>t\<close>; the
  bytes the server writes arrive in order, in pieces of any size; every interrupt, spurious wake-up or refusal to transfer right now
  uses up some of a finite amount of disturbance.\<close>

definition calm :: "bool \<Rightarrow> ('w \<Rightarrow> nat) \<Rightarrow> 'w \<Rightarrow> 'w \<Rightarrow> bool" where
  "calm progress noise w w1 \<longleftrightarrow> (if progress then noise w1 \<le> noise w else noise w1 < noise w)"

fun poll_fine :: "probe_poll \<Rightarrow> bool" where
  "poll_fine (Polled hit bad) = (hit \<or> \<not> bad)"
| "poll_fine Poll_none = False"
| "poll_fine (Poll_err e) = (e = Err_INTR)"

definition clock_prompt :: "'w ProbePorts \<Rightarrow> ('w \<Rightarrow> u8 list) \<Rightarrow> ('w \<Rightarrow> nat) \<Rightarrow> int \<Rightarrow> int \<Rightarrow> bool" where
  "clock_prompt p stream noise t limit \<longleftrightarrow> (\<forall>w now w1. pp_clock p w = (now, w1) \<longrightarrow>
     t \<le> now \<and> now < t + limit \<and> stream w1 = stream w \<and> noise w1 \<le> noise w)"

definition poll_prompt :: "'w ProbePorts \<Rightarrow> ('w \<Rightarrow> u8 list) \<Rightarrow> ('w \<Rightarrow> nat) \<Rightarrow> bool" where
  "poll_prompt p stream noise \<longleftrightarrow> (\<forall>fd events ms w x w1. (events = For_read \<longrightarrow> stream w \<noteq> []) \<longrightarrow> pp_poll p fd events ms w = (x, w1) \<longrightarrow>
     poll_fine x \<and> stream w1 = stream w \<and> calm (\<exists>bad. x = Polled True bad) noise w w1)"

definition recv_delivers :: "'w ProbePorts \<Rightarrow> ('w \<Rightarrow> u8 list) \<Rightarrow> ('w \<Rightarrow> nat) \<Rightarrow> bool" where
  "recv_delivers p stream noise \<longleftrightarrow> (\<forall>fd n w x w1. 0 < n \<longrightarrow> stream w \<noteq> [] \<longrightarrow> pp_recv p fd n w = (x, w1) \<longrightarrow>
     (case x of Inr data \<Rightarrow> data \<noteq> [] \<and> length data \<le> n \<and> stream w = data @ stream w1 \<and> calm True noise w w1
      | Inl e \<Rightarrow> try_again e \<and> stream w1 = stream w \<and> calm False noise w w1))"

definition send_accepts :: "'w ProbePorts \<Rightarrow> ('w \<Rightarrow> u8 list) \<Rightarrow> ('w \<Rightarrow> nat) \<Rightarrow> bool" where
  "send_accepts p stream noise \<longleftrightarrow> (\<forall>fd bytes w x w1. bytes \<noteq> [] \<longrightarrow> pp_send p fd bytes w = (x, w1) \<longrightarrow>
     stream w1 = stream w \<and> (case x of Inr n \<Rightarrow> 0 < n \<and> calm True noise w w1 | Inl e \<Rightarrow> try_again e \<and> calm False noise w w1))"

definition delivers :: "'w ProbePorts \<Rightarrow> ('w \<Rightarrow> u8 list) \<Rightarrow> ('w \<Rightarrow> nat) \<Rightarrow> int \<Rightarrow> int \<Rightarrow> bool" where
  "delivers p stream noise t limit \<longleftrightarrow> clock_prompt p stream noise t limit \<and> poll_prompt p stream noise
     \<and> recv_delivers p stream noise \<and> send_accepts p stream noise"

lemma wait_fd_delivers:
  assumes d: "delivers p stream noise t limit" and "t + limit \<le> deadline" and "events = For_read \<Longrightarrow> stream w \<noteq> []"
  shows "\<exists>w1. wait_fd p fd events deadline w = Some (True, w1) \<and> stream w1 = stream w \<and> noise w1 \<le> noise w"
  using assms(3)
proof (induction "noise w" arbitrary: w rule: less_induct)
  case less
  obtain now w1 where c: "pp_clock p w = (now, w1)" by fastforce
  with d have now: "now < t + limit" "stream w1 = stream w" "noise w1 \<le> noise w"
    unfolding delivers_def clock_prompt_def by blast+
  obtain x w2 where pl: "pp_poll p fd events (min (deadline - now) INT_MAX) w1 = (x, w2)" by fastforce
  with d less.prems now(2) have x: "poll_fine x" "stream w2 = stream w" "calm (\<exists>bad. x = Polled True bad) noise w1 w2"
    unfolding delivers_def poll_prompt_def by metis+
  have step: "wait_fd p fd events deadline w = (case x of
       Polled hit bad \<Rightarrow> if hit then Some (True, w2) else if bad then Some (False, w2) else wait_fd p fd events deadline w2
     | Poll_none \<Rightarrow> Some (False, w2)
     | Poll_err e \<Rightarrow> if e \<noteq> Err_INTR then Some (False, w2) else wait_fd p fd events deadline w2)"
    using now(1) assms(2) by (simp add: wait_fd.simps [of p fd events deadline w] c pl Let_def)
  show ?case
  proof (cases "\<exists>bad. x = Polled True bad")
    case True
    then show ?thesis using x now by (auto simp: step calm_def)
  next
    case False
    then have "noise w2 < noise w" using x(3) now(3) by (simp add: calm_def)
    moreover from this have "\<exists>w3. wait_fd p fd events deadline w2 = Some (True, w3) \<and> stream w3 = stream w2 \<and> noise w3 \<le> noise w2"
      using less.hyps [of w2] less.prems x(2) by metis
    ultimately show ?thesis using False x(1,2) by (cases x) (auto simp: step intro: less_imp_le order_trans)
  qed
qed

lemma read_exact_delivers:
  assumes d: "delivers p stream noise t limit" and "t + limit \<le> deadline"
    and "length got \<le> n" and "n \<le> length got + length (stream w)"
  shows "\<exists>w1. read_exact p fd got n deadline w = Some (Some (got @ take (n - length got) (stream w)), w1)
    \<and> stream w1 = drop (n - length got) (stream w) \<and> noise w1 \<le> noise w"
  using assms(3,4)
proof (induction "n - length got + noise w" arbitrary: got w rule: less_induct)
  case less
  show ?case
  proof (cases "length got = n")
    case True
    then show ?thesis by (simp add: read_exact.simps [of p fd got n deadline w])
  next
    case False
    with less.prems have st: "length got < n" "stream w \<noteq> []" by auto
    obtain w1 where w1: "wait_fd p fd For_read deadline w = Some (True, w1)" "stream w1 = stream w" "noise w1 \<le> noise w"
      using wait_fd_delivers [OF d assms(2)] st(2) by metis
    obtain x w2 where r: "pp_recv p fd (n - length got) w1 = (x, w2)" by fastforce
    have "recv_delivers p stream noise" using d by (simp add: delivers_def)
    from this [unfolded recv_delivers_def, rule_format, OF _ _ r] have x: "case x of Inr data \<Rightarrow> data \<noteq> [] \<and> length data \<le> n - length got \<and> stream w1 = data @ stream w2 \<and> calm True noise w1 w2
        | Inl e \<Rightarrow> try_again e \<and> stream w2 = stream w1 \<and> calm False noise w1 w2"
      using st w1(2) by simp
    define more where "more = (case x of Inr data \<Rightarrow> data | Inl _ \<Rightarrow> [])"
    have m: "stream w = more @ stream w2" "length more \<le> n - length got" "noise w2 \<le> noise w"
      and prog: "more \<noteq> [] \<or> noise w2 < noise w"
      using x w1 st(1) by (auto simp: more_def calm_def split: sum.splits)
    have less': "n - length (got @ more) + noise w2 < n - length got + noise w"
      using prog m(2,3) st(1) by (cases more) auto
    have "read_exact p fd got n deadline w = read_exact p fd (got @ more) n deadline w2"
      using x w1 st(1) by (auto simp: read_exact.simps [of p fd got n deadline w] r more_def split: sum.splits)
    moreover have "length (got @ more) \<le> n" "n \<le> length (got @ more) + length (stream w2)" using m(1,2) st(1) less.prems by simp_all
    from less.hyps [OF less' this] obtain w3 where "read_exact p fd (got @ more) n deadline w2 =
        Some (Some ((got @ more) @ take (n - length (got @ more)) (stream w2)), w3)"
      "stream w3 = drop (n - length (got @ more)) (stream w2)" "noise w3 \<le> noise w2" by blast
    ultimately show ?thesis using m(1,2,3) by simp
  qed
qed

lemma write_all_accepts:
  assumes d: "delivers p stream noise t limit" and "t + limit \<le> deadline"
  shows "\<exists>w1. probe_write_all p fd bytes deadline w = Some (True, w1) \<and> stream w1 = stream w \<and> noise w1 \<le> noise w"
proof (induction "length bytes + noise w" arbitrary: bytes w rule: less_induct)
  case less
  show ?case
  proof (cases "bytes = []")
    case True
    then show ?thesis by (auto simp: probe_write_all.simps [of p fd "[]" deadline w])
  next
    case False
    obtain w1 where w1: "wait_fd p fd For_write deadline w = Some (True, w1)" "stream w1 = stream w" "noise w1 \<le> noise w"
      using wait_fd_delivers [OF d assms(2), of For_write w] by fastforce
    obtain x w2 where r: "pp_send p fd bytes w1 = (x, w2)" by fastforce
    with d False have x: "stream w2 = stream w1"
        "case x of Inr n \<Rightarrow> 0 < n \<and> calm True noise w1 w2 | Inl e \<Rightarrow> try_again e \<and> calm False noise w1 w2"
      unfolding delivers_def send_accepts_def by blast+
    define rest where "rest = (case x of Inr n \<Rightarrow> drop n bytes | Inl _ \<Rightarrow> bytes)"
    have less': "length rest + noise w2 < length bytes + noise w" "noise w2 \<le> noise w" "stream w2 = stream w"
      using x w1 False by (cases bytes; auto simp: rest_def calm_def split: sum.splits)+
    have "probe_write_all p fd bytes deadline w = probe_write_all p fd rest deadline w2"
      using x w1 False by (auto simp: probe_write_all.simps [of p fd bytes deadline w] r rest_def split: sum.splits)
    with less.hyps [OF less'(1)] less'(2,3) show ?thesis by force
  qed
qed

lemma clock_delivers:
  "delivers p stream noise t limit \<Longrightarrow> pp_clock p w = (now, w1) \<Longrightarrow> t \<le> now \<and> stream w1 = stream w"
  by (auto simp: delivers_def clock_prompt_def)

lemma receive_frame_delivers:
  assumes d: "delivers p stream noise t limit" and "limit \<le> timeout"
    and st: "stream w = snd (encode_frame ty pl) @ rest" and len: "length pl \<le> kMaxPayloadBytes"
  shows "\<exists>w1. receive_frame p fd timeout w = Some (Inr (mk_frame ty pl), w1) \<and> stream w1 = rest"
proof -
  obtain now w1 where c: "pp_clock p w = (now, w1)" by fastforce
  from clock_delivers [OF d c] assms(2) have t: "t + limit \<le> now + timeout" and s1: "stream w1 = header_bytes ty (length pl) @ map byte_of_char pl @ rest"
    using st len by (simp_all add: encode_frame_eq)
  from read_exact_delivers [OF d t, of "[]" kHeaderSize w1 fd] s1 obtain w2 where
    h: "read_exact p fd [] kHeaderSize (now + timeout) w1 = Some (Some (header_bytes ty (length pl)), w2)" "stream w2 = map byte_of_char pl @ rest"
    by auto
  from read_exact_delivers [OF d t, of "[]" "length pl" w2 fd] h(2) obtain w3 where
    b: "read_exact p fd [] (length pl) (now + timeout) w2 = Some (Some (map byte_of_char pl), w3)" "stream w3 = rest"
    by auto
  show ?thesis
    using decode_header_bytes [OF len, of ty "[]"] h b len
    by (simp add: receive_frame_def c mk_header_def mk_frame_def unat_payload_length comp_def)
qed

lemma send_frame_delivers:
  assumes d: "delivers p stream noise t limit" and "limit \<le> timeout" and len: "length pl \<le> kMaxPayloadBytes"
  shows "\<exists>w1. send_frame p fd ty pl timeout w = Some (Inr (), w1) \<and> stream w1 = stream w"
proof -
  obtain now w1 where c: "pp_clock p w = (now, w1)" by fastforce
  from clock_delivers [OF d c] assms(2) have t: "t + limit \<le> now + timeout" "stream w1 = stream w" by simp_all
  from write_all_accepts [OF d t(1)] obtain w2 where
    "probe_write_all p fd (snd (encode_frame ty pl)) (now + timeout) w1 = Some (True, w2)" "stream w2 = stream w" using t(2) by metis
  then show ?thesis using encode_frame_nonempty [OF len, of ty] len by (auto simp: send_frame_def c encode_frame_eq)
qed

lemma request_frames_delivers:
  assumes d: "delivers p stream noise t limit" and "limit \<le> timeout"
    and "await_response rid [mk_frame Msg_Response pl] = Some (Inr pl)" and "length pl \<le> kMaxPayloadBytes"
    and "list_all (\<lambda>e. length e \<le> kMaxPayloadBytes) es"
    and "stream w = encode_all (map (Pair Msg_Event) es) @ snd (encode_frame Msg_Response pl) @ rest"
  shows "\<exists>w1. request_loop_frames p fd timeout rid w = Some (Inr pl, w1) \<and> stream w1 = rest"
  using assms(5,6)
proof (induction es arbitrary: w)
  case Nil
  then obtain w1 where "receive_frame p fd timeout w = Some (Inr (mk_frame Msg_Response pl), w1)" "stream w1 = rest"
    using receive_frame_delivers [OF d assms(2) _ assms(4), of w Msg_Response rest] by (auto simp: encode_all_def)
  then show ?case using assms(3) by (simp add: request_loop_frames.simps [of p fd timeout rid w])
next
  case (Cons e es)
  then obtain w1 where r: "receive_frame p fd timeout w = Some (Inr (mk_frame Msg_Event e), w1)"
    and w1: "stream w1 = encode_all (map (Pair Msg_Event) es) @ snd (encode_frame Msg_Response pl) @ rest"
    using receive_frame_delivers [OF d assms(2), of w Msg_Event e "encode_all (map (Pair Msg_Event) es) @ snd (encode_frame Msg_Response pl) @ rest"]
    by (auto simp: encode_all_def)
  have "await_response rid [mk_frame Msg_Event e] = None" by (simp add: mk_frame_def mk_header_def)
  then have "request_loop_frames p fd timeout rid w = request_loop_frames p fd timeout rid w1"
    using r by (simp add: request_loop_frames.simps [of p fd timeout rid w])
  then show ?case using Cons.IH [OF _ w1] Cons.prems(1) by simp
qed

text \<open>A server that listens: a local stream socket connects at once or soon after.\<close>

definition connects :: "'w ProbePorts \<Rightarrow> ('w \<Rightarrow> u8 list) \<Rightarrow> bool" where
  "connects p stream \<longleftrightarrow>
     (\<forall>w. 0 \<le> fst (pp_socket p w) \<and> stream (snd (pp_socket p w)) = stream w) \<and>
     (\<forall>fd w. 0 \<le> fst (pp_getfl p fd w) \<and> stream (snd (pp_getfl p fd w)) = stream w) \<and>
     (\<forall>fd fl w. fst (pp_set_nonblock p fd fl w) \<and> stream (snd (pp_set_nonblock p fd fl w)) = stream w) \<and>
     (\<forall>fd path w. fst (pp_connect p fd path w) \<in> {None, Some Err_INPROGRESS} \<and> stream (snd (pp_connect p fd path w)) = stream w) \<and>
     (\<forall>fd w. fst (pp_socket_error p fd w) = Some 0 \<and> stream (snd (pp_socket_error p fd w)) = stream w)"

lemma connect_unix_delivers:
  assumes d: "delivers p stream noise t limit" and cn: "connects p stream" and "limit \<le> timeout"
    and "path \<noteq> []" and "length path < probe_sun_path_size"
  shows "\<exists>fd w1. connect_unix p path timeout w = Some (fd, w1) \<and> 0 \<le> fd \<and> stream w1 = stream w"
proof -
  obtain fd w1 where a: "pp_socket p w = (fd, w1)" by fastforce
  obtain fl w2 where b: "pp_getfl p fd w1 = (fl, w2)" by fastforce
  obtain nb w3 where n: "pp_set_nonblock p fd fl w2 = (nb, w3)" by fastforce
  obtain e w4 where c: "pp_connect p fd path w3 = (e, w4)" by fastforce
  have s: "0 \<le> fd" "0 \<le> fl" "nb" "stream w4 = stream w" and e: "e = None \<or> e = Some Err_INPROGRESS"
    using cn a b n c unfolding connects_def by (metis fst_conv snd_conv insert_iff empty_iff)+
  obtain now w5 where k: "pp_clock p w4 = (now, w5)" by fastforce
  from clock_delivers [OF d k] assms(3) have t: "t + limit \<le> now + timeout" "stream w5 = stream w" using s by simp_all
  from wait_fd_delivers [OF d t(1), of For_write w5] obtain w6 where w: "wait_fd p fd For_write (now + timeout) w5 = Some (True, w6)"
    "stream w6 = stream w" using t(2) by auto
  obtain se w7 where q: "pp_socket_error p fd w6 = (se, w7)" by fastforce
  with cn w(2) have "se = Some 0" "stream w7 = stream w" unfolding connects_def by (metis fst_conv snd_conv)+
  then show ?thesis using e s w assms(4,5) by (auto simp: connect_unix_def a b n c k q)
qed

lemma connect_ready_delivers:
  assumes d: "delivers p stream noise t limit" and cn: "connects p stream" and "limit \<le> timeout"
    and "path \<noteq> []" and "length path < probe_sun_path_size" and g: "g \<noteq> 0"
    and "stream w = hr_response (ready_result (new_session g (session_name g k))) @ rest"
  shows "\<exists>lat s1. connect_ready p (new_probe_session path timeout w) = Some (Inr lat, s1) \<and> 0 \<le> ps_fd s1
    \<and> ps_next_request_id s1 = 1 \<and> ps_timeout_ms s1 = timeout \<and> stream (ps_world s1) = rest"
proof -
  let ?t = "ready_text g (session_name g k)"
  obtain start w1 where a: "pp_clock p w = (start, w1)" by fastforce
  obtain fd w2 where b: "connect_unix p path timeout w1 = Some (fd, w2)" "0 \<le> fd" "stream w2 = stream w"
    using connect_unix_delivers [OF assms(1-5), of w1] clock_delivers [OF d a] by auto
  have "length hello_payload \<le> kMaxPayloadBytes" by (simp add: hello_payload_def kMaxPayloadBytes_def)
  then obtain w3 where c: "send_frame p fd Msg_Hello hello_payload timeout w2 = Some (Inr (), w3)" "stream w3 = stream w"
    using send_frame_delivers [OF d assms(3)] b(3) by metis
  have "hr_response (ready_result (new_session g (session_name g k))) = snd (encode_frame Msg_Ready ?t)"
    using length_ready_text [of g k] by (simp add: ready_response [OF g] encode_json_def encode_frame_eq)
  then obtain w4 where r: "receive_frame p fd timeout w3 = Some (Inr (mk_frame Msg_Ready ?t), w4)" "stream w4 = rest"
    using receive_frame_delivers [OF d assms(3) _ length_ready_text] assms(7) c(2) by metis
  obtain now w5 where e: "pp_clock p w4 = (now, w5)" by fastforce
  then show ?thesis using a b c r clock_delivers [OF d e]
    by (simp add: connect_ready_def greet_def new_probe_session_def check_ready_text [OF g])
qed


text \<open>An instance of the contracts: a socket that hands out at most three bytes at a time after a number of interrupts.\<close>

definition slow_ports :: "(u8 list \<times> nat) ProbePorts" where
  "slow_ports = \<lparr> pp_clock = (\<lambda>w. (7, w)), pp_sleep = (\<lambda>ms w. w),
     pp_poll = (\<lambda>fd events ms (st, k). if k > 0 then (Poll_err Err_INTR, (st, k - 1)) else (Polled True False, (st, k))),
     pp_send = (\<lambda>fd bytes w. (Inr (min 3 (length bytes)), w)),
     pp_recv = (\<lambda>fd n (st, k). (Inr (take (min 3 n) st), (drop (min 3 n) st, k))),
     pp_socket = (\<lambda>w. (4, w)), pp_getfl = (\<lambda>fd w. (2, w)), pp_set_nonblock = (\<lambda>fd fl w. (True, w)),
     pp_connect = (\<lambda>fd path w. (Some Err_INPROGRESS, w)), pp_socket_error = (\<lambda>fd w. (Some 0, w)), pp_close = (\<lambda>fd w. w),
     pp_file = (\<lambda>path text w. (File_written, w)), pp_print = (\<lambda>text w. w) \<rparr>"

lemma slow_ports_deliver: "delivers slow_ports fst snd 0 1000" "connects slow_ports fst"
  by (auto simp: delivers_def clock_prompt_def poll_prompt_def recv_delivers_def send_accepts_def slow_ports_def calm_def connects_def
      split: if_splits)


end
