(* ===== verification/Probe_Safety.thy ===== *)
theory Probe_Safety
  imports Probe_Client
begin

text \<open>
  Safety of the probe (\<^verbatim>\<open>tools/rc/network_service_rc_probe.cpp\<close>) in an arbitrary environment: a run closes every descriptor it opens
  and no other, proved by a partial-correctness rule for the sequencing of its steps; and a scan cycle that ends with exit code 0 has
  seen the ready state of the very scan it started.
\<close>

section \<open>Descriptors\<close>

text \<open>\<open>open_fds\<close> is the set of open descriptors: only \<open>socket\<close> and \<open>close\<close> change it.\<close>

definition keeps_fds :: "('w \<Rightarrow> int set) \<Rightarrow> ('w \<Rightarrow> 'a \<times> 'w) \<Rightarrow> bool" where
  "keeps_fds open_fds f \<longleftrightarrow> (\<forall>w. open_fds (snd (f w)) = open_fds w)"

definition tracks :: "'w ProbePorts \<Rightarrow> ('w \<Rightarrow> int set) \<Rightarrow> bool" where
  "tracks p open_fds \<longleftrightarrow> keeps_fds open_fds (pp_clock p) \<and> (\<forall>ms w. open_fds (pp_sleep p ms w) = open_fds w)
     \<and> (\<forall>fd ev ms. keeps_fds open_fds (pp_poll p fd ev ms)) \<and> (\<forall>fd b. keeps_fds open_fds (pp_send p fd b)) \<and> (\<forall>fd n. keeps_fds open_fds (pp_recv p fd n))
     \<and> (\<forall>fd. keeps_fds open_fds (pp_getfl p fd)) \<and> (\<forall>fd fl. keeps_fds open_fds (pp_set_nonblock p fd fl))
     \<and> (\<forall>fd path. keeps_fds open_fds (pp_connect p fd path)) \<and> (\<forall>fd. keeps_fds open_fds (pp_socket_error p fd))
     \<and> (\<forall>path text. keeps_fds open_fds (pp_file p path text)) \<and> (\<forall>text w. open_fds (pp_print p text w) = open_fds w)
     \<and> (\<forall>fd w. open_fds (pp_close p fd w) = open_fds w - {fd})
     \<and> (\<forall>w fd w1. pp_socket p w = (fd, w1) \<longrightarrow>
          (if fd < 0 then open_fds w1 = open_fds w else fd \<notin> open_fds w \<and> open_fds w1 = insert fd (open_fds w)))"

lemma tracksD:
  assumes "tracks p open_fds"
  shows "pp_clock p w = (now, w1) \<Longrightarrow> open_fds w1 = open_fds w"
    and "pp_poll p fd ev ms w = (x, w1) \<Longrightarrow> open_fds w1 = open_fds w"
    and "pp_send p fd b w = (y, w1) \<Longrightarrow> open_fds w1 = open_fds w"
    and "pp_recv p fd n w = (z, w1) \<Longrightarrow> open_fds w1 = open_fds w"
    and "pp_getfl p fd w = (fl, w1) \<Longrightarrow> open_fds w1 = open_fds w"
    and "pp_set_nonblock p fd fl w = (nb, w1) \<Longrightarrow> open_fds w1 = open_fds w"
    and "pp_connect p fd path w = (e, w1) \<Longrightarrow> open_fds w1 = open_fds w"
    and "pp_socket_error p fd w = (se, w1) \<Longrightarrow> open_fds w1 = open_fds w"
    and "pp_file p path text w = (fr, w1) \<Longrightarrow> open_fds w1 = open_fds w"
    and "open_fds (pp_sleep p ms w) = open_fds w" and "open_fds (pp_print p text w) = open_fds w"
    and "open_fds (pp_close p fd w) = open_fds w - {fd}"
  using assms unfolding tracks_def keeps_fds_def by (metis snd_conv)+

lemma tracks_socket:
  "tracks p open_fds \<Longrightarrow> pp_socket p w = (fd, w1) \<Longrightarrow>
   if fd < 0 then open_fds w1 = open_fds w else fd \<notin> open_fds w \<and> open_fds w1 = insert fd (open_fds w)"
  by (simp add: tracks_def)

lemma wait_fd_keeps:
  assumes "tracks p open_fds" and "wait_fd p fd ev deadline w = Some (ok, w1)"
  shows "open_fds w1 = open_fds w"
proof -
  have "open_fds (snd (ok, w1)) = open_fds w"
    by (rule wait_fd.raw_induct [where P = "\<lambda>q fd ev dl w r. q = p \<longrightarrow> open_fds (snd r) = open_fds w", rule_format, OF _ assms(2)])
      (use tracksD [OF assms(1)] in \<open>force simp: Let_def split: prod.splits if_splits probe_poll.splits\<close>)+
  then show ?thesis by simp
qed

lemma write_all_keeps:
  assumes "tracks p open_fds" and "probe_write_all p fd bytes deadline w = Some (ok, w1)"
  shows "open_fds w1 = open_fds w"
proof -
  have "open_fds (snd (ok, w1)) = open_fds w"
    by (rule probe_write_all.raw_induct [where P = "\<lambda>q fd b dl w r. q = p \<longrightarrow> open_fds (snd r) = open_fds w", rule_format, OF _ assms(2)])
      (use tracksD [OF assms(1)] wait_fd_keeps [OF assms(1)] in \<open>force split: prod.splits if_splits option.splits sum.splits\<close>)+
  then show ?thesis by simp
qed

lemma read_exact_keeps:
  assumes "tracks p open_fds" and "read_exact p fd got n deadline w = Some (x, w1)"
  shows "open_fds w1 = open_fds w"
proof -
  have "open_fds (snd (x, w1)) = open_fds w"
    by (rule read_exact.raw_induct [where P = "\<lambda>q fd g n dl w r. q = p \<longrightarrow> open_fds (snd r) = open_fds w", rule_format, OF _ assms(2)])
      (use tracksD [OF assms(1)] wait_fd_keeps [OF assms(1)] in \<open>force split: prod.splits if_splits option.splits sum.splits\<close>)+
  then show ?thesis by simp
qed

lemma send_frame_keeps:
  assumes t: "tracks p open_fds" and "send_frame p fd ty pl timeout w = Some (x, w1)"
  shows "open_fds w1 = open_fds w"
  using assms(2)
  by (auto simp: send_frame_def split: prod.splits if_splits option.splits dest!: write_all_keeps [OF t] tracksD(1) [OF t])

lemma receive_frame_keeps:
  assumes t: "tracks p open_fds" and "receive_frame p fd timeout w = Some (x, w1)"
  shows "open_fds w1 = open_fds w"
  using assms(2)
  by (auto simp: receive_frame_def Let_def split: prod.splits option.splits sum.splits dest!: read_exact_keeps [OF t] tracksD(1) [OF t])

lemma request_frames_keeps:
  assumes "tracks p open_fds" and "request_loop_frames p fd timeout rid w = Some (x, w1)"
  shows "open_fds w1 = open_fds w"
proof -
  have "open_fds (snd (x, w1)) = open_fds w"
    by (rule request_loop_frames.raw_induct [where P = "\<lambda>q fd to i w r. q = p \<longrightarrow> open_fds (snd r) = open_fds w", rule_format, OF _ assms(2)])
      (use receive_frame_keeps [OF assms(1)] in \<open>force split: prod.splits option.splits sum.splits simp del: await_response.simps\<close>)+
  then show ?thesis by simp
qed

text \<open>A session session_owns at most one descriptor beyond those open before it.\<close>

definition session_owns :: "('w \<Rightarrow> int set) \<Rightarrow> int set \<Rightarrow> 'w ProbeSession \<Rightarrow> bool" where
  "session_owns open_fds base s \<longleftrightarrow>
     (if ps_fd s < 0 then open_fds (ps_world s) = base else ps_fd s \<notin> base \<and> open_fds (ps_world s) = insert (ps_fd s) base)"

definition ends_owning :: "('w \<Rightarrow> int set) \<Rightarrow> int set \<Rightarrow> ('w, 'a) probe_result \<Rightarrow> bool" where
  "ends_owning open_fds base m \<longleftrightarrow> (\<forall>x s. m = Some (x, s) \<longrightarrow> session_owns open_fds base s)"

lemma owns_world: "session_owns open_fds base s \<Longrightarrow> open_fds w = open_fds (ps_world s) \<Longrightarrow> session_owns open_fds base (s\<lparr> ps_world := w \<rparr>)"
  by (simp add: session_owns_def)

lemma connect_unix_owns:
  assumes t: "tracks p open_fds" and "connect_unix p path timeout w = Some (fd, w1)"
  shows "if fd < 0 then open_fds w1 = open_fds w else fd \<notin> open_fds w \<and> open_fds w1 = insert fd (open_fds w)"
  using assms(2)
  by (auto simp: connect_unix_def tracksD(12) [OF t] split: prod.splits if_splits option.splits
      dest!: tracks_socket [OF t] tracksD(1,5-8) [OF t] wait_fd_keeps [OF t])

lemma owns_same:
  "session_owns open_fds base s \<Longrightarrow> ps_fd s1 = ps_fd s \<Longrightarrow> open_fds (ps_world s1) = open_fds (ps_world s) \<Longrightarrow> session_owns open_fds base s1"
  by (simp add: session_owns_def)

lemma greet_owns:
  assumes t: "tracks p open_fds" and s: "session_owns open_fds base s"
  shows "ends_owning open_fds base (greet p start s)"
proof (cases "send_frame p (ps_fd s) Msg_Hello hello_payload (ps_timeout_ms s) (ps_world s)")
  case None
  then show ?thesis by (simp add: greet_def ends_owning_def)
next
  case (Some r)
  obtain y w where b: "send_frame p (ps_fd s) Msg_Hello hello_payload (ps_timeout_ms s) (ps_world s) = Some (y, w)" using Some by (cases r) simp
  show ?thesis
  proof (cases "receive_frame p (ps_fd s) (ps_timeout_ms s) w")
    case None
    then show ?thesis using s send_frame_keeps [OF t b]
      by (auto simp: greet_def b ends_owning_def split: sum.splits intro: owns_same)
  next
    case (Some r)
    obtain z w1 where c: "receive_frame p (ps_fd s) (ps_timeout_ms s) w = Some (z, w1)" using Some by (cases r) simp
    obtain now w2 where e: "pp_clock p w1 = (now, w2)" by fastforce
    have "open_fds w = open_fds (ps_world s)" "open_fds w1 = open_fds (ps_world s)" "open_fds w2 = open_fds (ps_world s)"
      using send_frame_keeps [OF t b] receive_frame_keeps [OF t c] tracksD(1) [OF t e] by simp_all
    then show ?thesis using s by (auto simp: greet_def b c e ends_owning_def split: sum.splits intro: owns_same)
  qed
qed

lemma connect_ready_owns:
  assumes t: "tracks p open_fds" and "open_fds w = base"
  shows "ends_owning open_fds base (connect_ready p (new_probe_session path timeout w))"
proof -
  obtain start w1 where a: "pp_clock p w = (start, w1)" by fastforce
  show ?thesis
  proof (cases "connect_unix p path timeout w1")
    case None
    then show ?thesis by (simp add: connect_ready_def new_probe_session_def a ends_owning_def)
  next
    case (Some r)
    obtain fd w2 where b: "connect_unix p path timeout w1 = Some (fd, w2)" using Some by (cases r) simp
    let ?s = "(new_probe_session path timeout w)\<lparr> ps_fd := fd, ps_world := w2 \<rparr>"
    have o: "session_owns open_fds base ?s"
      using connect_unix_owns [OF t b] tracksD(1) [OF t a] assms(2) by (simp add: session_owns_def split: if_splits)
    have "connect_ready p (new_probe_session path timeout w) =
        (if fd < 0 then Some (Inl ''failed to connect AF_UNIX socket'', ?s) else greet p start ?s)"
      using a b by (simp add: connect_ready_def new_probe_session_def)
    then show ?thesis using greet_owns [OF t o] o by (simp add: ends_owning_def)
  qed
qed

lemma session_request_owns:
  assumes t: "tracks p open_fds" and "session_owns open_fds base s"
  shows "ends_owning open_fds base (session_request p timed m params s)"
  using assms(2)
  by (auto simp: ends_owning_def session_request_def session_owns_def Let_def split: if_splits option.splits sum.splits prod.splits
      dest!: send_frame_keeps [OF t] request_frames_keeps [OF t] tracksD(1) [OF t])

lemma then_do_owns:
  "ends_owning open_fds base m \<Longrightarrow> (\<And>a s. session_owns open_fds base s \<Longrightarrow> ends_owning open_fds base (f a s)) \<Longrightarrow>
   ends_owning open_fds base (then_do m f)"
  by (auto simp: ends_owning_def then_do_def split: option.splits sum.splits)

lemma on_world_owns:
  "keeps_fds open_fds f \<Longrightarrow> session_owns open_fds base s \<Longrightarrow> ends_owning open_fds base (on_world f s)"
  by (auto simp: ends_owning_def on_world_def keeps_fds_def split: prod.splits intro!: owns_world dest: spec [of _ "ps_world s"])

lemma write_text_keeps: "tracks p open_fds \<Longrightarrow> keeps_fds open_fds (write_text p path text)"
  by (auto simp: keeps_fds_def write_text_def split: prod.splits file_result.splits dest: tracksD(9))

lemma print_clock_keeps: "tracks p open_fds \<Longrightarrow> keeps_fds open_fds (print_line p text)" "tracks p open_fds \<Longrightarrow> keeps_fds open_fds (now_ms p)"
  by (auto simp: keeps_fds_def print_line_def now_ms_def tracksD(11) split: prod.splits dest: tracksD(1))

lemma write_result_owns: "tracks p open_fds \<Longrightarrow> session_owns open_fds base s \<Longrightarrow> ends_owning open_fds base (write_result p options suffix text s)"
  unfolding write_result_def by (rule on_world_owns) (auto simp: write_text_keeps, simp add: keeps_fds_def)

lemma pure_owns:
  "session_owns open_fds base s \<Longrightarrow> ends_owning open_fds base (throw_unless b text s)"
  "session_owns open_fds base s \<Longrightarrow> ends_owning open_fds base (from_json v s)"
  "session_owns open_fds base s \<Longrightarrow> ends_owning open_fds base (Some (y, s))"
  by (simp_all add: ends_owning_def throw_unless_def from_json_def)

lemmas owns_rules = then_do_owns on_world_owns write_result_owns pure_owns session_request_owns write_text_keeps print_clock_keeps

lemma scan_round_owns:
  assumes t: "tracks p open_fds" and "session_owns open_fds base s"
  shows "ends_owning open_fds base (scan_round p options scan_id s)"
  unfolding scan_round_def
  by (intro then_do_owns session_request_owns [OF t]) (auto intro!: owns_rules t owns_world [OF assms(2)] simp: tracksD(10) [OF t])

lemma scan_loop_owns:
  assumes t: "tracks p open_fds" and "session_owns open_fds base s"
  shows "ends_owning open_fds base (scan_loop p options scan_id deadline final st s)"
  unfolding ends_owning_def
proof (intro allI impI)
  fix x s1
  assume r: "scan_loop p options scan_id deadline final st s = Some (x, s1)"
  have "p = p \<longrightarrow> session_owns open_fds base s \<longrightarrow> session_owns open_fds base (snd (x, s1))"
  proof (rule scan_loop.raw_induct [where P = "\<lambda>q opts i dl f st s r. q = p \<longrightarrow> session_owns open_fds base s \<longrightarrow> session_owns open_fds base (snd r)",
      OF _ r], intro impI, goal_cases)
    case (1 loop q opts i dl f st s r)
    obtain now w1 where c: "pp_clock p (ps_world s) = (now, w1)" by fastforce
    have o: "session_owns open_fds base (s\<lparr> ps_world := w1 \<rparr>)"
      using owns_world [OF 1(4) tracksD(1) [OF t]] 1(3) c by simp
    have "ends_owning open_fds base (scan_round q opts i (s\<lparr> ps_world := w1 \<rparr>))" using scan_round_owns [OF t o] 1(3) by simp
    then have own: "session_owns open_fds base s2" if "scan_round p opts i (s\<lparr> ps_world := w1 \<rparr>) = Some (y, s2)" for y s2
      using that 1(3) by (auto simp: ends_owning_def)
    have IH: "session_owns open_fds base (snd r)" if "loop p opts i dl f' st' s2 = Some r" "session_owns open_fds base s2" for f' st' s2
      using 1(1) [OF that(1)] that(2) by simp
    show ?case
      using 1(2,4) o own IH unfolding 1(3)
      by (auto simp: c split: if_splits option.splits sum.splits)
  qed
  with assms(2) show "session_owns open_fds base s1" by simp
qed

lemma close_session_owns: "tracks p open_fds \<Longrightarrow> session_owns open_fds base s \<Longrightarrow> open_fds (close_session p s) = base"
  by (auto simp: session_owns_def close_session_def tracksD(12) split: if_splits)

lemma in_session_keeps:
  assumes "tracks p open_fds" and "ends_owning open_fds (open_fds w) (body (new_probe_session (po_socket_path options) (po_timeout_ms options) w))"
    and "in_session p options body w = Some (x, w1)"
  shows "open_fds w1 = open_fds w"
  using assms close_session_owns [OF assms(1)] by (auto simp: in_session_def ends_owning_def split: option.splits)

lemma command_bodies_own:
  fixes path timeout
  assumes t: "tracks p open_fds" and w: "open_fds w = base"
  defines "s \<equiv> new_probe_session path timeout w"
  shows "ends_owning open_fds base (ready_body p options s)" and "ends_owning open_fds base (snapshot_body p options s)"
    and "ends_owning open_fds base (wait_ready_body p options start s)" and "ends_owning open_fds base (scan_cycle_body p options s)"
proof -
  note c = connect_ready_owns [OF t w, of path timeout, folded s_def]
  show "ends_owning open_fds base (ready_body p options s)"
    unfolding ready_body_def by (intro owns_rules c t)
  show "ends_owning open_fds base (wait_ready_body p options start s)"
    unfolding wait_ready_body_def by (intro owns_rules c t)
  show "ends_owning open_fds base (snapshot_body p options s)"
    unfolding snapshot_body_def by (intro then_do_owns c) (auto intro!: owns_rules t)
  have "ends_owning open_fds base (scan_begin p options s)"
    unfolding scan_begin_def by (intro then_do_owns c) (auto intro!: owns_rules t)
  then show "ends_owning open_fds base (scan_cycle_body p options s)"
    unfolding scan_cycle_body_def by (intro then_do_owns) (auto intro!: owns_rules t scan_loop_owns)
qed

lemma wait_ready_loop_keeps:
  assumes t: "tracks p open_fds" and r: "wait_ready_loop p options start e w = Some (x, w1)"
  shows "open_fds w1 = open_fds w"
proof -
  have "p = p \<longrightarrow> open_fds (snd (x, w1)) = open_fds w"
  proof (rule wait_ready_loop.raw_induct [where P = "\<lambda>q opts st e w r. q = p \<longrightarrow> open_fds (snd r) = open_fds w", OF _ r], intro impI, goal_cases)
    case (1 loop q opts st e w r)
    obtain now w1 where c: "pp_clock p w = (now, w1)" by fastforce
    have body: "open_fds w2 = open_fds w" if "in_session p opts (wait_ready_body p opts st) w1 = Some (y, w2)" for y w2
      using in_session_keeps [OF t command_bodies_own(3) [OF t refl] that] tracksD(1) [OF t c] by simp
    have IH: "open_fds (snd r) = open_fds w'" if "loop p opts st e' w' = Some r" for e' w'
      using 1(1) [OF that] by simp
    show ?case
      using 1(2) tracksD(1) [OF t c] body IH tracksD(10) [OF t] unfolding 1(3)
      by (auto simp: c split: if_splits option.splits sum.splits)
  qed
  then show ?thesis by simp
qed

text \<open>C40: Whatever the server, the network and the file system do, a run of the probe that returns has closed every descriptor it
  opened, on each of its commands and on every error path, and has closed no other.\<close>

theorem probe_closes_what_it_opens:
  assumes t: "tracks p open_fds" and r: "probe_main p args w = Some (code, w1)"
  shows "open_fds w1 = open_fds w"
proof -
  have "open_fds w2 = open_fds w" if c: "probe_command p options w = Some (x, w2)" for options x w2
  proof -
    have body: "open_fds w2 = open_fds w" if "in_session p options b w = Some (x, w2)"
      "b = ready_body p options \<or> b = snapshot_body p options \<or> b = scan_cycle_body p options" for b
      using that(2) by (intro in_session_keeps [OF t _ that(1)]) (auto intro: command_bodies_own [OF t refl])
    show ?thesis
      using c body wait_ready_loop_keeps [OF t] tracksD(1) [OF t] tracksD(11) [OF t]
      by (auto simp: probe_command_def command_ready_def command_snapshot_def command_scan_cycle_def command_wait_ready_def
          print_line_def split: if_splits prod.splits)
  qed
  then show ?thesis using r by (auto simp: probe_main_def split: option.splits sum.splits)
qed

text \<open>A world that consists of the open descriptors, where the peer accepts the connection and then reads nothing.\<close>

definition fd_ports :: "int set ProbePorts" where
  "fd_ports = \<lparr> pp_clock = (\<lambda>w. (7, w)), pp_sleep = (\<lambda>ms w. w), pp_poll = (\<lambda>fd events ms w. (Poll_none, w)),
     pp_send = (\<lambda>fd bytes w. (Inr (length bytes), w)), pp_recv = (\<lambda>fd n w. (Inr [], w)),
     pp_socket = (\<lambda>w. if 4 \<in> w then (-1, w) else (4, insert 4 w)), pp_getfl = (\<lambda>fd w. (2, w)), pp_set_nonblock = (\<lambda>fd fl w. (True, w)),
     pp_connect = (\<lambda>fd path w. (None, w)), pp_socket_error = (\<lambda>fd w. (Some 0, w)), pp_close = (\<lambda>fd w. w - {fd}),
     pp_file = (\<lambda>path text w. (File_written, w)), pp_print = (\<lambda>text w. w) \<rparr>"

theorem probe_closes_what_it_opens_witness: "probe_main fd_ports [''ready''] {0, 1, 2} = Some (1, {0, 1, 2})"
proof -
  have t: "tracks fd_ports (\<lambda>w. w)" by (auto simp: tracks_def keeps_fds_def fd_ports_def split: if_splits)
  have "probe_parse_args [''ready''] = Some (ProbeOptions_default\<lparr> po_command := ''ready'' \<rparr>)"
    by (simp add: probe_parse_args_def probe_setter_def ProbeOptions_default_def)
  moreover have "\<exists>e w1. command_ready fd_ports (ProbeOptions_default\<lparr> po_command := ''ready'' \<rparr>) {0, 1, 2} = Some (Inl e, w1)"
    using encode_frame_nonempty [of hello_payload Msg_Hello]
    by (auto simp: command_ready_def in_session_def ready_body_def then_do_def connect_ready_def greet_def send_frame_def encode_frame_eq
        connect_unix_def new_probe_session_def ProbeOptions_default_def probe_sun_path_size_def fd_ports_def kMaxPayloadBytes_def hello_payload_def
        probe_write_all.simps [of _ _ "_ @ _"] wait_fd.simps)
  ultimately obtain w1 where r: "probe_main fd_ports [''ready''] {0, 1, 2} = Some (1, w1)"
    by (auto simp: probe_main_def probe_command_def ProbeOptions_default_def)
  with probe_closes_what_it_opens [OF t r] show ?thesis by simp
qed

section \<open>What a successful scan cycle has seen\<close>

named_theorems returns \<open>a sequence of steps that returns, read backwards\<close>

lemma then_do_returns [returns]: "then_do m f = Some (Inr y, s) \<longleftrightarrow> (\<exists>a s1. m = Some (Inr a, s1) \<and> f a s1 = Some (Inr y, s))"
  by (auto simp: then_do_def split: option.splits sum.splits)

lemma from_json_returns [returns]: "from_json v s = Some (Inr y, s1) \<longleftrightarrow> v = Inr y \<and> s1 = s"
  by (auto simp: from_json_def)

lemma throw_unless_returns [returns]: "throw_unless b text s = Some (Inr y, s1) \<longleftrightarrow> b \<and> s1 = s"
  by (auto simp: throw_unless_def)

text \<open>An answer that reports the state \<open>st\<close> of the scan \<open>i\<close>.\<close>

definition reports_scan :: "u64 \<Rightarrow> string \<Rightarrow> string \<Rightarrow> bool" where
  "reports_scan i st response \<longleftrightarrow> probe_scan_state response = Inr st \<and> json_u64 response ''scanId'' = Inr i
     \<and> (json_status response = Inr 200 \<or> json_status response = Inr 202)"

lemma scan_round_reports: "scan_round p options i s = Some (Inr (response, st), s1) \<Longrightarrow> reports_scan i st response"
  by (auto simp: scan_round_def returns reports_scan_def)

lemma scan_begin_reports: "scan_begin p options s = Some (Inr (cs, i, lat, response, st), s1) \<Longrightarrow> reports_scan i st response"
  by (auto simp: scan_begin_def returns reports_scan_def)

lemma scan_loop_reports:
  assumes r: "scan_loop p options i deadline f st s = Some (Inr (f1, st1), s1)"
  shows "f1 = f \<and> st1 = st \<or> reports_scan i st1 f1"
proof -
  have "\<forall>a b. fst (Inr (f1, st1) :: string + string \<times> string, s1) = Inr (a, b) \<longrightarrow> a = f \<and> b = st \<or> reports_scan i b a"
  proof (rule scan_loop.raw_induct [where P = "\<lambda>p options i dl f st s r. \<forall>f1 st1. fst r = Inr (f1, st1) \<longrightarrow> f1 = f \<and> st1 = st \<or> reports_scan i st1 f1",
      OF _ r], intro allI impI, goal_cases)
    case (1 loop p options i dl f st s r f1 st1)
    obtain now w1 where c: "pp_clock p (ps_world s) = (now, w1)" by fastforce
    have IH: "f1 = f' \<and> st1 = st' \<or> reports_scan i st1 f1" if "loop p options i dl f' st' s' = Some r" for f' st' s'
      using 1(1) [OF that] 1(3) by blast
    show ?case
    proof (cases "st = ''scanning'' \<and> now < dl")
      case False
      then show ?thesis using 1(2,3) by (auto simp: c split: if_splits)
    next
      case True
      then obtain y s2 where y: "scan_round p options i (s\<lparr> ps_world := w1 \<rparr>) = Some (y, s2)" using 1(2) by (auto simp: c split: option.splits)
      with True 1(2,3) obtain a b where "y = Inr (a, b)" by (cases y) (auto simp: c)
      with True 1(2) y IH [of a b s2] show ?thesis by (auto simp: c dest: scan_round_reports)
    qed
  qed
  then show ?thesis by simp
qed

text \<open>When \<open>scan-cycle\<close> exits with 0, a session was set up, the scan that the first request started was accepted, and the last answer
  received reports the state ready of that same scan.\<close>

theorem scan_cycle_exit_zero:
  assumes "probe_parse_args args = Some options" and "po_command options = ''scan-cycle''" and "probe_main p args w = Some (0, w1)"
  shows "\<exists>cs i lat response st s1 polled s2.
    scan_begin p options (new_probe_session (po_socket_path options) (po_timeout_ms options) w) = Some (Inr (cs, i, lat, response, st), s1)
    \<and> scan_loop p options i (cs + po_scan_timeout_ms options) [] st s1 = Some (Inr (polled, ''ready''), s2)
    \<and> reports_scan i ''ready'' (if polled = [] then response else polled)"
proof -
  have "command_scan_cycle p options w = Some (Inr (), w1)"
    using assms by (auto simp: probe_main_def probe_command_def split: option.splits sum.splits)
  then obtain s where "scan_cycle_body p options (new_probe_session (po_socket_path options) (po_timeout_ms options) w) = Some (Inr (), s)"
    by (auto simp: command_scan_cycle_def in_session_def split: option.splits)
  then obtain cs i lat response st s1 polled s2 where
    b: "scan_begin p options (new_probe_session (po_socket_path options) (po_timeout_ms options) w) = Some (Inr (cs, i, lat, response, st), s1)"
    and l: "scan_loop p options i (cs + po_scan_timeout_ms options) [] st s1 = Some (Inr (polled, ''ready''), s2)"
    by (auto simp: scan_cycle_body_def returns)
  have "\<not> reports_scan i ''ready'' []" by (simp add: reports_scan_def json_u64_def)
  with scan_loop_reports [OF l] scan_begin_reports [OF b] have "reports_scan i ''ready'' (if polled = [] then response else polled)" by auto
  with b l show ?thesis by blast
qed

end
