(* ===== verification/Spec2Isabelle.thy ===== *)
theory Spec2Isabelle
  imports Contracts Ipc_Outbound Ipc_Event Ipc_Session Wifi_Manager Control_Ledger
    Eth_Config Lease_Store Snapshot Wifi_Backend Wpa_Thread Udhcpc Daemon_Files Business_Dispatch Shutdown Probe_Safety
begin

text \<open>
  Verification of NetworkService, the daemon that owns the Ethernet and Wi-Fi configuration of
  an embedded device and offers it over a Unix-domain socket. File names are relative to \<^verbatim>\<open>src/\<close> of the repository.

  \<^bold>\<open>The program.\<close> One process (\<^verbatim>\<open>src/main.cpp\<close>) holds a lock, builds the daemon and runs the IPC server in one thread;
  the WPA event monitor runs in a second one. The server (\<^verbatim>\<open>src/ipc\<close>) polls its sockets, decodes frames, keeps
  a session per v1 client, and turns requests into calls of the daemon (\<^verbatim>\<open>src/service\<close>). The daemon
  decides: the control plane owns routes, resolver, DHCP and static addresses; the Wi-Fi manager follows the link; the profile
  policy and the scan lifecycle drive the supplicant. Everything outside is reached through \<^verbatim>\<open>src/platform\<close> (files under
  \<^verbatim>\<open>/tmp\<close> and \<^verbatim>\<open>/etc/resolv.conf\<close>, shell commands, \<^verbatim>\<open>udhcpc\<close>, the supplicant's control socket, netlink) and
  \<^verbatim>\<open>src/config\<close> (the configuration file). Changes flow back as events: netlink and the supplicant make the daemon
  refresh, the server compares snapshots and broadcasts the difference.

  \<^bold>\<open>The theories, by part of the program.\<close>

  \<^item> Shared: \<open>Prelude\<close> (words, decimal numbers, searching in strings, the \<open>valid\<close> triples for
    actions and the interfaces \<open>invariant_machine\<close> and \<open>returning_machine\<close>), \<open>Contracts\<close> (the types of \<^verbatim>\<open>include/\<close> and the operation results),
    \<open>Text_Lines\<close> (lines, trimming, splitting), \<open>Host\<close> (files, descriptors and failing, short and interrupted system calls).
  \<^item> IPC v1 framing and output: \<open>Framing\<close> and \<open>Ipc_Codec\<close> (\<^verbatim>\<open>network_ipc_v1_codec.cpp\<close>), \<open>Byte_Fifo\<close> and \<open>Ipc_Outbound\<close>
    (\<^verbatim>\<open>network_ipc_v1_outbound.cpp\<close>), \<open>Ipc_Event\<close> (\<^verbatim>\<open>network_ipc_v1_event.cpp\<close>, \<^verbatim>\<open>network_ipc_v1_rebase.cpp\<close>).
    Round trip under any splitting, the decoder's and the queue's invariants, gap-free event numbering and rebase.
  \<^item> Sessions and requests: \<open>Ipc_Json\<close>, \<open>Json_Text\<close>, \<open>Ipc_Session\<close> (\<^verbatim>\<open>network_ipc_v1_session.cpp\<close>), \<open>Json_Reader\<close> and
    \<open>Business_Dispatch\<close> (\<^verbatim>\<open>network_ipc_v1_business_dispatch.cpp\<close>), \<open>Representation\<close>
    (\<^verbatim>\<open>network_ipc_representation.cpp\<close>), \<open>V0_Request\<close> (the line protocol of \<^verbatim>\<open>network_ipc_server.cpp\<close>). The session
    refines an abstract protocol, numbers and parameters are read exactly, every answer is a JSON object of the protocol's shape, the dispatcher
    is its typed specification.
  \<^item> The server: \<open>Ipc_Server\<close> (\<^verbatim>\<open>network_ipc_server.cpp\<close>, operation by operation) and \<open>Server_Bounds\<close>. One invariant of the client
    table over any number of turns of the loop, whatever sockets, clock and daemon do; deadlines and the poll timeout.
  \<^item> Decisions: \<open>Network_State\<close> (\<^verbatim>\<open>network_state.cpp\<close>, \<^verbatim>\<open>network_state_change_detector.cpp\<close>), \<open>Wifi_Scan\<close>, \<open>Wifi_Profile\<close>,
    \<open>Wifi_Manager\<close> (the files of these names, the manager also as a step relation of its critical sections),
    \<open>Control_Plane\<close>, \<open>Control_Routes\<close>, \<open>Control_Ledger\<close> (\<^verbatim>\<open>network_control_plane.cpp\<close>, \<^verbatim>\<open>network_control_plane_reconcile.cpp\<close>).
  \<^item> Platform: \<open>Eth_Config\<close> (\<^verbatim>\<open>ethernet_config.cpp\<close>), \<open>Lease_Store\<close> (\<^verbatim>\<open>dhcp_lease_store.cpp\<close>), \<open>Configurator\<close>
    (\<^verbatim>\<open>network_configurator.cpp\<close>), \<open>Snapshot\<close> (\<^verbatim>\<open>interface_snapshot.cpp\<close>), \<open>Wifi_Backend\<close> (\<^verbatim>\<open>wifi_backend.cpp\<close>), \<open>Wpa_Ctrl\<close>
    (\<^verbatim>\<open>wpa_ctrl_client.cpp\<close>), \<open>Wpa_Monitor\<close> and \<open>Wpa_Thread\<close> (\<^verbatim>\<open>wpa_event_monitor.cpp\<close>: the recorded facts and their relation to what arrives; the
    thread over its sockets, which refines that relation, and its start and stop), \<open>Udhcpc\<close> (\<^verbatim>\<open>udhcpc_process.cpp\<close>),
    \<open>Netlink\<close> (\<^verbatim>\<open>netlink_monitor.cpp\<close>, from the bytes of a datagram).
  \<^item> The daemon and the whole: \<open>Daemon\<close>, \<open>Daemon_Files\<close> (\<^verbatim>\<open>network_daemon.cpp\<close>, \<^verbatim>\<open>network_daemon_events.cpp\<close>; the
    Ethernet transaction on the real platform functions), \<open>System\<close> (the daemon's members as one record, wired behind the server; a request
    from bytes to file and answer), \<open>Startup\<close> (\<^verbatim>\<open>main.cpp\<close>), \<open>Shutdown\<close> (the signal handler and the
    wake pipe; a signal ends the service).
  \<^item> The release probe (\<^verbatim>\<open>tools/rc/network_service_rc_probe.cpp\<close>), a client of the protocol: \<open>Rc_Probe\<close> (options and reading of
    answers), \<open>Probe_Client\<close> (deadlines, exact transfers, session, commands; against a socket that delivers, it gets the server's
    answer), \<open>Probe_Safety\<close> (descriptors, and what a successful scan cycle has seen).

  \<^bold>\<open>How the code is rendered.\<close> A class is a record and a method a function on it that returns the updated record. \<open>std::string &error\<close>
  is part of the state of an action (\<open>Run\<close> with \<open>err\<close>, or the pair of error text and world of \<open>err_act\<close>), so that texts
  which survive a call in the code survive it in the model. Functions the program is given (\<open>std::function\<close> members) and
  system calls are records of ports over a world \<open>'w\<close>: definitions hold for every world, and theorems that need something of
  it say so by a named contract (\<open>silent_contract\<close>, \<open>quiet_machine\<close>, \<open>socket_contract\<close>, \<open>thread_contract\<close>, \<open>delivers\<close>, the supplicant of \<open>Wifi_Backend\<close>), each with an
  instance in the theorem's example. Machine integers are words of their width where they can wrap (frame lengths, ids, sequence
  numbers); times are integers.

  \<^bold>\<open>Loops and fuel.\<close> Decoding, scanning and netlink walks are terminating functions with the rest of the input as measure. The loops of the
  JSON readers carry the length of their input as fuel, and the theories prove that it is never used up. Loops whose end the outside
  decides take the list of what the outside does (\<open>flush\<close>, \<open>drain_loop\<close>, \<open>monitor_run\<close>) or a number of turns
  (\<open>server_loop\<close>, \<open>thread_turns\<close>, about which every statement is for all numbers). The loops of the probe and the join of the monitoring
  thread may have no end in a hostile world: they are partial functions into \<open>option\<close>, and the theorems prove that they return. The budgets of the server's read and write loops are the code's own and are
  their measures.

  \<^bold>\<open>Interfaces.\<close> \<open>framing\<close> states incremental framing once and is interpreted by the codec; \<open>byte_fifo\<close> states what a sender relies on in a
  queue and is interpreted by the outbound queue; \<open>sequence_source\<close> states what a client relies on in the numbers of events and is interpreted
  by the sequencer; \<open>string_escape\<close> states what an escaper and its reader promise each other and is interpreted by both escapers;
  \<open>invariant_machine\<close> is interpreted by the decoder, the queue, the Wi-Fi manager, the scan lifecycle, the control plane's route ledger and the
  server's loop; \<open>returning_machine\<close>, of which it is a special case, adds that every call returns and is interpreted by the supplicant
  monitor.

  \<^bold>\<open>Not modelled.\<close> Log output and the probe's standard error; two threads that call \<open>start\<close> and \<open>stop\<close> of one monitor at the same time; what external
  programs do beyond the contracts above; the branches for systems other than Linux. The Python tools, the init script and the tests are not part of the program.
\<close>

end
